(* ===== verification/Go_Prelude.thy ===== *)
theory Go_Prelude
  imports Main "HOL-Library.Word" "HOL-Library.Char_ord" "HOL-Library.List_Lexorder"
    "HOL-Library.Product_Lexorder" "HOL-Library.Multiset"
begin

text \<open>
  The part of Go and of its standard library that the components share: outcomes of a call
  (a value, an error, a panic), byte slices, the 64-bit \<open>int\<close>, decimal and
  hexadecimal printing (\<open>fmt.Sprintf("%d")\<close>, \<open>strconv.Itoa\<close>,
  \<open>hex.EncodeToString\<close>), \<open>strings.Join\<close>, string prefixes and suffixes, and
  canonical sorted lists of map keys. Go strings are byte sequences; they are HOL strings here,
  a \<open>char\<close> being one byte, so that \<open><\<close> on strings (HOL-Library.List_Lexorder) is Go's
  bytewise order.
\<close>

unbundle bit_operations_syntax

named_theorems go_simps \<open>equations that run the outcome plumbing of a Go call\<close>
named_theorems fmt_simps \<open>facts about the printing functions\<close>

section \<open>Outcomes\<close>

text \<open>An error value: a plain message, a message wrapped around a cause (\<open>%w\<close>), or
  \<open>io.ErrUnexpectedEOF\<close>.\<close>

datatype go_error = ErrMsg string | ErrWrap string go_error | ErrUnexpectedEOF

text \<open>A call returns a value, returns an error, or panics.\<close>

datatype 'a go = Ok 'a | Err go_error | Panic string

fun go_bind :: "'a go \<Rightarrow> ('a \<Rightarrow> 'b go) \<Rightarrow> 'b go" where
  "go_bind (Ok x) f = f x"
| "go_bind (Err e) f = Err e"
| "go_bind (Panic p) f = Panic p"

declare go_bind.simps [go_simps]

lemma go_bind_eq_Ok: "go_bind r f = Ok y \<longleftrightarrow> (\<exists>x. r = Ok x \<and> f x = Ok y)"
  by (cases r) auto

lemma go_bind_assoc: "go_bind (go_bind r f) g = go_bind r (\<lambda>x. go_bind (f x) g)"
  by (cases r) auto

section \<open>Bytes, strings, machine integers\<close>

type_synonym byte = "8 word"
type_synonym bytes = "8 word list"
type_synonym u64 = "64 word"

lemma unat_byte_less: "unat (b :: byte) < 256"
  using unsigned_less [of b] by simp

definition string_of_bytes :: "bytes \<Rightarrow> string" where
  "string_of_bytes bs = map (\<lambda>b. char_of (unat b)) bs"

definition bytes_of_string :: "string \<Rightarrow> bytes" where
  "bytes_of_string s = map (\<lambda>c. word_of_nat (of_char c)) s"

lemma of_char_less_256: "of_char c < (256 :: nat)"
  by (metis char_of_mod_256 mod_less_divisor of_char_mod_256 zero_less_numeral)

lemma string_of_bytes_of_string [simp]: "string_of_bytes (bytes_of_string s) = s"
  by (simp add: string_of_bytes_def bytes_of_string_def comp_def unat_of_nat
      of_char_less_256 map_idI)

lemma length_bytes_of_string [simp]: "length (bytes_of_string s) = length s"
  by (simp add: bytes_of_string_def)

lemma bytes_of_string_Nil_iff [simp]: "bytes_of_string s = [] \<longleftrightarrow> s = []"
  by (simp add: bytes_of_string_def)

text \<open>Go's \<open>int\<close> and \<open>int64\<close> wrap at 64 bits: the value read back from a 64-bit word.\<close>

definition wrap64 :: "int \<Rightarrow> int" where
  "wrap64 x = sint (word_of_int x :: u64)"

definition int64_range :: "int \<Rightarrow> bool" where
  "int64_range x \<longleftrightarrow> - (2 ^ 63) \<le> x \<and> x < 2 ^ 63"

lemma wrap64_id: "int64_range x \<Longrightarrow> wrap64 x = x"
  unfolding wrap64_def int64_range_def
  by (simp add: sint_word_ariths signed_of_int signed_take_bit_int_eq_self)

lemma int64_range_sint [simp]: "int64_range (sint (w :: u64))"
  using sint_range_size [of w] by (simp add: int64_range_def word_size)

section \<open>Decimal and hexadecimal printing\<close>

definition digit_char :: "nat \<Rightarrow> char" where
  "digit_char d = char_of (48 + d)"

fun nat_digits :: "nat \<Rightarrow> string" where
  "nat_digits n =
     (if n < 10 then [digit_char n] else nat_digits (n div 10) @ [digit_char (n mod 10)])"

declare nat_digits.simps [simp del]

definition itoa :: "int \<Rightarrow> string" where
  "itoa i = (if i < 0 then CHR ''-'' # nat_digits (nat (- i)) else nat_digits (nat i))"

definition parse_digits :: "string \<Rightarrow> nat" where
  "parse_digits s = foldl (\<lambda>a c. 10 * a + (of_char c - 48)) 0 s"

lemma of_char_digit_char: "d < 10 \<Longrightarrow> of_char (digit_char d) = (48 + d :: nat)"
  by (simp add: digit_char_def)

lemma parse_nat_digits [fmt_simps]: "parse_digits (nat_digits n) = n"
proof (induction n rule: nat_digits.induct)
  case (1 n)
  then show ?case
    by (subst nat_digits.simps)
      (auto simp: parse_digits_def of_char_digit_char not_less)
qed

lemma nat_digits_inj [fmt_simps]: "nat_digits m = nat_digits n \<longleftrightarrow> m = n"
  by (metis parse_nat_digits)

definition is_digit_char :: "char \<Rightarrow> bool" where
  "is_digit_char c \<longleftrightarrow> 48 \<le> (of_char c :: nat) \<and> (of_char c :: nat) \<le> 57"

lemma nat_digits_all_digits: "c \<in> set (nat_digits n) \<Longrightarrow> is_digit_char c"
proof (induction n rule: nat_digits.induct)
  case (1 n)
  then show ?case
    by (subst (asm) nat_digits.simps)
      (auto simp: is_digit_char_def of_char_digit_char split: if_splits)
qed

lemma nat_digits_not_Nil [simp]: "nat_digits n \<noteq> []"
  by (subst nat_digits.simps) simp

lemma minus_notin_nat_digits: "CHR ''-'' \<notin> set (nat_digits n)"
  using nat_digits_all_digits [of "CHR ''-''" n] by (auto simp: is_digit_char_def)

lemma itoa_inj [fmt_simps]: "itoa i = itoa j \<longleftrightarrow> i = j"
proof -
  have "CHR ''-'' # xs \<noteq> nat_digits n" for xs n
    using minus_notin_nat_digits [of n] by (metis list.set_intros(1))
  then show ?thesis
    unfolding itoa_def nat_digits_inj by (auto simp: nat_digits_inj dest: sym)
qed

lemma itoa_chars: "c \<in> set (itoa i) \<Longrightarrow> is_digit_char c \<or> c = CHR ''-''"
  using nat_digits_all_digits by (auto simp: itoa_def split: if_splits)

lemma itoa_not_Nil [simp]: "itoa i \<noteq> []"
  by (simp add: itoa_def)

definition hex_digit :: "nat \<Rightarrow> char" where
  "hex_digit d = char_of (if d < 10 then 48 + d else 87 + d)"

definition hex_byte :: "byte \<Rightarrow> string" where
  "hex_byte b = [hex_digit (unat b div 16), hex_digit (unat b mod 16)]"

definition hex_encode :: "bytes \<Rightarrow> string" where
  "hex_encode bs = concat (map hex_byte bs)"

lemma hex_digit_inj: "m < 16 \<Longrightarrow> n < 16 \<Longrightarrow> hex_digit m = hex_digit n \<longleftrightarrow> m = n"
  by (auto simp: hex_digit_def char_of_eq_iff take_bit_eq_mod split: if_splits)

lemma hex_byte_inj: "hex_byte a = hex_byte b \<longleftrightarrow> a = b"
proof -
  have "unat a div 16 < 16" "unat b div 16 < 16"
    using unat_byte_less [of a] unat_byte_less [of b] by (simp_all add: less_mult_imp_div_less)
  then show ?thesis
    by (auto simp: hex_byte_def hex_digit_inj) (metis div_mult_mod_eq unsigned_word_eqI)
qed

lemma length_hex_encode [simp]: "length (hex_encode bs) = 2 * length bs"
  by (induction bs) (auto simp: hex_encode_def hex_byte_def)

lemma hex_encode_inj [fmt_simps]: "hex_encode as = hex_encode bs \<longleftrightarrow> as = bs"
proof (induction as arbitrary: bs)
  case Nil
  then show ?case by (cases bs) (auto simp: hex_encode_def hex_byte_def)
next
  case (Cons a as)
  show ?case
  proof (cases bs)
    case Nil
    then show ?thesis by (simp add: hex_encode_def hex_byte_def)
  next
    case (Cons b bs')
    have "hex_encode (a # as) = hex_encode (b # bs') \<longleftrightarrow>
        hex_byte a = hex_byte b \<and> hex_encode as = hex_encode bs'"
      by (auto simp: hex_encode_def hex_byte_def)
    with Cons Cons.IH show ?thesis by (simp add: hex_byte_inj)
  qed
qed

section \<open>Joining and sorting\<close>

text \<open>\<open>strings.Join\<close>.\<close>

fun join :: "string \<Rightarrow> string list \<Rightarrow> string" where
  "join sep [] = []"
| "join sep [x] = x"
| "join sep (x # y # zs) = x @ sep @ join sep (y # zs)"

lemma join_Cons: "join sep (x # xs) = (if xs = [] then x else x @ sep @ join sep xs)"
  by (cases xs) simp_all

lemma append_sep_eq:
  "c \<notin> set x \<Longrightarrow> c \<notin> set y \<Longrightarrow> x @ c # u = y @ c # v \<longleftrightarrow> x = y \<and> u = v"
proof (induction x arbitrary: y)
  case Nil
  then show ?case by (cases y) auto
next
  case (Cons a x)
  then show ?case by (cases y) auto
qed

text \<open>A separator that no part contains can be split again.\<close>

lemma join_inj:
  assumes "xs \<noteq> []" "ys \<noteq> []" "\<And>x. x \<in> set xs \<union> set ys \<Longrightarrow> c \<notin> set x"
  shows "join [c] xs = join [c] ys \<longleftrightarrow> xs = ys"
  using assms
proof (induction xs arbitrary: ys)
  case (Cons x xs)
  then obtain y ys' where ys: "ys = y # ys'" by (cases ys) auto
  have c: "c \<notin> set x" "c \<notin> set y" using Cons.prems(3) by (auto simp: ys)
  show ?case
  proof (cases "xs = [] \<or> ys' = []")
    case True
    have "x \<noteq> y @ c # u" "y \<noteq> x @ c # u" for u using c by auto
    with True show ?thesis by (auto simp: ys join_Cons)
  next
    case False
    then show ?thesis
      using Cons.IH [of ys'] Cons.prems(3) c by (auto simp: ys join_Cons append_sep_eq)
  qed
qed simp

text \<open>\<open>sort.Strings\<close> (and any sort of distinct keys) of the keys of a map: the sorted list of
  the key set.\<close>

lemma sort_distinct_set: "distinct xs \<Longrightarrow> sort xs = sorted_list_of_set (set xs)"
  by (simp add: sorted_list_of_set_sort_remdups distinct_remdups_id)

text \<open>Every outcome but a panic.\<close>

fun no_panic :: "'a go \<Rightarrow> bool" where
  "no_panic (Panic p) = False"
| "no_panic r = True"

section \<open>Indexing slices\<close>

text \<open>Reading and writing an element by a Go \<open>int\<close>: out of range is a panic.\<close>

definition go_nth :: "'a list \<Rightarrow> int \<Rightarrow> 'a go" where
  "go_nth xs i = (if 0 \<le> i \<and> i < int (length xs) then Ok (xs ! nat i)
                  else Panic ''index out of range'')"

definition go_update :: "'a list \<Rightarrow> int \<Rightarrow> 'a \<Rightarrow> 'a list go" where
  "go_update xs i x = (if 0 \<le> i \<and> i < int (length xs) then Ok (xs[nat i := x])
                       else Panic ''index out of range'')"

text \<open>A loop whose body may fail.\<close>

fun go_fold :: "('e \<Rightarrow> 's \<Rightarrow> 's go) \<Rightarrow> 'e list \<Rightarrow> 's \<Rightarrow> 's go" where
  "go_fold f [] s = Ok s"
| "go_fold f (e # es) s = go_bind (f e s) (go_fold f es)"

declare go_fold.simps [go_simps]

text \<open>What every successful step keeps, the loop keeps.\<close>

lemma go_fold_invariant:
  assumes "go_fold f es s = Ok t" "I s" "\<And>e s t. f e s = Ok t \<Longrightarrow> I s \<Longrightarrow> I t"
  shows "I t"
  using assms(1,2)
proof (induction es arbitrary: s)
  case (Cons e es)
  then obtain u where "f e s = Ok u" "go_fold f es u = Ok t"
    by (cases "f e s") auto
  with Cons assms(3) show ?case by blast
qed simp

section \<open>Canonical sorts\<close>

text \<open>Sorting elements by distinct keys gives the sorted keys, each with its element, whatever the order
  the elements came in.\<close>

lemma sort_key_canonical:
  assumes "distinct (map f xs)" "\<And>x. x \<in> set xs \<Longrightarrow> g (f x) = x"
  shows "sort_key f xs = map g (sorted_list_of_set (f ` set xs))"
proof (rule sort_key_inj_key_eq)
  have "map g (map f xs) = xs" using assms(2) by (simp add: map_idI)
  moreover have "mset (map f xs) = mset (sorted_list_of_set (f ` set xs))"
    using assms(1) by (intro set_eq_iff_mset_eq_distinct [THEN iffD1]) simp_all
  ultimately show "mset xs = mset (map g (sorted_list_of_set (f ` set xs)))"
    by (metis mset_map)
  show "inj_on f (set xs)" using assms(1) by (simp add: distinct_map)
  have "map f (map g (sorted_list_of_set (f ` set xs))) = sorted_list_of_set (f ` set xs)"
    using assms(2) by (auto simp: comp_def intro!: map_idI)
  then show "sorted (map f (map g (sorted_list_of_set (f ` set xs))))" by simp
qed

end
