(* ===== verification/Proto_Wire.thy ===== *)
theory Proto_Wire
  imports Go_Prelude
begin

text \<open>
  The protobuf wire helpers at the end of \<open>x/simcanary/types/msgs.go\<close> (\<open>encodeVarint\<close>,
  \<open>sovLen\<close>, \<open>decodeTag\<close>, \<open>skipField\<close>) and the functions of Go's \<open>encoding/binary\<close> they
  meet: \<open>Uvarint\<close>, and \<open>PutUvarint\<close> as the reference encoder. Buffers are byte lists, offsets
  are \<open>int\<close>, and an index or slice out of range is a panic.
\<close>

section \<open>Slices of a buffer\<close>

definition get_byte :: "bytes \<Rightarrow> int \<Rightarrow> byte go" where
  "get_byte d i = (if 0 \<le> i \<and> i < int (length d) then Ok (d ! nat i) else Panic ''index out of range'')"

definition put_byte :: "bytes \<Rightarrow> int \<Rightarrow> byte \<Rightarrow> bytes go" where
  "put_byte d i b =
     (if 0 \<le> i \<and> i < int (length d) then Ok (d[nat i := b]) else Panic ''index out of range'')"

text \<open>\<open>d[lo:]\<close> and \<open>d[lo:hi]\<close>\<close>

definition slice_from :: "bytes \<Rightarrow> int \<Rightarrow> bytes go" where
  "slice_from d lo =
     (if 0 \<le> lo \<and> lo \<le> int (length d) then Ok (drop (nat lo) d)
      else Panic ''slice bounds out of range'')"

definition slice :: "bytes \<Rightarrow> int \<Rightarrow> int \<Rightarrow> bytes go" where
  "slice d lo hi =
     (if 0 \<le> lo \<and> lo \<le> hi \<and> hi \<le> int (length d)
      then Ok (take (nat (hi - lo)) (drop (nat lo) d))
      else Panic ''slice bounds out of range'')"

text \<open>\<open>copy(d[i:], s)\<close>: as many bytes as both sides have.\<close>

definition copy_at :: "bytes \<Rightarrow> int \<Rightarrow> bytes \<Rightarrow> bytes go" where
  "copy_at d i s =
     (if 0 \<le> i \<and> i \<le> int (length d)
      then let j = nat i; k = min (length s) (length d - j)
           in Ok (take j d @ take k s @ drop (j + k) d)
      else Panic ''slice bounds out of range'')"

section \<open>encoding/binary\<close>

text \<open>\<open>binary.Uvarint\<close>: the loop over the buffer with its index and accumulator.\<close>

fun uvarint_loop :: "nat \<Rightarrow> u64 \<Rightarrow> bytes \<Rightarrow> u64 \<times> int" where
  "uvarint_loop i x [] = (0, 0)"
| "uvarint_loop i x (b # bs) =
     (if i = 10 then (0, - (int i + 1))
      else if b < 0x80 then
        (if i = 9 \<and> b > 1 then (0, - (int i + 1))
         else (x OR push_bit (7 * i) (ucast b), int i + 1))
      else uvarint_loop (Suc i) (x OR push_bit (7 * i) (ucast (b AND 0x7f))) bs)"

definition uvarint :: "bytes \<Rightarrow> u64 \<times> int" where
  "uvarint bs = uvarint_loop 0 0 bs"

text \<open>\<open>binary.PutUvarint\<close>, the encoding that \<open>Uvarint\<close> inverts: least significant group first.\<close>

lemma unat_drop_bit_div: "unat (drop_bit k (v :: u64)) = unat v div 2 ^ k"
  using unat_drop_bit_eq [of k v] by (simp add: drop_bit_eq_div)

lemma unat_drop7_less: "v \<noteq> 0 \<Longrightarrow> unat (drop_bit 7 (v :: u64)) < unat v"
  by (simp only: unat_drop_bit_div) (simp add: unat_gt_0)

lemma drop7_eq_0_iff: "drop_bit 7 (v :: u64) = 0 \<longleftrightarrow> v < 0x80"
proof -
  have "drop_bit 7 v = 0 \<longleftrightarrow> unat (drop_bit 7 v) = 0" by (simp add: unat_eq_0)
  also have "\<dots> \<longleftrightarrow> unat v < 128"
    by (simp only: unat_drop_bit_div) (simp add: div_eq_0_iff)
  also have "\<dots> \<longleftrightarrow> v < 0x80" by (simp add: word_less_nat_alt)
  finally show ?thesis .
qed

function put_uvarint :: "u64 \<Rightarrow> bytes" where
  "put_uvarint v =
     (if v < 0x80 then [ucast v] else (ucast v OR 0x80) # put_uvarint (drop_bit 7 v))"
  by pat_completeness auto
termination
  by (relation "measure unat") (auto intro!: unat_drop7_less)

declare put_uvarint.simps [simp del]

section \<open>msgs.go: the helpers\<close>

text \<open>
  \<open>encodeVarint\<close>: the nest of \<open>if v >= 1<<7\<close>, \<open>if v >= 1<<14\<close>, \dots, one level per element of
  the list. Each level sets the continuation bit of the byte just written, moves the offset
  down and writes the next group there; the innermost one writes 1.
\<close>

fun encodeVarint_levels :: "nat list \<Rightarrow> bytes \<Rightarrow> int \<Rightarrow> u64 \<Rightarrow> (bytes \<times> int) go" where
  "encodeVarint_levels [] d off v = Ok (d, off)"
| "encodeVarint_levels (s # ss) d off v =
     (if v \<ge> push_bit s 1
      then go_bind (get_byte d off) (\<lambda>b.
           go_bind (put_byte d off (b OR 0x80)) (\<lambda>d.
           go_bind (put_byte d (off - 1)
             (if s = 63 then 1 else ucast (drop_bit s v) AND 0x7f)) (\<lambda>d.
           encodeVarint_levels ss d (off - 1) v)))
      else Ok (d, off))"

definition encodeVarint :: "bytes \<Rightarrow> int \<Rightarrow> u64 \<Rightarrow> (bytes \<times> int) go" where
  "encodeVarint d off v =
     go_bind (put_byte d (off - 1) (ucast v))
       (\<lambda>d. encodeVarint_levels [7, 14, 21, 28, 35, 42, 49, 56, 63] d (off - 1) v)"

function sovLen :: "u64 \<Rightarrow> nat" where
  "sovLen x = (let x' = drop_bit 7 x in if x' = 0 then 1 else Suc (sovLen x'))"
  by pat_completeness auto
termination
  by (relation "measure unat") (auto intro!: unat_drop7_less)

declare sovLen.simps [simp del]

definition decodeTag :: "bytes \<Rightarrow> int \<times> int \<times> int" where
  "decodeTag b =
     (case uvarint b of (v, n) \<Rightarrow>
        if n \<le> 0 then (0, 0, -1) else (sint (drop_bit 3 v), uint (v AND 0x7), n))"

text \<open>The varint case of \<open>skipField\<close>, from a suffix of the buffer; \<open>l\<close> is the buffer's length.\<close>

fun skip_varint :: "int \<Rightarrow> bytes \<Rightarrow> int \<Rightarrow> int \<times> go_error option" where
  "skip_varint l [] i = (l, Some ErrUnexpectedEOF)"
| "skip_varint l (b # bs) i =
     (if b AND 0x80 = 0 then (i + 1, None) else skip_varint l bs (i + 1))"

definition skipField :: "bytes \<Rightarrow> int \<Rightarrow> int \<Rightarrow> (int \<times> go_error option) go" where
  "skipField d i wireType =
     (if wireType = 0 then
        (if i < 0 then Panic ''index out of range''
         else Ok (skip_varint (int (length d)) (drop (nat i) d) i))
      else if wireType = 1 then Ok (i + 8, None)
      else if wireType = 2 then
        go_bind (slice_from d i) (\<lambda>b.
          case uvarint b of (sLen, n) \<Rightarrow>
            if n \<le> 0 then Ok (i, Some ErrUnexpectedEOF)
            else Ok (wrap64 (i + n + sint sLen), None))
      else if wireType = 5 then Ok (i + 4, None)
      else Ok (i, Some (ErrMsg (''unknown wire type '' @ itoa wireType))))"

section \<open>Lemmas on the reference encoding\<close>

lemma sovLen_eq_length: "sovLen v = length (put_uvarint v)"
proof (induction v rule: sovLen.induct)
  case (1 v)
  then show ?case
    by (subst sovLen.simps, subst put_uvarint.simps) (auto simp: Let_def drop7_eq_0_iff)
qed

lemma put_uvarint_small: "v < 0x80 \<Longrightarrow> put_uvarint v = [ucast v]"
  by (subst put_uvarint.simps) simp

lemma put_uvarint_not_Nil [simp]: "put_uvarint v \<noteq> []"
  by (subst put_uvarint.simps) simp

lemma sovLen_pos [simp]: "0 < sovLen v"
  by (simp add: sovLen_eq_length)

section \<open>Bits of a byte\<close>

lemma bit_0x80: "bit (0x80 :: byte) n \<longleftrightarrow> n = 7"
  using bit_exp_iff [where ?'a = "8 word", of 7 n] by auto

lemma bit_0x7f: "bit (0x7f :: byte) n \<longleftrightarrow> n < 7"
  using bit_mask_iff [where ?'a = "8 word", of 7 n] by (auto simp: mask_eq_exp_minus_1)

lemma byte_less_0x80: "b < (0x80 :: byte) \<longleftrightarrow> \<not> bit b 7"
proof -
  have lt: "unat b div 128 < 2" using unat_byte_less [of b] by (simp add: less_mult_imp_div_less)
  have "bit b 7 \<longleftrightarrow> odd (unat b div 2 ^ 7)"
    using bit_unsigned_iff [where ?'a = nat, of b 7] by (simp add: bit_iff_odd)
  also have "\<dots> \<longleftrightarrow> unat b div 128 = 1" using lt by (auto simp: less_2_cases_iff)
  also have "\<dots> \<longleftrightarrow> 128 \<le> unat b"
    using lt div_greater_zero_iff [of "unat b" 128] by linarith
  finally show ?thesis by (simp add: word_less_nat_alt not_le)
qed

lemma or_0x80_ge: "\<not> b OR 0x80 < (0x80 :: byte)"
  by (simp add: byte_less_0x80 bit_or_iff bit_0x80)

lemma and_0x80_eq_0: "b AND (0x80 :: byte) = 0 \<longleftrightarrow> b < 0x80"
proof
  assume "b AND 0x80 = 0"
  then have "\<not> bit (b AND 0x80) 7" by simp
  then show "b < 0x80" by (simp only: byte_less_0x80 bit_and_iff bit_0x80) simp
next
  assume "b < 0x80"
  then have "\<not> bit b 7" by (simp only: byte_less_0x80) simp
  then have "bit (b AND 0x80) n = bit (0 :: byte) n" for n
    by (auto simp only: bit_and_iff bit_0x80 bit_0_eq bot_apply bot_bool_def)
  then show "b AND 0x80 = 0" by (intro bit_word_eqI)
qed

lemma unat_ucast_byte: "unat (ucast (w :: u64) :: byte) = unat w mod 256"
  by (simp add: unsigned_ucast_eq take_bit_eq_mod)

lemma unat_ucast_u64: "unat (ucast (b :: byte) :: u64) = unat b"
  by (simp add: unsigned_ucast_eq take_bit_nat_eq_self less_trans [OF unat_byte_less])

lemma ucast_u64_byte: "(w :: u64) < 0x80 \<Longrightarrow> ucast (ucast w :: byte) = w"
  by (rule word_unat_eq_iff [THEN iffD2])
    (simp add: unat_ucast_u64 unat_ucast_byte word_less_nat_alt)

lemma push_split:
  "(x OR push_bit (7 * i) (take_bit 7 w)) OR push_bit (7 * Suc i) (drop_bit 7 w) = x OR push_bit (7 * i) (w :: u64)"
proof (rule bit_word_eqI)
  fix n assume n: "n < LENGTH(64)"
  show "bit ((x OR push_bit (7 * i) (take_bit 7 w)) OR push_bit (7 * Suc i) (drop_bit 7 w)) n
      = bit (x OR push_bit (7 * i) w) n"
  proof (cases "7 * Suc i \<le> n")
    case True
    then have "7 + (n - 7 * Suc i) = n - 7 * i" by simp
    with True n show ?thesis
      by (auto simp: bit_or_iff bit_push_bit_iff bit_take_bit_iff bit_drop_bit_eq)
  next
    case False
    with n show ?thesis
      by (auto simp: bit_or_iff bit_push_bit_iff bit_take_bit_iff bit_drop_bit_eq)
  qed
qed

lemma uvarint_put_gen:
  assumes "unat w < 2 ^ (64 - 7 * i)" "i \<le> 9"
  shows "uvarint_loop i x (put_uvarint w @ rest) = (x OR push_bit (7 * i) w, int (i + sovLen w))"
  using assms
proof (induction w arbitrary: i x rule: put_uvarint.induct)
  case (1 w)
  show ?case
  proof (cases "w < 0x80")
    case True
    have small: "(ucast w :: byte) < 0x80" using True
      by (simp add: word_less_nat_alt unat_ucast_byte)
    have last: "\<not> (i = 9 \<and> (ucast w :: byte) > 1)" using 1(2) True
      by (auto simp: word_less_nat_alt unat_ucast_byte)
    have "sovLen w = 1" using True by (subst sovLen.simps) (simp add: drop7_eq_0_iff)
    then show ?thesis using True 1(3) small last
      by (auto simp: put_uvarint_small ucast_u64_byte)
  next
    case False
    have "drop_bit 7 w \<noteq> 0" using False by (simp add: drop7_eq_0_iff)
    then have sov: "sovLen w = Suc (sovLen (drop_bit 7 w))"
      by (subst sovLen.simps) (simp add: Let_def)
    have i9: "i \<noteq> 9" using 1(2) False by (auto simp: word_less_nat_alt)
    have bound: "unat (drop_bit 7 w) < 2 ^ (64 - 7 * Suc i)"
    proof -
      have "(2 :: nat) ^ (64 - 7 * i) = 2 ^ 7 * 2 ^ (64 - 7 * Suc i)"
      proof -
        have "64 - 7 * i = 7 + (64 - 7 * Suc i)" using i9 1(3) by auto
        then show ?thesis by (simp only: power_add)
      qed
      then show ?thesis using 1(2)
        by (simp only: unat_drop_bit_div) (simp add: less_mult_imp_div_less mult.commute)
    qed
    have "(ucast ((ucast w OR 0x80 :: byte) AND 0x7f) :: u64) = take_bit 7 w"
    proof (rule bit_word_eqI)
      fix n assume "n < LENGTH(64)"
      show "bit (ucast ((ucast w OR 0x80 :: byte) AND 0x7f) :: u64) n = bit (take_bit 7 w) n"
        by (simp only: bit_ucast_iff bit_and_iff bit_or_iff bit_0x80 bit_0x7f bit_take_bit_iff)
          (auto dest: bit_imp_le_length)
    qed
    then have step: "(x OR push_bit (7 * i) (ucast ((ucast w OR 0x80 :: byte) AND 0x7f)))
        OR push_bit (7 * Suc i) (drop_bit 7 w) = x OR push_bit (7 * i) w"
      by (simp only: push_split)
    have "uvarint_loop i x (put_uvarint w @ rest) = uvarint_loop (Suc i)
        (x OR push_bit (7 * i) (ucast ((ucast w OR 0x80 :: byte) AND 0x7f)))
        (put_uvarint (drop_bit 7 w) @ rest)"
      using False i9 1(3) or_0x80_ge by (subst put_uvarint.simps) simp
    also have "\<dots> = ((x OR push_bit (7 * i) (ucast ((ucast w OR 0x80 :: byte) AND 0x7f)))
        OR push_bit (7 * Suc i) (drop_bit 7 w), int (Suc i + sovLen (drop_bit 7 w)))"
      by (rule 1(1) [OF False bound]) (use 1(3) i9 in simp)
    also have "\<dots> = (x OR push_bit (7 * i) w, int (i + sovLen w))"
      by (simp only: step sov add_Suc_right add_Suc)
    finally show ?thesis .
  qed
qed


lemma uvarint_put: "uvarint (put_uvarint v @ rest) = (v, int (sovLen v))"
  using uvarint_put_gen [of v 0 0 rest] unsigned_less [of v]
  by (simp add: uvarint_def)

lemma uvarint_single: "b < 0x80 \<Longrightarrow> uvarint (b # rest) = (ucast b, 1)"
  by (simp add: uvarint_def)

lemma uvarint_loop_cont:
  "\<forall>b \<in> set bs. \<not> b < 0x80 \<Longrightarrow> snd (uvarint_loop i x bs) \<le> 0"
  by (induction bs arbitrary: i x) auto

lemma decodeTag_cont: "\<forall>b \<in> set bs. \<not> b < 0x80 \<Longrightarrow> decodeTag bs = (0, 0, -1)"
  using uvarint_loop_cont [of bs 0 0]
  by (cases "uvarint_loop 0 0 bs") (simp add: decodeTag_def uvarint_def)

lemma put_uvarint_big:
  assumes "\<not> v < 0x80"
  obtains cs l where "put_uvarint v = cs @ [l]" "cs \<noteq> []" "\<forall>b \<in> set cs. \<not> b < 0x80" "l < 0x80"
proof -
  have "\<exists>cs l. put_uvarint v = cs @ [l] \<and> (\<forall>b \<in> set cs. \<not> b < 0x80) \<and> l < 0x80 \<and>
      (\<not> v < 0x80 \<longrightarrow> cs \<noteq> [])"
  proof (induction v rule: put_uvarint.induct)
    case (1 v)
    show ?case
    proof (cases "v < 0x80")
      case True
      then have "(ucast v :: byte) < 0x80" by (simp add: word_less_nat_alt unat_ucast_byte)
      with True show ?thesis by (auto simp: put_uvarint_small)
    next
      case False
      with 1 obtain cs l where "put_uvarint (drop_bit 7 v) = cs @ [l]"
        "\<forall>b \<in> set cs. \<not> b < 0x80" "l < 0x80" by blast
      then have "put_uvarint v = ((ucast v OR 0x80) # cs) @ [l] \<and>
          (\<forall>b \<in> set ((ucast v OR 0x80) # cs). \<not> b < 0x80) \<and> l < 0x80 \<and> (ucast v OR 0x80) # cs \<noteq> []"
        using False or_0x80_ge by (subst put_uvarint.simps) auto
      then show ?thesis by blast
    qed
  qed
  with assms that show ?thesis by blast
qed

lemma push_1_le_iff: "s < 64 \<Longrightarrow> push_bit s 1 \<le> (v :: u64) \<longleftrightarrow> 2 ^ s \<le> unat v"
proof -
  assume "s < 64"
  then have "(2 :: nat) ^ s < 2 ^ 64" by (rule power_strict_increasing) simp
  then have "unat (word_of_nat (2 ^ s) :: u64) = 2 ^ s" by (simp only: unat_of_nat) simp
  then show ?thesis by (simp add: word_le_nat_alt push_bit_eq_mult)
qed

lemma drop_ge_iff:
  assumes k: "7 * Suc k \<le> 63"
  shows "push_bit (7 * Suc k) 1 \<le> (v :: u64) \<longleftrightarrow> \<not> drop_bit (7 * k) v < 0x80"
proof -
  have "\<not> drop_bit (7 * k) v < 0x80 \<longleftrightarrow> 2 ^ 7 \<le> unat v div 2 ^ (7 * k)"
    by (simp only: word_less_nat_alt unat_drop_bit_div) (simp add: not_less)
  also have "\<dots> \<longleftrightarrow> 2 ^ 7 * 2 ^ (7 * k) \<le> unat v"
    by (rule less_eq_div_iff_mult_less_eq) simp
  also have "(2 :: nat) ^ 7 * 2 ^ (7 * k) = 2 ^ (7 * Suc k)"
    by (simp add: power_add)
  also have "2 ^ (7 * Suc k) \<le> unat v \<longleftrightarrow> push_bit (7 * Suc k) 1 \<le> v"
    using k by (intro push_1_le_iff [symmetric]) simp
  finally show ?thesis by blast
qed


lemma byte_mask_or: "(b AND 0x7f) OR 0x80 = b OR (0x80 :: byte)"
proof (rule bit_word_eqI)
  fix n assume "n < LENGTH(8)"
  then show "bit ((b AND 0x7f) OR 0x80) n = bit (b OR (0x80 :: byte)) n"
    by (simp only: bit_and_iff bit_or_iff bit_0x80 bit_0x7f) auto
qed

lemma byte_mask_small: "b < 0x80 \<Longrightarrow> b AND 0x7f = (b :: byte)"
proof (rule bit_word_eqI)
  fix n assume "b < 0x80" and n: "n < LENGTH(8)"
  then have "\<not> bit b 7" by (simp only: byte_less_0x80) simp
  with n show "bit (b AND 0x7f) n = bit b n"
    by (simp only: bit_and_iff bit_0x7f) (cases "n = 7", auto)
qed

lemma ucast_mask_small: "w < 0x80 \<Longrightarrow> ucast (w :: u64) AND 0x7f = (ucast w :: byte)"
  by (rule byte_mask_small) (simp add: word_less_nat_alt unat_ucast_byte)

lemma encodeVarint_levels_spec:
  assumes "1 \<le> k" "k \<le> 10" "w = drop_bit (7 * (k - 1)) v" "unat w < 2 ^ (64 - 7 * (k - 1))"
    "b OR 0x80 = ucast w OR 0x80" "w < 0x80 \<longrightarrow> b = ucast w" "sovLen w \<le> Suc (length A)"
  shows "encodeVarint_levels (map (\<lambda>i. 7 * i) [k..<10]) (A @ b # B) (int (length A)) v =
    Ok (take (Suc (length A) - sovLen w) A @ rev (put_uvarint w) @ B, int (Suc (length A) - sovLen w))"
  using assms
proof (induction "10 - k" arbitrary: k w b A B)
  case 0
  then have k: "k = 10" by simp
  have "unat w < 2" using 0 k by simp
  then have small: "w < 0x80" by (simp add: word_less_nat_alt)
  then have "sovLen w = 1" by (simp add: sovLen_eq_length put_uvarint_small)
  with 0 k small show ?case by (simp add: put_uvarint_small)
next
  case (Suc n)
  have k9: "k \<le> 9" using Suc.hyps(2) by simp
  have upt: "map (\<lambda>i. 7 * i) [k..<10] = 7 * k # map (\<lambda>i. 7 * i) [Suc k..<10]"
    using k9 by (simp add: upt_rec [of k])
  have guard: "push_bit (7 * k) 1 \<le> v \<longleftrightarrow> \<not> w < 0x80"
    using drop_ge_iff [of "k - 1" v] k9 Suc.prems by simp
  show ?case
  proof (cases "w < 0x80")
    case True
    then have "sovLen w = 1" by (simp add: sovLen_eq_length put_uvarint_small)
    with True Suc.prems guard upt show ?thesis by (simp add: put_uvarint_small)
  next
    case False
    define w' where "w' = drop_bit 7 w"
    have w': "w' = drop_bit (7 * (Suc k - 1)) v"
      using Suc.prems(1,3) by (cases k) (simp_all add: w'_def)
    have sov: "sovLen w = Suc (sovLen w')"
      using False by (subst sovLen.simps) (simp add: Let_def w'_def drop7_eq_0_iff)
    have putw: "put_uvarint w = (ucast w OR 0x80) # put_uvarint w'"
      using False by (subst put_uvarint.simps) (simp add: w'_def)
    obtain A' a where A: "A = A' @ [a]"
      using Suc.prems(7) sov sovLen_pos [of w'] by (cases A rule: rev_cases) auto
    have bound: "unat w' < 2 ^ (64 - 7 * (Suc k - 1))"
    proof -
      have "64 - 7 * (k - 1) = 7 + (64 - 7 * (Suc k - 1))" using k9 Suc.prems(1) by simp
      with Suc.prems(4) have "unat w < 2 ^ 7 * 2 ^ (64 - 7 * (Suc k - 1))" by (simp only: power_add)
      then show ?thesis unfolding w'_def unat_drop_bit_div
        by (simp add: less_mult_imp_div_less mult.commute)
    qed
    define b' :: byte where "b' = (if 7 * k = 63 then 1 else ucast (drop_bit (7 * k) v) AND 0x7f)"
    have "b' = ucast w' AND 0x7f"
    proof (cases "7 * k = 63")
      case True
      have "w' \<noteq> 0" using False by (simp add: w'_def drop7_eq_0_iff)
      then have "unat w' = 1" using bound True by (simp add: unat_eq_0 flip: unat_gt_0)
      then have "w' = 1" by (simp add: word_unat_eq_iff)
      with True show ?thesis by (simp add: b'_def)
    next
      case False
      then show ?thesis using w' by (simp add: b'_def)
    qed
    then have b'1: "b' OR 0x80 = ucast w' OR 0x80" and b'2: "w' < 0x80 \<longrightarrow> b' = ucast w'"
      by (simp_all add: byte_mask_or ucast_mask_small)
    have "encodeVarint_levels (map (\<lambda>i. 7 * i) [k..<10]) (A @ b # B) (int (length A)) v
        = encodeVarint_levels (map (\<lambda>i. 7 * i) [Suc k..<10]) (A' @ b' # (b OR 0x80) # B) (int (length A')) v"
      using False guard upt
      by (simp add: A get_byte_def put_byte_def go_simps b'_def nth_append list_update_append nat_add_distrib)
    also have "\<dots> = Ok (take (Suc (length A') - sovLen w') A' @ rev (put_uvarint w') @ (b OR 0x80) # B,
        int (Suc (length A') - sovLen w'))"
      by (rule Suc.hyps(1)) (use Suc.hyps(2) Suc.prems k9 w' bound b'1 b'2 sov A in auto)
    finally show ?thesis using Suc.prems(5,7) sovLen_pos [of w'] by (simp add: sov putw A Suc_leI)
  qed
qed


text \<open>\<open>encodeVarint\<close> never panics when there is room, and leaves the bytes of the standard encoding
  in reverse order right below the offset.\<close>

lemma encodeVarint_spec:
  assumes "sovLen v \<le> length A"
  shows "encodeVarint (A @ B) (int (length A)) v =
    Ok (take (length A - sovLen v) A @ rev (put_uvarint v) @ B, int (length A - sovLen v))"
proof -
  obtain A' a where A: "A = A' @ [a]"
    using assms sovLen_pos [of v] by (cases A rule: rev_cases) auto
  have levels: "[7, 14, 21, 28, 35, 42, 49, 56, 63] = map (\<lambda>i. 7 * i) [1..<10 :: nat]"
    by (simp add: upt_rec)
  have "encodeVarint (A @ B) (int (length A)) v =
      encodeVarint_levels (map (\<lambda>i. 7 * i) [1..<10]) (A' @ ucast v # B) (int (length A')) v"
    by (simp only: encodeVarint_def levels)
      (simp add: A put_byte_def go_simps list_update_append nat_add_distrib)
  also have "\<dots> = Ok (take (Suc (length A') - sovLen v) A' @ rev (put_uvarint v) @ B,
      int (Suc (length A') - sovLen v))"
    by (rule encodeVarint_levels_spec) (use assms A unsigned_less [of v] in auto)
  finally show ?thesis using sovLen_pos [of v] by (simp add: A Suc_leI)
qed

end
