(* ===== verification/Canary_Msgs.thy ===== *)
theory Canary_Msgs
  imports Proto_Wire
begin

text \<open>
  The hand-written protobuf messages of \<open>x/simcanary/types/msgs.go\<close>: one record per message,
  \<open>Size\<close>, \<open>MarshalToSizedBuffer\<close>, \<open>Marshal\<close>, \<open>MarshalTo\<close> and \<open>Unmarshal\<close>. The blocks that
  every message repeats in the source (write one field backwards, read one field, the loop over the tags)
  are shared definitions here; each message's own definition has its fields, tags and switch.
  \<open>Unmarshal\<close> is a \<open>partial_function\<close>: \<open>None\<close> means that its loop never ends. An error value drops
  the half-filled message. A buffer's capacity is taken to be its length.

  The locale \<open>wire_message\<close> is the contract of a marshaller (it writes its image at the end of the
  buffer, and \<open>Size\<close> announces its length); \<open>wire_codec\<close> adds a decoder that reads it back.
\<close>

section \<open>Writing a field backwards\<close>

definition put_bytes_field :: "byte \<Rightarrow> bytes \<Rightarrow> bytes \<Rightarrow> int \<Rightarrow> (bytes \<times> int) go" where
  "put_bytes_field tag s d i =
     (if 0 < length s then
        (let i = i - int (length s) in
         go_bind (copy_at d i s) (\<lambda>d.
         go_bind (encodeVarint d i (word_of_nat (length s))) (\<lambda>(d, i).
         go_bind (put_byte d (i - 1) tag) (\<lambda>d. Ok (d, i - 1)))))
      else Ok (d, i))"

definition put_varint_field :: "byte \<Rightarrow> u64 \<Rightarrow> bytes \<Rightarrow> int \<Rightarrow> (bytes \<times> int) go" where
  "put_varint_field tag v d i =
     (if v \<noteq> 0 then
        go_bind (encodeVarint d i v) (\<lambda>(d, i).
        go_bind (put_byte d (i - 1) tag) (\<lambda>d. Ok (d, i - 1)))
      else Ok (d, i))"

text \<open>The bytes a field occupies.\<close>

definition bytes_field_image :: "byte \<Rightarrow> bytes \<Rightarrow> bytes" where
  "bytes_field_image tag s =
     (if s = [] then [] else tag # rev (put_uvarint (word_of_nat (length s))) @ s)"

definition varint_field_image :: "byte \<Rightarrow> u64 \<Rightarrow> bytes" where
  "varint_field_image tag v = (if v = 0 then [] else tag # rev (put_uvarint v))"

text \<open>A step that writes \<open>bs\<close> right below the offset and moves the offset below them.\<close>

definition writes :: "(bytes \<Rightarrow> int \<Rightarrow> (bytes \<times> int) go) \<Rightarrow> bytes \<Rightarrow> bool" where
  "writes w bs \<longleftrightarrow> (\<forall>A B. length bs \<le> length A \<longrightarrow>
     w (A @ B) (int (length A)) = Ok (take (length A - length bs) A @ bs @ B, int (length A - length bs)))"

lemma writesD:
  "writes w bs \<Longrightarrow> length bs \<le> length A \<Longrightarrow>
   w (A @ B) (int (length A)) = Ok (take (length A - length bs) A @ bs @ B, int (length A - length bs))"
  by (simp add: writes_def)

lemma writes_seq:
  assumes "writes w1 b1" "writes w2 b2"
  shows "writes (\<lambda>d i. go_bind (w1 d i) (\<lambda>(d, i). w2 d i)) (b2 @ b1)"
  unfolding writes_def
proof (intro allI impI)
  fix A B :: bytes assume len: "length (b2 @ b1) \<le> length A"
  let ?A = "take (length A - length b1) A"
  have "w1 (A @ B) (int (length A)) = Ok (?A @ b1 @ B, int (length ?A))"
    using writesD [OF assms(1), of A B] len by simp
  moreover have "w2 (?A @ b1 @ B) (int (length ?A)) =
      Ok (take (length ?A - length b2) ?A @ b2 @ b1 @ B, int (length ?A - length b2))"
    using len by (intro writesD [OF assms(2)]) simp
  moreover have "take (length ?A - length b2) ?A = take (length A - length (b2 @ b1)) A"
    "length ?A - length b2 = length A - length (b2 @ b1)"
    using len by (simp_all add: add.commute)
  ultimately show "go_bind (w1 (A @ B) (int (length A))) (\<lambda>(d, i). w2 d i) =
      Ok (take (length A - length (b2 @ b1)) A @ (b2 @ b1) @ B, int (length A - length (b2 @ b1)))"
    by (simp only: go_bind.simps prod.case append_assoc)
qed

lemma put_byte_below:
  "put_byte (A @ x # B) (int (length A)) b = Ok (A @ b # B)"
  by (simp add: put_byte_def list_update_append)

lemma writes_encode_tag:
  "writes (\<lambda>d i. go_bind (encodeVarint d i v) (\<lambda>(d, i).
     go_bind (put_byte d (i - 1) tag) (\<lambda>d. Ok (d, i - 1)))) (tag # rev (put_uvarint v))"
  unfolding writes_def
proof (intro allI impI)
  fix A B :: bytes assume len: "length (tag # rev (put_uvarint v)) \<le> length A"
  define n where "n = length A - Suc (sovLen v)"
  have n: "length A - sovLen v = Suc n" "n < length A"
    using len by (auto simp: n_def sovLen_eq_length)
  then have "take (length A - sovLen v) A = take n A @ [A ! n]"
    by (simp add: take_Suc_conv_app_nth)
  with encodeVarint_spec [of v A B] len n
  have "encodeVarint (A @ B) (int (length A)) v =
      Ok (take n A @ (A ! n) # rev (put_uvarint v) @ B, int (Suc n))"
    by (simp add: sovLen_eq_length)
  moreover have "put_byte (take n A @ (A ! n) # rev (put_uvarint v) @ B) (int (Suc n) - 1) tag =
      Ok (take n A @ tag # rev (put_uvarint v) @ B)"
    using put_byte_below [of "take n A"] n by simp
  ultimately show "go_bind (encodeVarint (A @ B) (int (length A)) v) (\<lambda>(d, i).
      go_bind (put_byte d (i - 1) tag) (\<lambda>d. Ok (d, i - 1))) =
    Ok (take (length A - length (tag # rev (put_uvarint v))) A @ (tag # rev (put_uvarint v)) @ B,
        int (length A - length (tag # rev (put_uvarint v))))"
    by (simp add: n_def sovLen_eq_length)
qed

lemma writes_copy: "writes (\<lambda>d i. let i = i - int (length s) in go_bind (copy_at d i s) (\<lambda>d. Ok (d, i))) s"
  by (auto simp: writes_def copy_at_def Let_def go_simps nat_diff_distrib)

lemma writes_nothing: "writes (\<lambda>d i. Ok (d, i)) []"
  by (simp add: writes_def)

lemma writes_varint_field: "writes (put_varint_field tag v) (varint_field_image tag v)"
  using writes_encode_tag [of v tag] writes_nothing
  by (simp add: put_varint_field_def [abs_def] varint_field_image_def)

lemma writes_bytes_field: "writes (put_bytes_field tag s) (bytes_field_image tag s)"
proof (cases "s = []")
  case True
  then show ?thesis using writes_nothing by (simp add: put_bytes_field_def [abs_def] bytes_field_image_def)
next
  case False
  have "put_bytes_field tag s = (\<lambda>d i. go_bind
      ((\<lambda>d i. let i = i - int (length s) in go_bind (copy_at d i s) (\<lambda>d. Ok (d, i))) d i)
      (\<lambda>(d, i). go_bind (encodeVarint d i (word_of_nat (length s))) (\<lambda>(d, i).
         go_bind (put_byte d (i - 1) tag) (\<lambda>d. Ok (d, i - 1)))))"
    using False by (simp add: put_bytes_field_def [abs_def] Let_def go_bind_assoc go_simps)
  moreover have "bytes_field_image tag s = (tag # rev (put_uvarint (word_of_nat (length s)))) @ s"
    using False by (simp add: bytes_field_image_def)
  ultimately show ?thesis
    using writes_seq [OF writes_copy [of s] writes_encode_tag [of "word_of_nat (length s)" tag]] by simp
qed

section \<open>Sizes, and the callers of \<open>MarshalToSizedBuffer\<close>\<close>

definition bytes_field_size :: "bytes \<Rightarrow> nat" where
  "bytes_field_size s = (if 0 < length s then 1 + sovLen (word_of_nat (length s)) + length s else 0)"

definition varint_field_size :: "u64 \<Rightarrow> nat" where
  "varint_field_size v = (if v \<noteq> 0 then 1 + sovLen v else 0)"

text \<open>\<open>Marshal\<close>: a buffer of \<open>Size()\<close> zero bytes, filled from its end, and \<open>buf[:n]\<close> returned.\<close>

definition marshal_with :: "('m \<Rightarrow> nat) \<Rightarrow> ('m \<Rightarrow> bytes \<Rightarrow> (bytes \<times> int) go) \<Rightarrow> 'm \<Rightarrow> bytes go" where
  "marshal_with size_of mtsb m =
     go_bind (mtsb m (replicate (size_of m) 0)) (\<lambda>(buf, n). slice buf 0 n)"

text \<open>\<open>MarshalTo\<close>: the first \<open>Size()\<close> bytes of the caller's buffer; the result is that buffer, written,
  and the count.\<close>

definition marshal_to_with ::
  "('m \<Rightarrow> nat) \<Rightarrow> ('m \<Rightarrow> bytes \<Rightarrow> (bytes \<times> int) go) \<Rightarrow> 'm \<Rightarrow> bytes \<Rightarrow> (bytes \<times> int) go" where
  "marshal_to_with size_of mtsb m d =
     go_bind (slice d 0 (int (size_of m))) (\<lambda>d'.
     go_bind (mtsb m d') (\<lambda>(d', n). Ok (d' @ drop (size_of m) d, n)))"

locale wire_message =
  fixes mtsb :: "'m \<Rightarrow> bytes \<Rightarrow> (bytes \<times> int) go"
    and size_of :: "'m \<Rightarrow> nat"
    and image :: "'m \<Rightarrow> bytes"
  assumes size_image: "size_of m = length (image m)"
    and mtsb_image: "length (image m) \<le> length d \<Longrightarrow>
      mtsb m d = Ok (take (length d - length (image m)) d @ image m, int (length (image m)))"
begin

lemma marshal_ok: "marshal_with size_of mtsb m = Ok (image m)"
  by (simp add: marshal_with_def size_image mtsb_image go_simps slice_def)

lemma marshal_to_ok:
  "size_of m \<le> length d \<Longrightarrow>
   marshal_to_with size_of mtsb m d = Ok (image m @ drop (size_of m) d, int (size_of m))"
  by (simp add: marshal_to_with_def slice_def size_image mtsb_image go_simps)

lemma marshal_to_panic:
  "length d < size_of m \<Longrightarrow> \<exists>p. marshal_to_with size_of mtsb m d = Panic p"
  by (simp add: marshal_to_with_def slice_def go_simps)

end

section \<open>Reading\<close>

text \<open>A length-delimited field: the length, the bounds check, the slice.\<close>

definition read_string_field :: "string \<Rightarrow> bytes \<Rightarrow> int \<Rightarrow> int \<Rightarrow> (string \<times> int) go" where
  "read_string_field name d i wireType =
     (if wireType \<noteq> 2 then
        Err (ErrMsg (''unexpected wire type '' @ itoa wireType @ '' for field '' @ name))
      else go_bind (slice_from d i) (\<lambda>b. case uvarint b of (sLen, n) \<Rightarrow>
        if n \<le> 0 then Err ErrUnexpectedEOF
        else (let i = i + n; hi = wrap64 (i + sint sLen) in
          if hi > int (length d) then Err ErrUnexpectedEOF
          else go_bind (slice d i hi) (\<lambda>s. Ok (string_of_bytes s, hi)))))"

definition read_varint_field :: "string \<Rightarrow> bytes \<Rightarrow> int \<Rightarrow> int \<Rightarrow> (u64 \<times> int) go" where
  "read_varint_field name d i wireType =
     (if wireType \<noteq> 0 then
        Err (ErrMsg (''unexpected wire type '' @ itoa wireType @ '' for field '' @ name))
      else go_bind (slice_from d i) (\<lambda>b. case uvarint b of (v, n) \<Rightarrow>
        if n \<le> 0 then Err ErrUnexpectedEOF else Ok (v, i + n)))"

text \<open>The default case: \<open>iNdEx, _ = skipField(dAtA, iNdEx, wireType)\<close>, its error dropped.\<close>

definition skip_unknown :: "'m \<Rightarrow> bytes \<Rightarrow> int \<Rightarrow> int \<Rightarrow> ('m \<times> int) go" where
  "skip_unknown m d i wireType = go_bind (skipField d i wireType) (\<lambda>(i, _). Ok (m, i))"

type_synonym 'm field_switch = "'m \<Rightarrow> bytes \<Rightarrow> int \<Rightarrow> int \<Rightarrow> int \<Rightarrow> ('m \<times> int) go"

text \<open>The loop \<open>for iNdEx < l\<close> with the message's \<open>switch fieldNum\<close> as its argument.\<close>

partial_function (option) unmarshal_loop ::
  "'m field_switch \<Rightarrow> bytes \<Rightarrow> int \<Rightarrow> 'm \<Rightarrow> 'm go option" where
  "unmarshal_loop sw d i m =
     (if i < int (length d) then
        (case slice_from d i of
           Panic p \<Rightarrow> Some (Panic p)
         | Err e \<Rightarrow> Some (Err e)
         | Ok b \<Rightarrow>
             (case decodeTag b of (fieldNum, wireType, n) \<Rightarrow>
                if n < 0 then Some (Err ErrUnexpectedEOF)
                else (case sw m d (i + n) fieldNum wireType of
                        Panic p \<Rightarrow> Some (Panic p)
                      | Err e \<Rightarrow> Some (Err e)
                      | Ok (m', i') \<Rightarrow> unmarshal_loop sw d i' m')))
      else Some (Ok m))"

section \<open>The messages\<close>

record MsgCanaryMapSet =
  ms_Sender :: string
  ms_Key :: string
  ms_Value :: u64

definition MapSet_MarshalToSizedBuffer :: "MsgCanaryMapSet \<Rightarrow> bytes \<Rightarrow> (bytes \<times> int) go" where
  "MapSet_MarshalToSizedBuffer m d =
     go_bind (put_varint_field 0x18 (ms_Value m) d (int (length d))) (\<lambda>(d, i).
     go_bind (put_bytes_field 0x12 (bytes_of_string (ms_Key m)) d i) (\<lambda>(d, i).
     go_bind (put_bytes_field 0x0a (bytes_of_string (ms_Sender m)) d i) (\<lambda>(d, i).
     Ok (d, int (length d) - i))))"

definition MapSet_Size :: "MsgCanaryMapSet \<Rightarrow> nat" where
  "MapSet_Size m = bytes_field_size (bytes_of_string (ms_Sender m))
     + bytes_field_size (bytes_of_string (ms_Key m)) + varint_field_size (ms_Value m)"

definition MapSet_Marshal :: "MsgCanaryMapSet \<Rightarrow> bytes go" where
  "MapSet_Marshal = marshal_with MapSet_Size MapSet_MarshalToSizedBuffer"

definition MapSet_MarshalTo :: "MsgCanaryMapSet \<Rightarrow> bytes \<Rightarrow> (bytes \<times> int) go" where
  "MapSet_MarshalTo = marshal_to_with MapSet_Size MapSet_MarshalToSizedBuffer"

definition MapSet_switch :: "MsgCanaryMapSet field_switch" where
  "MapSet_switch m d i fieldNum wireType =
     (if fieldNum = 1 then
        go_bind (read_string_field ''sender'' d i wireType) (\<lambda>(s, i). Ok (m\<lparr>ms_Sender := s\<rparr>, i))
      else if fieldNum = 2 then
        go_bind (read_string_field ''key'' d i wireType) (\<lambda>(s, i). Ok (m\<lparr>ms_Key := s\<rparr>, i))
      else if fieldNum = 3 then
        go_bind (read_varint_field ''value'' d i wireType) (\<lambda>(v, i). Ok (m\<lparr>ms_Value := v\<rparr>, i))
      else skip_unknown m d i wireType)"

definition MapSet_Unmarshal :: "bytes \<Rightarrow> MsgCanaryMapSet \<Rightarrow> MsgCanaryMapSet go option" where
  "MapSet_Unmarshal d m = unmarshal_loop MapSet_switch d 0 m"

record MsgCanaryMapReadAndWrite =
  rw_Sender :: string
  rw_Key :: string

definition MapReadAndWrite_MarshalToSizedBuffer ::
  "MsgCanaryMapReadAndWrite \<Rightarrow> bytes \<Rightarrow> (bytes \<times> int) go" where
  "MapReadAndWrite_MarshalToSizedBuffer m d =
     go_bind (put_bytes_field 0x12 (bytes_of_string (rw_Key m)) d (int (length d))) (\<lambda>(d, i).
     go_bind (put_bytes_field 0x0a (bytes_of_string (rw_Sender m)) d i) (\<lambda>(d, i).
     Ok (d, int (length d) - i)))"

definition MapReadAndWrite_Size :: "MsgCanaryMapReadAndWrite \<Rightarrow> nat" where
  "MapReadAndWrite_Size m = bytes_field_size (bytes_of_string (rw_Sender m))
     + bytes_field_size (bytes_of_string (rw_Key m))"

definition MapReadAndWrite_Marshal :: "MsgCanaryMapReadAndWrite \<Rightarrow> bytes go" where
  "MapReadAndWrite_Marshal = marshal_with MapReadAndWrite_Size MapReadAndWrite_MarshalToSizedBuffer"

definition MapReadAndWrite_switch :: "MsgCanaryMapReadAndWrite field_switch" where
  "MapReadAndWrite_switch m d i fieldNum wireType =
     (if fieldNum = 1 then
        go_bind (read_string_field ''sender'' d i wireType) (\<lambda>(s, i). Ok (m\<lparr>rw_Sender := s\<rparr>, i))
      else if fieldNum = 2 then
        go_bind (read_string_field ''key'' d i wireType) (\<lambda>(s, i). Ok (m\<lparr>rw_Key := s\<rparr>, i))
      else skip_unknown m d i wireType)"

definition MapReadAndWrite_Unmarshal ::
  "bytes \<Rightarrow> MsgCanaryMapReadAndWrite \<Rightarrow> MsgCanaryMapReadAndWrite go option" where
  "MapReadAndWrite_Unmarshal d m = unmarshal_loop MapReadAndWrite_switch d 0 m"

record MsgCanaryMapReadAndWriteResponse =
  rr_ObservedValue :: u64

definition MapReadAndWriteResponse_MarshalToSizedBuffer ::
  "MsgCanaryMapReadAndWriteResponse \<Rightarrow> bytes \<Rightarrow> (bytes \<times> int) go" where
  "MapReadAndWriteResponse_MarshalToSizedBuffer m d =
     go_bind (put_varint_field 0x08 (rr_ObservedValue m) d (int (length d))) (\<lambda>(d, i).
     Ok (d, int (length d) - i))"

definition MapReadAndWriteResponse_Size :: "MsgCanaryMapReadAndWriteResponse \<Rightarrow> nat" where
  "MapReadAndWriteResponse_Size m = varint_field_size (rr_ObservedValue m)"

definition MapReadAndWriteResponse_Marshal :: "MsgCanaryMapReadAndWriteResponse \<Rightarrow> bytes go" where
  "MapReadAndWriteResponse_Marshal =
     marshal_with MapReadAndWriteResponse_Size MapReadAndWriteResponse_MarshalToSizedBuffer"

definition MapReadAndWriteResponse_switch :: "MsgCanaryMapReadAndWriteResponse field_switch" where
  "MapReadAndWriteResponse_switch m d i fieldNum wireType =
     (if fieldNum = 1 then
        go_bind (read_varint_field ''observed_value'' d i wireType)
          (\<lambda>(v, i). Ok (m\<lparr>rr_ObservedValue := v\<rparr>, i))
      else skip_unknown m d i wireType)"

definition MapReadAndWriteResponse_Unmarshal ::
  "bytes \<Rightarrow> MsgCanaryMapReadAndWriteResponse \<Rightarrow> MsgCanaryMapReadAndWriteResponse go option" where
  "MapReadAndWriteResponse_Unmarshal d m = unmarshal_loop MapReadAndWriteResponse_switch d 0 m"

record MsgCanaryBlockContextSet =
  bs_Sender :: string
  bs_Field :: string
  bs_Value :: string

definition BlockContextSet_MarshalToSizedBuffer ::
  "MsgCanaryBlockContextSet \<Rightarrow> bytes \<Rightarrow> (bytes \<times> int) go" where
  "BlockContextSet_MarshalToSizedBuffer m d =
     go_bind (put_bytes_field 0x1a (bytes_of_string (bs_Value m)) d (int (length d))) (\<lambda>(d, i).
     go_bind (put_bytes_field 0x12 (bytes_of_string (bs_Field m)) d i) (\<lambda>(d, i).
     go_bind (put_bytes_field 0x0a (bytes_of_string (bs_Sender m)) d i) (\<lambda>(d, i).
     Ok (d, int (length d) - i))))"

definition BlockContextSet_Size :: "MsgCanaryBlockContextSet \<Rightarrow> nat" where
  "BlockContextSet_Size m = bytes_field_size (bytes_of_string (bs_Sender m))
     + bytes_field_size (bytes_of_string (bs_Field m)) + bytes_field_size (bytes_of_string (bs_Value m))"

definition BlockContextSet_Marshal :: "MsgCanaryBlockContextSet \<Rightarrow> bytes go" where
  "BlockContextSet_Marshal = marshal_with BlockContextSet_Size BlockContextSet_MarshalToSizedBuffer"

definition BlockContextSet_switch :: "MsgCanaryBlockContextSet field_switch" where
  "BlockContextSet_switch m d i fieldNum wireType =
     (if fieldNum = 1 then
        go_bind (read_string_field ''sender'' d i wireType) (\<lambda>(s, i). Ok (m\<lparr>bs_Sender := s\<rparr>, i))
      else if fieldNum = 2 then
        go_bind (read_string_field ''field'' d i wireType) (\<lambda>(s, i). Ok (m\<lparr>bs_Field := s\<rparr>, i))
      else if fieldNum = 3 then
        go_bind (read_string_field ''value'' d i wireType) (\<lambda>(s, i). Ok (m\<lparr>bs_Value := s\<rparr>, i))
      else skip_unknown m d i wireType)"

definition BlockContextSet_Unmarshal ::
  "bytes \<Rightarrow> MsgCanaryBlockContextSet \<Rightarrow> MsgCanaryBlockContextSet go option" where
  "BlockContextSet_Unmarshal d m = unmarshal_loop BlockContextSet_switch d 0 m"

record MsgCanaryBlockContextRead =
  br_Sender :: string
  br_Field :: string

definition BlockContextRead_MarshalToSizedBuffer ::
  "MsgCanaryBlockContextRead \<Rightarrow> bytes \<Rightarrow> (bytes \<times> int) go" where
  "BlockContextRead_MarshalToSizedBuffer m d =
     go_bind (put_bytes_field 0x12 (bytes_of_string (br_Field m)) d (int (length d))) (\<lambda>(d, i).
     go_bind (put_bytes_field 0x0a (bytes_of_string (br_Sender m)) d i) (\<lambda>(d, i).
     Ok (d, int (length d) - i)))"

definition BlockContextRead_Size :: "MsgCanaryBlockContextRead \<Rightarrow> nat" where
  "BlockContextRead_Size m = bytes_field_size (bytes_of_string (br_Sender m))
     + bytes_field_size (bytes_of_string (br_Field m))"

definition BlockContextRead_Marshal :: "MsgCanaryBlockContextRead \<Rightarrow> bytes go" where
  "BlockContextRead_Marshal = marshal_with BlockContextRead_Size BlockContextRead_MarshalToSizedBuffer"

definition BlockContextRead_switch :: "MsgCanaryBlockContextRead field_switch" where
  "BlockContextRead_switch m d i fieldNum wireType =
     (if fieldNum = 1 then
        go_bind (read_string_field ''sender'' d i wireType) (\<lambda>(s, i). Ok (m\<lparr>br_Sender := s\<rparr>, i))
      else if fieldNum = 2 then
        go_bind (read_string_field ''field'' d i wireType) (\<lambda>(s, i). Ok (m\<lparr>br_Field := s\<rparr>, i))
      else skip_unknown m d i wireType)"

definition BlockContextRead_Unmarshal ::
  "bytes \<Rightarrow> MsgCanaryBlockContextRead \<Rightarrow> MsgCanaryBlockContextRead go option" where
  "BlockContextRead_Unmarshal d m = unmarshal_loop BlockContextRead_switch d 0 m"

record MsgCanaryBlockContextReadResponse =
  rs_Value :: string

definition BlockContextReadResponse_MarshalToSizedBuffer ::
  "MsgCanaryBlockContextReadResponse \<Rightarrow> bytes \<Rightarrow> (bytes \<times> int) go" where
  "BlockContextReadResponse_MarshalToSizedBuffer m d =
     go_bind (put_bytes_field 0x0a (bytes_of_string (rs_Value m)) d (int (length d))) (\<lambda>(d, i).
     Ok (d, int (length d) - i))"

definition BlockContextReadResponse_Size :: "MsgCanaryBlockContextReadResponse \<Rightarrow> nat" where
  "BlockContextReadResponse_Size m = bytes_field_size (bytes_of_string (rs_Value m))"

definition BlockContextReadResponse_Marshal :: "MsgCanaryBlockContextReadResponse \<Rightarrow> bytes go" where
  "BlockContextReadResponse_Marshal =
     marshal_with BlockContextReadResponse_Size BlockContextReadResponse_MarshalToSizedBuffer"

definition BlockContextReadResponse_switch :: "MsgCanaryBlockContextReadResponse field_switch" where
  "BlockContextReadResponse_switch m d i fieldNum wireType =
     (if fieldNum = 1 then
        go_bind (read_string_field ''value'' d i wireType) (\<lambda>(s, i). Ok (m\<lparr>rs_Value := s\<rparr>, i))
      else skip_unknown m d i wireType)"

definition BlockContextReadResponse_Unmarshal ::
  "bytes \<Rightarrow> MsgCanaryBlockContextReadResponse \<Rightarrow> MsgCanaryBlockContextReadResponse go option" where
  "BlockContextReadResponse_Unmarshal d m = unmarshal_loop BlockContextReadResponse_switch d 0 m"

section \<open>The marshallers meet their contract\<close>

definition MapSet_image :: "MsgCanaryMapSet \<Rightarrow> bytes" where
  "MapSet_image m = bytes_field_image 0x0a (bytes_of_string (ms_Sender m))
     @ bytes_field_image 0x12 (bytes_of_string (ms_Key m)) @ varint_field_image 0x18 (ms_Value m)"

definition MapReadAndWrite_image :: "MsgCanaryMapReadAndWrite \<Rightarrow> bytes" where
  "MapReadAndWrite_image m = bytes_field_image 0x0a (bytes_of_string (rw_Sender m))
     @ bytes_field_image 0x12 (bytes_of_string (rw_Key m))"

definition MapReadAndWriteResponse_image :: "MsgCanaryMapReadAndWriteResponse \<Rightarrow> bytes" where
  "MapReadAndWriteResponse_image m = varint_field_image 0x08 (rr_ObservedValue m)"

definition BlockContextSet_image :: "MsgCanaryBlockContextSet \<Rightarrow> bytes" where
  "BlockContextSet_image m = bytes_field_image 0x0a (bytes_of_string (bs_Sender m))
     @ bytes_field_image 0x12 (bytes_of_string (bs_Field m))
     @ bytes_field_image 0x1a (bytes_of_string (bs_Value m))"

definition BlockContextRead_image :: "MsgCanaryBlockContextRead \<Rightarrow> bytes" where
  "BlockContextRead_image m = bytes_field_image 0x0a (bytes_of_string (br_Sender m))
     @ bytes_field_image 0x12 (bytes_of_string (br_Field m))"

definition BlockContextReadResponse_image :: "MsgCanaryBlockContextReadResponse \<Rightarrow> bytes" where
  "BlockContextReadResponse_image m = bytes_field_image 0x0a (bytes_of_string (rs_Value m))"

lemma length_field_images:
  "length (bytes_field_image tag s) = bytes_field_size s"
  "length (varint_field_image tag v) = varint_field_size v"
  by (simp_all add: bytes_field_image_def bytes_field_size_def varint_field_image_def
      varint_field_size_def sovLen_eq_length)

lemma mtsb_1:
  assumes "writes w bs" "length bs \<le> length d"
  shows "go_bind (w d (int (length d))) (\<lambda>(d, i). Ok (d, int (length d) - i)) =
    Ok (take (length d - length bs) d @ bs, int (length bs))"
  using writesD [OF assms, of "[]"] assms(2) by (simp add: go_simps)

lemma mtsb_2:
  assumes "writes w1 b1" "writes w2 b2" "length (b2 @ b1) \<le> length d"
  shows "go_bind (w1 d (int (length d))) (\<lambda>(d, i). go_bind (w2 d i)
      (\<lambda>(d, i). Ok (d, int (length d) - i))) =
    Ok (take (length d - length (b2 @ b1)) d @ b2 @ b1, int (length (b2 @ b1)))"
  using mtsb_1 [OF writes_seq [OF assms(1,2)] assms(3)]
  by (simp add: go_bind_assoc case_prod_unfold del: length_append)

lemma mtsb_3:
  assumes "writes w1 b1" "writes w2 b2" "writes w3 b3" "length (b3 @ b2 @ b1) \<le> length d"
  shows "go_bind (w1 d (int (length d))) (\<lambda>(d, i). go_bind (w2 d i)
      (\<lambda>(d, i). go_bind (w3 d i) (\<lambda>(d, i). Ok (d, int (length d) - i)))) =
    Ok (take (length d - length (b3 @ b2 @ b1)) d @ b3 @ b2 @ b1, int (length (b3 @ b2 @ b1)))"
  using mtsb_1 [OF writes_seq [OF writes_seq [OF assms(1,2)] assms(3)]] assms(4)
  by (simp add: go_bind_assoc case_prod_unfold del: length_append)

lemmas field_writers = writes_bytes_field writes_varint_field

interpretation map_set_msg: wire_message MapSet_MarshalToSizedBuffer MapSet_Size MapSet_image
  by unfold_locales
    (auto simp: MapSet_MarshalToSizedBuffer_def MapSet_image_def MapSet_Size_def length_field_images
      intro!: trans [OF mtsb_3 [OF field_writers(2) field_writers(1) field_writers(1)]])

interpretation map_rw_msg: wire_message MapReadAndWrite_MarshalToSizedBuffer MapReadAndWrite_Size
  MapReadAndWrite_image
  by unfold_locales
    (auto simp: MapReadAndWrite_MarshalToSizedBuffer_def MapReadAndWrite_image_def
      MapReadAndWrite_Size_def length_field_images
      intro!: trans [OF mtsb_2 [OF field_writers(1) field_writers(1)]])

interpretation map_rw_response_msg: wire_message MapReadAndWriteResponse_MarshalToSizedBuffer
  MapReadAndWriteResponse_Size MapReadAndWriteResponse_image
  by unfold_locales
    (auto simp: MapReadAndWriteResponse_MarshalToSizedBuffer_def MapReadAndWriteResponse_image_def
      MapReadAndWriteResponse_Size_def length_field_images
      intro!: trans [OF mtsb_1 [OF field_writers(2)]])

interpretation ctx_set_msg: wire_message BlockContextSet_MarshalToSizedBuffer BlockContextSet_Size
  BlockContextSet_image
  by unfold_locales
    (auto simp: BlockContextSet_MarshalToSizedBuffer_def BlockContextSet_image_def
      BlockContextSet_Size_def length_field_images
      intro!: trans [OF mtsb_3 [OF field_writers(1) field_writers(1) field_writers(1)]])

interpretation ctx_read_msg: wire_message BlockContextRead_MarshalToSizedBuffer BlockContextRead_Size
  BlockContextRead_image
  by unfold_locales
    (auto simp: BlockContextRead_MarshalToSizedBuffer_def BlockContextRead_image_def
      BlockContextRead_Size_def length_field_images
      intro!: trans [OF mtsb_2 [OF field_writers(1) field_writers(1)]])

interpretation ctx_read_response_msg: wire_message BlockContextReadResponse_MarshalToSizedBuffer
  BlockContextReadResponse_Size BlockContextReadResponse_image
  by unfold_locales
    (auto simp: BlockContextReadResponse_MarshalToSizedBuffer_def BlockContextReadResponse_image_def
      BlockContextReadResponse_Size_def length_field_images
      intro!: trans [OF mtsb_1 [OF field_writers(1)]])

section \<open>Reading back what was written\<close>

lemma decodeTag_known:
  "decodeTag (0x0a # R) = (1, 2, 1)" "decodeTag (0x12 # R) = (2, 2, 1)"
  "decodeTag (0x1a # R) = (3, 2, 1)" "decodeTag (0x18 # R) = (3, 0, 1)"
  "decodeTag (0x08 # R) = (1, 0, 1)"
  by (simp_all add: decodeTag_def uvarint_def)

lemma slice_from_append: "slice_from (A @ B) (int (length A)) = Ok B"
  by (simp add: slice_from_def)

lemma slice_append:
  "lo = int (length A) \<Longrightarrow> hi = lo + int (length s) \<Longrightarrow> slice (A @ s @ R) lo hi = Ok s"
  by (simp add: slice_def)

lemma unmarshal_end [simp]: "unmarshal_loop sw d (int (length d)) m = Some (Ok m)"
  by (simp add: unmarshal_loop.simps)

lemma unmarshal_step:
  assumes "decodeTag (tag # R) = (f, w, 1)" "sw m (A @ tag # R) (int (length A) + 1) f w = Ok (m', i')"
  shows "unmarshal_loop sw (A @ tag # R) (int (length A)) m = unmarshal_loop sw (A @ tag # R) i' m'"
  using assms by (subst unmarshal_loop.simps) (simp add: slice_from_append)

lemma unmarshal_step_fail:
  assumes "decodeTag (tag # R) = (f, w, 1)" "sw m (A @ tag # R) (int (length A) + 1) f w = Err e"
  shows "unmarshal_loop sw (A @ tag # R) (int (length A)) m = Some (Err e)"
  using assms by (subst unmarshal_loop.simps) (simp add: slice_from_append)

lemma small_length_byte:
  assumes "length s < 128"
  shows "put_uvarint (word_of_nat (length s)) = [ucast (word_of_nat (length s) :: u64)]"
    "uvarint (ucast (word_of_nat (length s) :: u64) # R) = (word_of_nat (length s), 1)"
    "sint (word_of_nat (length s) :: u64) = int (length s)"
proof -
  have u: "unat (word_of_nat (length s) :: u64) = length s" using assms by (simp add: unat_of_nat)
  then have small: "(word_of_nat (length s) :: u64) < 0x80" using assms by (simp add: word_less_nat_alt)
  then show "put_uvarint (word_of_nat (length s)) = [ucast (word_of_nat (length s) :: u64)]"
    by (rule put_uvarint_small)
  then show "uvarint (ucast (word_of_nat (length s) :: u64) # R) = (word_of_nat (length s), 1)"
    using uvarint_put [of "word_of_nat (length s)" R] by (simp add: sovLen_eq_length)
  show "sint (word_of_nat (length s) :: u64) = int (length s)"
    using assms wrap64_id [of "int (length s)"] by (simp add: wrap64_def int64_range_def)
qed

lemma read_string_field_at:
  assumes "length s < 128" "int (length (A @ ucast (word_of_nat (length s) :: u64) # s @ R)) < 2 ^ 63"
  shows "read_string_field name (A @ ucast (word_of_nat (length s) :: u64) # s @ R) (int (length A)) 2 =
    Ok (string_of_bytes s, int (length A) + 1 + int (length s))"
proof -
  let ?d = "A @ ucast (word_of_nat (length s) :: u64) # s @ R"
  let ?hi = "int (length A) + 1 + int (length s)"
  have "wrap64 ?hi = ?hi"
    using assms(2) by (intro wrap64_id) (simp add: int64_range_def)
  moreover have "slice ?d (int (length A) + 1) ?hi = Ok s"
    using slice_append [of "int (length A) + 1" "A @ [ucast (word_of_nat (length s) :: u64)]" ?hi s R]
    by simp
  ultimately show ?thesis
    by (simp add: read_string_field_def slice_from_append small_length_byte(2,3) [OF assms(1)] Let_def
        go_simps)
qed

text \<open>Field \<open>f\<close> of a message is a string, or a varint, that its switch stores with \<open>upd\<close>.\<close>

definition string_case :: "'m field_switch \<Rightarrow> int \<Rightarrow> string \<Rightarrow> (string \<Rightarrow> 'm \<Rightarrow> 'm) \<Rightarrow> bool" where
  "string_case sw f name upd \<longleftrightarrow> (\<forall>m d i wt. sw m d i f wt =
     go_bind (read_string_field name d i wt) (\<lambda>(s, i). Ok (upd s m, i)))"

definition varint_case :: "'m field_switch \<Rightarrow> int \<Rightarrow> string \<Rightarrow> (u64 \<Rightarrow> 'm \<Rightarrow> 'm) \<Rightarrow> bool" where
  "varint_case sw f name upd \<longleftrightarrow> (\<forall>m d i wt. sw m d i f wt =
     go_bind (read_varint_field name d i wt) (\<lambda>(v, i). Ok (upd v m, i)))"

definition string_tag :: "byte \<Rightarrow> int \<Rightarrow> bool" where
  "string_tag tag f \<longleftrightarrow> (\<forall>R. decodeTag (tag # R) = (f, 2, 1))"

definition varint_tag :: "byte \<Rightarrow> int \<Rightarrow> bool" where
  "varint_tag tag f \<longleftrightarrow> (\<forall>R. decodeTag (tag # R) = (f, 0, 1))"

definition short :: "string \<Rightarrow> bool" where
  "short s \<longleftrightarrow> length s < 128"

lemma unmarshal_string_field:
  assumes sw: "string_case sw f name upd" and tag: "string_tag tag f"
    and s: "short s" and d: "d = A @ bytes_field_image tag (bytes_of_string s) @ R"
    "int (length d) < 2 ^ 63"
  shows "unmarshal_loop sw d (int (length A)) m = unmarshal_loop sw d
    (int (length (A @ bytes_field_image tag (bytes_of_string s)))) (if s = [] then m else upd s m)"
proof (cases "s = []")
  case True
  then show ?thesis by (simp add: bytes_field_image_def)
next
  case False
  let ?n = "ucast (word_of_nat (length (bytes_of_string s)) :: u64) :: byte"
  have len: "length (bytes_of_string s) < 128" using s by (simp add: short_def)
  have im: "bytes_field_image tag (bytes_of_string s) = tag # ?n # bytes_of_string s"
    using False small_length_byte(1) [OF len] by (simp add: bytes_field_image_def)
  have d': "d = A @ tag # ?n # bytes_of_string s @ R" by (simp add: d(1) im)
  have "read_string_field name d (int (length A) + 1) 2 = Ok (s, int (length A) + 2 + int (length s))"
    using read_string_field_at [OF len, of "A @ [tag]" R name] d(2) by (simp add: d' ac_simps)
  then have "sw m d (int (length A) + 1) f 2 = Ok (upd s m, int (length A) + 2 + int (length s))"
    using sw by (simp add: string_case_def go_simps)
  with unmarshal_step [of tag _ f 2 sw m A] tag
  have "unmarshal_loop sw d (int (length A)) m =
      unmarshal_loop sw d (int (length A) + 2 + int (length s)) (upd s m)"
    unfolding d' string_tag_def by blast
  then show ?thesis using False by (simp add: im ac_simps)
qed

lemma read_varint_at:
  assumes "uvarint (b # R) = (v, 1)"
  shows "read_varint_field name (A @ tag # b # R) (int (length A) + 1) 0 = Ok (v, int (length A) + 2)"
  using slice_from_append [of "A @ [tag]" "b # R"] assms
  by (simp add: read_varint_field_def go_simps ac_simps)

lemma unmarshal_varint_one_byte:
  assumes sw: "varint_case sw f name upd" and tag: "varint_tag tag f"
    and b: "uvarint (b # R) = (v, 1)"
  shows "unmarshal_loop sw (A @ tag # b # R) (int (length A)) m =
    unmarshal_loop sw (A @ tag # b # R) (int (length A) + 2) (upd v m)"
proof -
  have "sw m (A @ tag # b # R) (int (length A) + 1) f 0 = Ok (upd v m, int (length A) + 2)"
    using sw read_varint_at [OF b, of name A tag] by (simp add: varint_case_def go_simps)
  with unmarshal_step [of tag "b # R" f 0 sw m A] tag show ?thesis
    unfolding varint_tag_def by blast
qed

lemma unmarshal_varint_field:
  assumes sw: "varint_case sw f name upd" and tag: "varint_tag tag f"
    and v: "v < 0x80" and d: "d = A @ varint_field_image tag v @ R"
  shows "unmarshal_loop sw d (int (length A)) m = unmarshal_loop sw d
    (int (length (A @ varint_field_image tag v))) (if v = 0 then m else upd v m)"
proof (cases "v = 0")
  case True
  then show ?thesis by (simp add: varint_field_image_def)
next
  case False
  have im: "varint_field_image tag v = [tag, ucast v]"
    using False v by (simp add: varint_field_image_def put_uvarint_small)
  have "uvarint (ucast v # R) = (v, 1)"
    using uvarint_put [of v R] v by (simp add: put_uvarint_small sovLen_eq_length)
  from unmarshal_varint_one_byte [OF sw tag this, of A m] False show ?thesis
    by (simp add: d im ac_simps)
qed

text \<open>A value of two groups or more was written most significant group first: the reader stops at
  that group and the bytes that follow are no tag.\<close>

lemma unmarshal_varint_field_big:
  assumes sw: "varint_case sw f name upd" and tag: "varint_tag tag f"
    and v: "\<not> v < 0x80" and d: "d = A @ varint_field_image tag v"
  shows "unmarshal_loop sw d (int (length A)) m = Some (Err ErrUnexpectedEOF)"
proof -
  obtain cs l where put: "put_uvarint v = cs @ [l]" "cs \<noteq> []" "\<forall>b \<in> set cs. \<not> b < 0x80" "l < 0x80"
    using v by (rule put_uvarint_big)
  have "v \<noteq> 0" using v by auto
  then have d': "d = A @ tag # l # rev cs"
    by (simp add: d varint_field_image_def put)
  have "unmarshal_loop sw d (int (length A)) m =
      unmarshal_loop sw d (int (length A) + 2) (upd (ucast l) m)"
    unfolding d' by (rule unmarshal_varint_one_byte [OF sw tag uvarint_single [OF put(4)]])
  also have "\<dots> = Some (Err ErrUnexpectedEOF)"
  proof -
    have "slice_from d (int (length A) + 2) = Ok (rev cs)"
      using slice_from_append [of "A @ [tag, l]" "rev cs"] by (simp add: d' ac_simps)
    moreover have "int (length A) + 2 < int (length d)" using put(2) by (simp add: d')
    ultimately show ?thesis using put(3) by (subst unmarshal_loop.simps) (simp add: decodeTag_cont)
  qed
  finally show ?thesis .
qed

named_theorems msg_cases \<open>the fields of each message's switch\<close>

lemma tags [msg_cases]:
  "string_tag 0x0a 1" "string_tag 0x12 2" "string_tag 0x1a 3" "varint_tag 0x18 3" "varint_tag 0x08 1"
  by (simp_all add: string_tag_def varint_tag_def decodeTag_known)

lemma switch_cases [msg_cases]:
  "string_case MapSet_switch 1 ''sender'' (\<lambda>s m. m\<lparr>ms_Sender := s\<rparr>)"
  "string_case MapSet_switch 2 ''key'' (\<lambda>s m. m\<lparr>ms_Key := s\<rparr>)"
  "varint_case MapSet_switch 3 ''value'' (\<lambda>v m. m\<lparr>ms_Value := v\<rparr>)"
  "string_case MapReadAndWrite_switch 1 ''sender'' (\<lambda>s m. m\<lparr>rw_Sender := s\<rparr>)"
  "string_case MapReadAndWrite_switch 2 ''key'' (\<lambda>s m. m\<lparr>rw_Key := s\<rparr>)"
  "varint_case MapReadAndWriteResponse_switch 1 ''observed_value'' (\<lambda>v m. m\<lparr>rr_ObservedValue := v\<rparr>)"
  "string_case BlockContextSet_switch 1 ''sender'' (\<lambda>s m. m\<lparr>bs_Sender := s\<rparr>)"
  "string_case BlockContextSet_switch 2 ''field'' (\<lambda>s m. m\<lparr>bs_Field := s\<rparr>)"
  "string_case BlockContextSet_switch 3 ''value'' (\<lambda>s m. m\<lparr>bs_Value := s\<rparr>)"
  "string_case BlockContextRead_switch 1 ''sender'' (\<lambda>s m. m\<lparr>br_Sender := s\<rparr>)"
  "string_case BlockContextRead_switch 2 ''field'' (\<lambda>s m. m\<lparr>br_Field := s\<rparr>)"
  "string_case BlockContextReadResponse_switch 1 ''value'' (\<lambda>s m. m\<lparr>rs_Value := s\<rparr>)"
  by (simp_all add: string_case_def varint_case_def MapSet_switch_def MapReadAndWrite_switch_def
      MapReadAndWriteResponse_switch_def BlockContextSet_switch_def BlockContextRead_switch_def
      BlockContextReadResponse_switch_def)

lemma size_short: "short s \<Longrightarrow> bytes_field_size (bytes_of_string s) \<le> 130"
  using small_length_byte(1) [of "bytes_of_string s"]
  by (simp add: short_def bytes_field_size_def sovLen_eq_length)

text \<open>Two string fields in a row, the start of every request message.\<close>

lemma unmarshal_two_strings:
  assumes "string_case sw f1 n1 u1" "string_tag t1 f1" "string_case sw f2 n2 u2" "string_tag t2 f2"
    and s: "short s1" "short s2" and R: "int (length R) < 2 ^ 62"
    and d: "d = bytes_field_image t1 (bytes_of_string s1) @ bytes_field_image t2 (bytes_of_string s2) @ R"
  shows "unmarshal_loop sw d 0 m = unmarshal_loop sw d (int (length (bytes_field_image t1 (bytes_of_string s1)
      @ bytes_field_image t2 (bytes_of_string s2))))
    (if s2 = [] then (if s1 = [] then m else u1 s1 m) else u2 s2 (if s1 = [] then m else u1 s1 m))"
proof -
  have len: "int (length d) < 2 ^ 63"
    using size_short [OF s(1)] size_short [OF s(2)] R by (simp add: d length_field_images)
  show ?thesis
    using unmarshal_string_field [OF assms(1,2) s(1), of d "[]"]
      unmarshal_string_field [OF assms(3,4) s(2), of d "bytes_field_image t1 (bytes_of_string s1)" R] len d
    by simp
qed


section \<open>Codecs\<close>

text \<open>
  A decoder for a \<open>wire_message\<close>: on messages with \<open>wf\<close> it reads the image back into any
  message, overwriting the fields that were written (\<open>merge\<close>); the zero message is overwritten entirely.
\<close>

locale wire_codec = wire_message +
  fixes unmarshal :: "bytes \<Rightarrow> 'a \<Rightarrow> 'a go option"
    and wf :: "'a \<Rightarrow> bool"
    and merge :: "'a \<Rightarrow> 'a \<Rightarrow> 'a"
    and zero :: "'a"
  assumes decode: "wf m \<Longrightarrow> unmarshal (image m) m0 = Some (Ok (merge m0 m))"
    and merge_zero: "merge zero m = m"
begin

lemma roundtrip: "wf m \<Longrightarrow> \<exists>d. marshal_with size_of mtsb m = Ok d \<and> unmarshal d zero = Some (Ok m)"
  by (simp add: marshal_ok decode merge_zero)

lemma decode_into:
  "wf m \<Longrightarrow> marshal_with size_of mtsb m = Ok d \<Longrightarrow> unmarshal d m0 = Some (Ok (merge m0 m))"
  by (auto simp: marshal_ok decode)

lemma marshal_inj:
  assumes "wf m" "wf m'" "marshal_with size_of mtsb m = marshal_with size_of mtsb m'"
  shows "m = m'"
proof -
  have "Ok (image m) = Ok (image m')" using assms(3) unfolding marshal_ok .
  then have "unmarshal (image m) zero = unmarshal (image m') zero" by simp
  then show ?thesis unfolding decode [OF assms(1)] decode [OF assms(2)] merge_zero by simp
qed

end

definition or_old :: "'a \<Rightarrow> 'a \<Rightarrow> 'a \<Rightarrow> 'a" where
  "or_old zero old new = (if new = zero then old else new)"

definition MapSet_wf :: "MsgCanaryMapSet \<Rightarrow> bool" where
  "MapSet_wf m \<longleftrightarrow> short (ms_Sender m) \<and> short (ms_Key m) \<and> ms_Value m < 0x80"

definition MapSet_merge :: "MsgCanaryMapSet \<Rightarrow> MsgCanaryMapSet \<Rightarrow> MsgCanaryMapSet" where
  "MapSet_merge m0 m = \<lparr>ms_Sender = or_old [] (ms_Sender m0) (ms_Sender m),
     ms_Key = or_old [] (ms_Key m0) (ms_Key m), ms_Value = or_old 0 (ms_Value m0) (ms_Value m)\<rparr>"

definition MapSet_zero :: MsgCanaryMapSet where
  "MapSet_zero = \<lparr>ms_Sender = [], ms_Key = [], ms_Value = 0\<rparr>"

lemma sovLen_bound: "unat v < 2 ^ (7 * k) \<Longrightarrow> 1 \<le> k \<Longrightarrow> sovLen v \<le> k"
proof (induction v arbitrary: k rule: sovLen.induct)
  case (1 v)
  show ?case
  proof (cases "drop_bit 7 v = 0")
    case True
    then show ?thesis using 1(3) by (subst sovLen.simps) simp
  next
    case False
    then have "\<not> v < 0x80" by (simp add: drop7_eq_0_iff)
    then have v: "128 \<le> unat v" by (simp add: word_less_nat_alt)
    have k: "2 \<le> k"
    proof (rule ccontr)
      assume "\<not> 2 \<le> k"
      with 1(3) have "k = 1" by simp
      with 1(2) v show False by simp
    qed
    have "(2 :: nat) ^ (7 * k) = 2 ^ 7 * 2 ^ (7 * (k - 1))"
    proof -
      have "7 * k = 7 + 7 * (k - 1)" using k by simp
      then show ?thesis by (simp only: power_add)
    qed
    with 1(2) have "unat (drop_bit 7 v) < 2 ^ (7 * (k - 1))"
      unfolding unat_drop_bit_div by (simp add: less_mult_imp_div_less mult.commute)
    with 1(1) [OF refl False, of "k - 1"] k have "sovLen (drop_bit 7 v) \<le> k - 1" by simp
    with False k show ?thesis by (subst sovLen.simps) (simp add: Let_def)
  qed
qed

lemma sovLen_le_10: "sovLen v \<le> 10"
proof (rule sovLen_bound)
  have "unat v < 2 ^ LENGTH(64)" by (rule unsigned_less)
  then show "unat v < 2 ^ (7 * 10)" by simp
qed simp

lemma size_varint_le: "varint_field_size v \<le> 11"
  using sovLen_le_10 [of v] by (simp add: varint_field_size_def)

lemma MapSet_strings:
  assumes "short (ms_Sender m)" "short (ms_Key m)"
  shows "MapSet_Unmarshal (MapSet_image m) m0 = unmarshal_loop MapSet_switch (MapSet_image m)
    (int (length (bytes_field_image 0x0a (bytes_of_string (ms_Sender m))
       @ bytes_field_image 0x12 (bytes_of_string (ms_Key m)))))
    (MapSet_merge m0 (m\<lparr>ms_Value := 0\<rparr>))"
proof -
  have R: "int (length (varint_field_image 0x18 (ms_Value m))) < 2 ^ 62"
    using size_varint_le [of "ms_Value m"] by (simp add: length_field_images)
  show ?thesis
    using unmarshal_two_strings [OF switch_cases(1) tags(1) switch_cases(2) tags(2) assms R MapSet_image_def, of m0]
    by (cases m, cases m0) (auto simp: MapSet_Unmarshal_def MapSet_merge_def or_old_def)
qed

lemma MapSet_decode: "MapSet_wf m \<Longrightarrow> MapSet_Unmarshal (MapSet_image m) m0 = Some (Ok (MapSet_merge m0 m))"
  using MapSet_strings [of m m0]
    unmarshal_varint_field [OF switch_cases(3) tags(4), of "ms_Value m" "MapSet_image m"
      "bytes_field_image 0x0a (bytes_of_string (ms_Sender m)) @ bytes_field_image 0x12 (bytes_of_string (ms_Key m))"
      "[]" "MapSet_merge m0 (m\<lparr>ms_Value := 0\<rparr>)"]
    unmarshal_end [of MapSet_switch "MapSet_image m"]
  by (simp add: MapSet_wf_def MapSet_image_def MapSet_merge_def or_old_def split: if_splits)

lemma MapSet_decode_big:
  assumes "short (ms_Sender m)" "short (ms_Key m)" "\<not> ms_Value m < 0x80"
  shows "MapSet_Unmarshal (MapSet_image m) m0 = Some (Err ErrUnexpectedEOF)"
  using MapSet_strings [OF assms(1,2), of m0]
    unmarshal_varint_field_big [OF switch_cases(3) tags(4) assms(3), of "MapSet_image m"
      "bytes_field_image 0x0a (bytes_of_string (ms_Sender m)) @ bytes_field_image 0x12 (bytes_of_string (ms_Key m))"]
  by (simp add: MapSet_image_def)

interpretation map_set_codec: wire_codec MapSet_MarshalToSizedBuffer MapSet_Size MapSet_image
  MapSet_Unmarshal MapSet_wf MapSet_merge MapSet_zero
  by unfold_locales (simp_all add: MapSet_decode MapSet_merge_def MapSet_zero_def or_old_def)

definition MapReadAndWrite_wf :: "MsgCanaryMapReadAndWrite \<Rightarrow> bool" where
  "MapReadAndWrite_wf m \<longleftrightarrow> short (rw_Sender m) \<and> short (rw_Key m)"

definition MapReadAndWrite_merge ::
  "MsgCanaryMapReadAndWrite \<Rightarrow> MsgCanaryMapReadAndWrite \<Rightarrow> MsgCanaryMapReadAndWrite" where
  "MapReadAndWrite_merge m0 m = \<lparr>rw_Sender = or_old [] (rw_Sender m0) (rw_Sender m),
     rw_Key = or_old [] (rw_Key m0) (rw_Key m)\<rparr>"

definition MapReadAndWrite_zero :: MsgCanaryMapReadAndWrite where
  "MapReadAndWrite_zero = \<lparr>rw_Sender = [], rw_Key = []\<rparr>"

lemma MapReadAndWrite_decode:
  "MapReadAndWrite_wf m \<Longrightarrow>
   MapReadAndWrite_Unmarshal (MapReadAndWrite_image m) m0 = Some (Ok (MapReadAndWrite_merge m0 m))"
  using unmarshal_two_strings [OF switch_cases(4) tags(1) switch_cases(5) tags(2),
      of "rw_Sender m" "rw_Key m" "[]" "MapReadAndWrite_image m" m0]
    unmarshal_end [of MapReadAndWrite_switch "MapReadAndWrite_image m"]
  by (cases m, cases m0) (auto simp: MapReadAndWrite_wf_def MapReadAndWrite_image_def
      MapReadAndWrite_Unmarshal_def MapReadAndWrite_merge_def or_old_def)

interpretation map_rw_codec: wire_codec MapReadAndWrite_MarshalToSizedBuffer MapReadAndWrite_Size
  MapReadAndWrite_image MapReadAndWrite_Unmarshal MapReadAndWrite_wf MapReadAndWrite_merge
  MapReadAndWrite_zero
  by unfold_locales
    (simp_all add: MapReadAndWrite_decode MapReadAndWrite_merge_def MapReadAndWrite_zero_def or_old_def)

definition MapReadAndWriteResponse_wf :: "MsgCanaryMapReadAndWriteResponse \<Rightarrow> bool" where
  "MapReadAndWriteResponse_wf m \<longleftrightarrow> rr_ObservedValue m < 0x80"

definition MapReadAndWriteResponse_merge :: "MsgCanaryMapReadAndWriteResponse \<Rightarrow>
    MsgCanaryMapReadAndWriteResponse \<Rightarrow> MsgCanaryMapReadAndWriteResponse" where
  "MapReadAndWriteResponse_merge m0 m =
     \<lparr>rr_ObservedValue = or_old 0 (rr_ObservedValue m0) (rr_ObservedValue m)\<rparr>"

definition MapReadAndWriteResponse_zero :: MsgCanaryMapReadAndWriteResponse where
  "MapReadAndWriteResponse_zero = \<lparr>rr_ObservedValue = 0\<rparr>"

lemma MapReadAndWriteResponse_decode:
  "MapReadAndWriteResponse_wf m \<Longrightarrow> MapReadAndWriteResponse_Unmarshal (MapReadAndWriteResponse_image m) m0 =
     Some (Ok (MapReadAndWriteResponse_merge m0 m))"
  using unmarshal_varint_field [OF switch_cases(6) tags(5), of "rr_ObservedValue m"
      "MapReadAndWriteResponse_image m" "[]" "[]" m0]
    unmarshal_end [of MapReadAndWriteResponse_switch "MapReadAndWriteResponse_image m"]
  by (cases m, cases m0) (auto simp: MapReadAndWriteResponse_wf_def MapReadAndWriteResponse_image_def
      MapReadAndWriteResponse_Unmarshal_def MapReadAndWriteResponse_merge_def or_old_def)

lemma MapReadAndWriteResponse_decode_big:
  "\<not> rr_ObservedValue m < 0x80 \<Longrightarrow>
   MapReadAndWriteResponse_Unmarshal (MapReadAndWriteResponse_image m) m0 = Some (Err ErrUnexpectedEOF)"
  using unmarshal_varint_field_big [OF switch_cases(6) tags(5), of "rr_ObservedValue m"
      "MapReadAndWriteResponse_image m" "[]" m0]
  by (simp add: MapReadAndWriteResponse_Unmarshal_def MapReadAndWriteResponse_image_def)

interpretation map_rw_response_codec: wire_codec MapReadAndWriteResponse_MarshalToSizedBuffer
  MapReadAndWriteResponse_Size MapReadAndWriteResponse_image MapReadAndWriteResponse_Unmarshal
  MapReadAndWriteResponse_wf MapReadAndWriteResponse_merge MapReadAndWriteResponse_zero
  by unfold_locales (simp_all add: MapReadAndWriteResponse_decode MapReadAndWriteResponse_merge_def
      MapReadAndWriteResponse_zero_def or_old_def)


definition BlockContextSet_wf :: "MsgCanaryBlockContextSet \<Rightarrow> bool" where
  "BlockContextSet_wf m \<longleftrightarrow> short (bs_Sender m) \<and> short (bs_Field m) \<and> short (bs_Value m)"

definition BlockContextSet_merge ::
  "MsgCanaryBlockContextSet \<Rightarrow> MsgCanaryBlockContextSet \<Rightarrow> MsgCanaryBlockContextSet" where
  "BlockContextSet_merge m0 m = \<lparr>bs_Sender = or_old [] (bs_Sender m0) (bs_Sender m),
     bs_Field = or_old [] (bs_Field m0) (bs_Field m), bs_Value = or_old [] (bs_Value m0) (bs_Value m)\<rparr>"

definition BlockContextSet_zero :: MsgCanaryBlockContextSet where
  "BlockContextSet_zero = \<lparr>bs_Sender = [], bs_Field = [], bs_Value = []\<rparr>"

lemma BlockContextSet_decode:
  assumes wf: "BlockContextSet_wf m"
  shows "BlockContextSet_Unmarshal (BlockContextSet_image m) m0 = Some (Ok (BlockContextSet_merge m0 m))"
proof -
  let ?A = "bytes_field_image 0x0a (bytes_of_string (bs_Sender m))
    @ bytes_field_image 0x12 (bytes_of_string (bs_Field m))"
  let ?C = "bytes_field_image 0x1a (bytes_of_string (bs_Value m))"
  have s: "short (bs_Sender m)" "short (bs_Field m)" "short (bs_Value m)"
    using wf by (simp_all add: BlockContextSet_wf_def)
  have R: "int (length ?C) < 2 ^ 62"
    and len: "int (length (BlockContextSet_image m)) < 2 ^ 63"
    using size_short [OF s(1)] size_short [OF s(2)] size_short [OF s(3)]
    by (simp_all add: length_field_images BlockContextSet_image_def)
  have im: "BlockContextSet_image m = ?A @ ?C @ []"
    by (simp add: BlockContextSet_image_def)
  have fin: "unmarshal_loop BlockContextSet_switch (BlockContextSet_image m) (int (length (?A @ ?C))) x = Some (Ok x)"
    for x using unmarshal_end [of BlockContextSet_switch "BlockContextSet_image m"] by (simp add: im)
  show ?thesis
    using unmarshal_two_strings [OF switch_cases(7) tags(1) switch_cases(8) tags(2) s(1,2) R
        BlockContextSet_image_def, of m0]
      unmarshal_string_field [OF switch_cases(9) tags(3) s(3) im len] fin
    by (cases m, cases m0) (simp add: BlockContextSet_Unmarshal_def BlockContextSet_merge_def or_old_def)
qed

interpretation ctx_set_codec: wire_codec BlockContextSet_MarshalToSizedBuffer BlockContextSet_Size
  BlockContextSet_image BlockContextSet_Unmarshal BlockContextSet_wf BlockContextSet_merge
  BlockContextSet_zero
  by unfold_locales
    (simp_all add: BlockContextSet_decode BlockContextSet_merge_def BlockContextSet_zero_def or_old_def)

definition BlockContextRead_wf :: "MsgCanaryBlockContextRead \<Rightarrow> bool" where
  "BlockContextRead_wf m \<longleftrightarrow> short (br_Sender m) \<and> short (br_Field m)"

definition BlockContextRead_merge ::
  "MsgCanaryBlockContextRead \<Rightarrow> MsgCanaryBlockContextRead \<Rightarrow> MsgCanaryBlockContextRead" where
  "BlockContextRead_merge m0 m = \<lparr>br_Sender = or_old [] (br_Sender m0) (br_Sender m),
     br_Field = or_old [] (br_Field m0) (br_Field m)\<rparr>"

definition BlockContextRead_zero :: MsgCanaryBlockContextRead where
  "BlockContextRead_zero = \<lparr>br_Sender = [], br_Field = []\<rparr>"

lemma BlockContextRead_decode:
  "BlockContextRead_wf m \<Longrightarrow>
   BlockContextRead_Unmarshal (BlockContextRead_image m) m0 = Some (Ok (BlockContextRead_merge m0 m))"
  using unmarshal_two_strings [OF switch_cases(10) tags(1) switch_cases(11) tags(2),
      of "br_Sender m" "br_Field m" "[]" "BlockContextRead_image m" m0]
    unmarshal_end [of BlockContextRead_switch "BlockContextRead_image m"]
  by (cases m, cases m0) (auto simp: BlockContextRead_wf_def BlockContextRead_image_def
      BlockContextRead_Unmarshal_def BlockContextRead_merge_def or_old_def)

interpretation ctx_read_codec: wire_codec BlockContextRead_MarshalToSizedBuffer BlockContextRead_Size
  BlockContextRead_image BlockContextRead_Unmarshal BlockContextRead_wf BlockContextRead_merge
  BlockContextRead_zero
  by unfold_locales
    (simp_all add: BlockContextRead_decode BlockContextRead_merge_def BlockContextRead_zero_def or_old_def)

definition BlockContextReadResponse_wf :: "MsgCanaryBlockContextReadResponse \<Rightarrow> bool" where
  "BlockContextReadResponse_wf m \<longleftrightarrow> short (rs_Value m)"

definition BlockContextReadResponse_merge :: "MsgCanaryBlockContextReadResponse \<Rightarrow>
    MsgCanaryBlockContextReadResponse \<Rightarrow> MsgCanaryBlockContextReadResponse" where
  "BlockContextReadResponse_merge m0 m = \<lparr>rs_Value = or_old [] (rs_Value m0) (rs_Value m)\<rparr>"

definition BlockContextReadResponse_zero :: MsgCanaryBlockContextReadResponse where
  "BlockContextReadResponse_zero = \<lparr>rs_Value = []\<rparr>"

lemma BlockContextReadResponse_decode:
  "BlockContextReadResponse_wf m \<Longrightarrow>
   BlockContextReadResponse_Unmarshal (BlockContextReadResponse_image m) m0 =
     Some (Ok (BlockContextReadResponse_merge m0 m))"
  using unmarshal_string_field [OF switch_cases(12) tags(1), of "rs_Value m"
      "BlockContextReadResponse_image m" "[]" "[]" m0] size_short [of "rs_Value m"]
    unmarshal_end [of BlockContextReadResponse_switch "BlockContextReadResponse_image m"]
  by (cases m, cases m0) (auto simp: BlockContextReadResponse_wf_def BlockContextReadResponse_image_def
      BlockContextReadResponse_Unmarshal_def BlockContextReadResponse_merge_def or_old_def
      length_field_images)

interpretation ctx_read_response_codec: wire_codec BlockContextReadResponse_MarshalToSizedBuffer
  BlockContextReadResponse_Size BlockContextReadResponse_image BlockContextReadResponse_Unmarshal
  BlockContextReadResponse_wf BlockContextReadResponse_merge BlockContextReadResponse_zero
  by unfold_locales (simp_all add: BlockContextReadResponse_decode BlockContextReadResponse_merge_def
      BlockContextReadResponse_zero_def or_old_def)

section \<open>Malformed input\<close>

text \<open>A tag, then a length of \<open>2 ^ 64 - 1\<close>, which is \<open>-1\<close> as an \<open>int\<close>; and an unknown field whose
  length \<open>2 ^ 64 - 11\<close> is \<open>-11\<close>: exactly the bytes read so far.\<close>

definition negative_length_input :: bytes where
  "negative_length_input = [0x0a, 0xff, 0xff, 0xff, 0xff, 0xff, 0xff, 0xff, 0xff, 0xff, 0x01]"

definition backwards_input :: bytes where
  "backwards_input = [0x22, 0xf5, 0xff, 0xff, 0xff, 0xff, 0xff, 0xff, 0xff, 0xff, 0x01]"

lemma over_long_lengths:
  "uvarint (tl negative_length_input) = (-1, 10)" "uvarint (tl backwards_input) = (-11, 10)"
  "decodeTag backwards_input = (4, 2, 1)"
  by code_simp+

lemma negative_length_panics:
  "\<exists>p. MapSet_Unmarshal negative_length_input m = Some (Panic p)"
proof -
  have "slice_from negative_length_input 1 = Ok (tl negative_length_input)"
    by (simp add: slice_from_def negative_length_input_def)
  moreover have "slice negative_length_input 11 10 = Panic ''slice bounds out of range''"
    by (simp add: slice_def)
  moreover have "negative_length_input = 0x0a # tl negative_length_input"
    by (simp add: negative_length_input_def)
  then have "decodeTag negative_length_input = (1, 2, 1)" by (metis decodeTag_known(1))
  ultimately show ?thesis
    by (simp add: MapSet_Unmarshal_def unmarshal_loop.simps [of _ _ 0] slice_from_def [of _ 0]
        MapSet_switch_def read_string_field_def over_long_lengths wrap64_def go_simps Let_def)
      (simp add: negative_length_input_def)
qed

lemma backwards_step: "MapSet_switch m backwards_input 1 4 2 = Ok (m, 0)"
proof -
  have "slice_from backwards_input 1 = Ok (tl backwards_input)"
    by (simp add: slice_from_def backwards_input_def)
  then show ?thesis
    by (simp add: MapSet_switch_def skip_unknown_def skipField_def over_long_lengths wrap64_def go_simps)
qed

lemma backwards_loops: "MapSet_Unmarshal backwards_input m = None"
proof -
  define P where "P = (\<lambda>(sw :: MsgCanaryMapSet field_switch) d (i :: int) (m :: MsgCanaryMapSet) (r :: MsgCanaryMapSet go).
    \<not> (sw = MapSet_switch \<and> d = backwards_input \<and> i = 0))"
  have "P MapSet_switch backwards_input 0 m r"
    if ret: "unmarshal_loop MapSet_switch backwards_input 0 m = Some r" for r
  proof (rule unmarshal_loop.raw_induct [where P = P, OF _ ret])
    fix f :: "MsgCanaryMapSet field_switch \<Rightarrow> bytes \<Rightarrow> int \<Rightarrow> MsgCanaryMapSet \<Rightarrow> MsgCanaryMapSet go option"
      and sw d i m r
    assume IH: "\<And>sw d i m r. f sw d i m = Some r \<Longrightarrow> P sw d i m r"
      and eq: "(if i < int (length d) then
        (case slice_from d i of
           Ok b \<Rightarrow> (case decodeTag b of (fieldNum, wireType, n) \<Rightarrow>
                if n < 0 then Some (Err ErrUnexpectedEOF)
                else (case sw m d (i + n) fieldNum wireType of
                        Ok (m', i') \<Rightarrow> f sw d i' m' | Err e \<Rightarrow> Some (Err e) | Panic p \<Rightarrow> Some (Panic p)))
         | Err e \<Rightarrow> Some (Err e) | Panic p \<Rightarrow> Some (Panic p))
      else Some (Ok m)) = Some r"
    show "P sw d i m r"
      unfolding P_def
    proof
      assume "sw = MapSet_switch \<and> d = backwards_input \<and> i = 0"
      with eq have "f MapSet_switch backwards_input 0 m = Some r"
        by (simp add: slice_from_def over_long_lengths backwards_step split: if_splits)
          (simp add: backwards_input_def)
      then show False using IH unfolding P_def by blast
    qed
  qed
  then show ?thesis by (cases "MapSet_Unmarshal backwards_input m") (auto simp: MapSet_Unmarshal_def P_def)
qed

section \<open>Calm input\<close>

text \<open>A buffer none of whose suffixes starts with a varint of \<open>2 ^ 62\<close> or more: no length in it
  overflows an \<open>int\<close>.\<close>

definition calm :: "bytes \<Rightarrow> bool" where
  "calm d \<longleftrightarrow> length d < 2 ^ 62 \<and> (\<forall>k \<le> length d. unat (fst (uvarint (drop k d))) < 2 ^ 62)"

lemma uvarint_loop_range: "snd (uvarint_loop i x bs) \<le> int i + int (length bs)"
  by (induction i x bs rule: uvarint_loop.induct) auto

lemma uvarint_range: "snd (uvarint bs) \<le> int (length bs)"
  using uvarint_loop_range [of 0 0 bs] by (simp add: uvarint_def)

lemma int64_range_nonneg: "0 \<le> x \<Longrightarrow> x < 2 ^ 62 \<Longrightarrow> int64_range x"
  by (simp add: int64_range_def)

lemma calm_length:
  assumes "calm d" "0 \<le> i" "i \<le> int (length d)" "uvarint (drop (nat i) d) = (v, n)" "0 < n"
  shows "0 \<le> sint v" "i + n \<le> int (length d)" "wrap64 (i + n + sint v) = i + n + sint v"
proof -
  have "nat i \<le> length d" using assms(3) by simp
  with assms(1,4) have v: "unat v < 2 ^ 62" unfolding calm_def by force
  have "wrap64 (int (unat v)) = int (unat v)"
  proof (rule wrap64_id)
    have "int (unat v) < int (2 ^ 62)" using v by (simp only: of_nat_less_iff)
    then show "int64_range (int (unat v))" by (intro int64_range_nonneg) simp_all
  qed
  then have sv: "sint v = int (unat v)" by (simp add: wrap64_def)
  then show "0 \<le> sint v" by simp
  show le: "i + n \<le> int (length d)"
    using uvarint_range [of "drop (nat i) d"] assms(2,3,4) by (simp add: of_nat_diff)
  have "length d < 2 ^ 62" using assms(1) by (simp add: calm_def)
  then have "int (length d) < 2 ^ 62" by (simp only: of_nat_less_numeral_power_cancel_iff)
  moreover have "sint v < 2 ^ 62" unfolding sv using v by (simp only: of_nat_less_numeral_power_cancel_iff)
  ultimately have "int64_range (i + n + sint v)"
    using \<open>0 \<le> sint v\<close> le assms(2,5) unfolding int64_range_def by simp
  then show "wrap64 (i + n + sint v) = i + n + sint v" by (rule wrap64_id)
qed

lemma read_string_calm:
  assumes "calm d" "0 \<le> i" "i \<le> int (length d)"
  shows "read_string_field name d i w \<noteq> Panic p"
    "read_string_field name d i w = Ok (s, i') \<Longrightarrow> i \<le> i'"
  using calm_length [OF assms] assms(2,3)
  by (auto simp: read_string_field_def slice_from_def slice_def go_simps Let_def
      split: prod.splits if_splits)

lemma read_varint_calm:
  assumes "calm d" "0 \<le> i" "i \<le> int (length d)"
  shows "read_varint_field name d i w \<noteq> Panic p"
    "read_varint_field name d i w = Ok (v, i') \<Longrightarrow> i \<le> i'"
  using assms(2,3)
  by (auto simp: read_varint_field_def slice_from_def go_simps split: prod.splits if_splits)

lemma skip_varint_ge: "i + int (length bs) = l \<Longrightarrow> i \<le> fst (skip_varint l bs i)"
  by (induction l bs i rule: skip_varint.induct) auto

lemma skip_unknown_calm:
  assumes "calm d" "0 \<le> i" "i \<le> int (length d)"
  shows "skip_unknown m d i w \<noteq> Panic p"
    "skip_unknown m d i w = Ok (m', i') \<Longrightarrow> i \<le> i'"
  using calm_length [OF assms] assms(2,3) skip_varint_ge [of i "drop (nat i) d" "int (length d)"]
  by (auto simp: skip_unknown_def skipField_def slice_from_def go_simps
      split: prod.splits if_splits)

text \<open>A step from index \<open>i\<close> that does not panic and does not move backwards.\<close>

definition calm_step :: "('m \<times> int) go \<Rightarrow> int \<Rightarrow> bool" where
  "calm_step r i \<longleftrightarrow> (\<forall>p. r \<noteq> Panic p) \<and> (\<forall>m i'. r = Ok (m, i') \<longrightarrow> i \<le> i')"

lemma calm_step_if: "calm_step a i \<Longrightarrow> calm_step b i \<Longrightarrow> calm_step (if c then a else b) i"
  by simp

lemma calm_step_string:
  assumes "calm d" "0 \<le> i" "i \<le> int (length d)"
  shows "calm_step (go_bind (read_string_field name d i w) (\<lambda>(s, i). Ok (g s, i))) i"
  using read_string_calm [OF assms, of name w]
  by (cases "read_string_field name d i w") (auto simp: calm_step_def)

lemma calm_step_varint:
  assumes "calm d" "0 \<le> i" "i \<le> int (length d)"
  shows "calm_step (go_bind (read_varint_field name d i w) (\<lambda>(v, i). Ok (g v, i))) i"
  using read_varint_calm [OF assms, of name w]
  by (cases "read_varint_field name d i w") (auto simp: calm_step_def)

lemma calm_step_skip:
  assumes "calm d" "0 \<le> i" "i \<le> int (length d)"
  shows "calm_step (skip_unknown m d i w) i"
  using skip_unknown_calm [OF assms, of m w] by (auto simp: calm_step_def)

lemmas calm_steps = calm_step_if calm_step_string calm_step_varint calm_step_skip

locale calm_switch =
  fixes sw :: "'m field_switch"
  assumes calm_sw: "calm d \<Longrightarrow> 0 \<le> i \<Longrightarrow> i \<le> int (length d) \<Longrightarrow> calm_step (sw m d i f w) i"
begin

lemma loop_returns:
  assumes "calm d" "0 \<le> i"
  shows "\<exists>r. unmarshal_loop sw d i m = Some r \<and> (\<forall>p. r \<noteq> Panic p)"
  using assms(2)
proof (induction "nat (int (length d) - i)" arbitrary: i m rule: less_induct)
  case less
  show ?case
  proof (cases "i < int (length d)")
    case False
    then show ?thesis by (simp add: unmarshal_loop.simps)
  next
    case True
    obtain f w n where tag: "decodeTag (drop (nat i) d) = (f, w, n)" by (cases "decodeTag (drop (nat i) d)")
    show ?thesis
    proof (cases "n < 0")
      case True
      with tag \<open>i < int (length d)\<close> less.prems show ?thesis
        by (subst unmarshal_loop.simps) (simp add: slice_from_def)
    next
      case False
      then have n: "0 < n" "i + n \<le> int (length d)"
        using tag uvarint_range [of "drop (nat i) d"] True less.prems
        by (auto simp: decodeTag_def of_nat_diff split: prod.splits if_splits)
      have unfold: "unmarshal_loop sw d i m = (case sw m d (i + n) f w of
          Panic p \<Rightarrow> Some (Panic p) | Err e \<Rightarrow> Some (Err e) | Ok (m', i') \<Rightarrow> unmarshal_loop sw d i' m')"
        using tag False True less.prems by (subst unmarshal_loop.simps) (simp add: slice_from_def)
      show ?thesis
      proof (cases "sw m d (i + n) f w")
        case (Ok r)
        obtain m' i' where r: "r = (m', i')" by (cases r)
        have "i + n \<le> i'" using calm_sw [OF assms(1), of "i + n" m f w] Ok r n less.prems by (auto simp: calm_step_def)
        then show ?thesis using less.hyps [of i' m'] n True less.prems unfold Ok r by simp
      next
        case (Err e)
        then show ?thesis using unfold by simp
      next
        case (Panic p)
        then show ?thesis using calm_sw [OF assms(1), of "i + n" m f w] n less.prems by (auto simp: calm_step_def)
      qed
    qed
  qed
qed

end

interpretation map_set_calm: calm_switch MapSet_switch
  by unfold_locales (unfold MapSet_switch_def, intro calm_steps)

interpretation map_rw_calm: calm_switch MapReadAndWrite_switch
  by unfold_locales (unfold MapReadAndWrite_switch_def, intro calm_steps)

interpretation map_rw_response_calm: calm_switch MapReadAndWriteResponse_switch
  by unfold_locales (unfold MapReadAndWriteResponse_switch_def, intro calm_steps)

interpretation ctx_set_calm: calm_switch BlockContextSet_switch
  by unfold_locales (unfold BlockContextSet_switch_def, intro calm_steps)

interpretation ctx_read_calm: calm_switch BlockContextRead_switch
  by unfold_locales (unfold BlockContextRead_switch_def, intro calm_steps)

interpretation ctx_read_response_calm: calm_switch BlockContextReadResponse_switch
  by unfold_locales (unfold BlockContextReadResponse_switch_def, intro calm_steps)

section \<open>Properties\<close>

text \<open>A message whose strings are shorter than 128 bytes and whose value is below 128 survives the
  wire: \<open>Marshal\<close> succeeds with exactly \<open>Size()\<close> bytes, and \<open>Unmarshal\<close> of these bytes into
  any message sets the fields that are not zero and keeps the others. (\<open>Reset\<close> is a no-op in the source, so
  the kept fields of a reused message are observable.)\<close>

theorem canary_map_set_roundtrip:
  assumes "MapSet_wf m"
  shows "\<exists>d. MapSet_Marshal m = Ok d \<and> length d = MapSet_Size m \<and>
    MapSet_Unmarshal d m0 = Some (Ok (MapSet_merge m0 m))"
  using map_set_codec.decode [OF assms] map_set_msg.marshal_ok
  by (simp add: MapSet_Marshal_def map_set_msg.size_image)

theorem canary_map_set_roundtrip_witness:
  "\<exists>d. MapSet_Marshal \<lparr>ms_Sender = ''alice'', ms_Key = ''k'', ms_Value = 42\<rparr> = Ok d \<and>
    length d = 12 \<and>
    MapSet_Unmarshal d MapSet_zero = Some (Ok \<lparr>ms_Sender = ''alice'', ms_Key = ''k'', ms_Value = 42\<rparr>)"
proof -
  have wf: "MapSet_wf \<lparr>ms_Sender = ''alice'', ms_Key = ''k'', ms_Value = 42\<rparr>"
    by (simp add: MapSet_wf_def short_def)
  have "MapSet_Size \<lparr>ms_Sender = ''alice'', ms_Key = ''k'', ms_Value = 42\<rparr> = 12"
    by (simp add: MapSet_Size_def bytes_field_size_def varint_field_size_def sovLen.simps)
  with canary_map_set_roundtrip [OF wf, of MapSet_zero] show ?thesis
    by (simp add: map_set_codec.merge_zero)
qed

text \<open>Every request and response with short strings and small values survives the wire: decoding
  the encoding into a zero message gives the message back.\<close>

theorem canary_messages_roundtrip:
  assumes "MapReadAndWrite_wf rw" "MapReadAndWriteResponse_wf rr" "BlockContextSet_wf bs"
    "BlockContextRead_wf br" "BlockContextReadResponse_wf rs"
  shows "(\<exists>d. MapReadAndWrite_Marshal rw = Ok d \<and>
      MapReadAndWrite_Unmarshal d MapReadAndWrite_zero = Some (Ok rw)) \<and>
    (\<exists>d. MapReadAndWriteResponse_Marshal rr = Ok d \<and>
      MapReadAndWriteResponse_Unmarshal d MapReadAndWriteResponse_zero = Some (Ok rr)) \<and>
    (\<exists>d. BlockContextSet_Marshal bs = Ok d \<and>
      BlockContextSet_Unmarshal d BlockContextSet_zero = Some (Ok bs)) \<and>
    (\<exists>d. BlockContextRead_Marshal br = Ok d \<and>
      BlockContextRead_Unmarshal d BlockContextRead_zero = Some (Ok br)) \<and>
    (\<exists>d. BlockContextReadResponse_Marshal rs = Ok d \<and>
      BlockContextReadResponse_Unmarshal d BlockContextReadResponse_zero = Some (Ok rs))"
  using map_rw_codec.roundtrip [OF assms(1)] map_rw_response_codec.roundtrip [OF assms(2)]
    ctx_set_codec.roundtrip [OF assms(3)] ctx_read_codec.roundtrip [OF assms(4)]
    ctx_read_response_codec.roundtrip [OF assms(5)]
  unfolding MapReadAndWrite_Marshal_def MapReadAndWriteResponse_Marshal_def BlockContextSet_Marshal_def
    BlockContextRead_Marshal_def BlockContextReadResponse_Marshal_def by blast

theorem canary_messages_roundtrip_witness:
  "\<exists>d. BlockContextSet_Marshal \<lparr>bs_Sender = ''bob'', bs_Field = ''height'', bs_Value = ''7''\<rparr> = Ok d \<and>
     BlockContextSet_Unmarshal d BlockContextSet_zero =
       Some (Ok \<lparr>bs_Sender = ''bob'', bs_Field = ''height'', bs_Value = ''7''\<rparr>)"
  using canary_messages_roundtrip [of "\<lparr>rw_Sender = ''bob'', rw_Key = ''k''\<rparr>" "\<lparr>rr_ObservedValue = 42\<rparr>"
      "\<lparr>bs_Sender = ''bob'', bs_Field = ''height'', bs_Value = ''7''\<rparr>"
      "\<lparr>br_Sender = ''bob'', br_Field = ''height''\<rparr>" "\<lparr>rs_Value = ''7''\<rparr>"]
  by (simp add: MapReadAndWrite_wf_def MapReadAndWriteResponse_wf_def BlockContextSet_wf_def
      BlockContextRead_wf_def BlockContextReadResponse_wf_def short_def)

text \<open>\<open>encodeVarint\<close> needs exactly \<open>sovLen v\<close> bytes below the offset; there it leaves the bytes of
  the standard varint in reverse order, and touches nothing else. For two bytes or more that is not the
  encoding \<open>Uvarint\<close> reads.\<close>

theorem encodeVarint_writes_reversed:
  assumes "sovLen v \<le> length A"
  shows "encodeVarint (A @ B) (int (length A)) v =
    Ok (take (length A - sovLen v) A @ rev (put_uvarint v) @ B, int (length A - sovLen v)) \<and>
    uvarint (put_uvarint v @ B) = (v, int (sovLen v))"
  using encodeVarint_spec [OF assms] uvarint_put by simp

theorem encodeVarint_writes_reversed_witness:
  "encodeVarint ([0, 0, 0] @ [7]) 3 300 = Ok ([0, 0x02, 0xac, 7], 1)"
proof -
  have "put_uvarint 300 = [0xac, 0x02]" by (simp add: put_uvarint.simps)
  moreover have "sovLen 300 = 2" by (simp add: sovLen.simps)
  ultimately show ?thesis
    using encodeVarint_writes_reversed [of 300 "[0, 0, 0]" "[7]"] by simp
qed

text \<open>A value of 128 or more, or a negative one, does not survive the wire: \<open>Marshal\<close> succeeds,
  and \<open>Unmarshal\<close> of its output always fails with \<open>io.ErrUnexpectedEOF\<close>, for the request and for the
  response that carry an \<open>int64\<close>.\<close>

theorem canary_large_values_undecodable:
  assumes "short (ms_Sender m)" "short (ms_Key m)" "\<not> ms_Value m < 0x80" "\<not> rr_ObservedValue r < 0x80"
  shows "(\<exists>d. MapSet_Marshal m = Ok d \<and> MapSet_Unmarshal d m0 = Some (Err ErrUnexpectedEOF)) \<and>
    (\<exists>d. MapReadAndWriteResponse_Marshal r = Ok d \<and>
      MapReadAndWriteResponse_Unmarshal d r0 = Some (Err ErrUnexpectedEOF))"
  using MapSet_decode_big [OF assms(1-3)] MapReadAndWriteResponse_decode_big [OF assms(4)]
  by (simp add: MapSet_Marshal_def MapReadAndWriteResponse_Marshal_def map_set_msg.marshal_ok
      map_rw_response_msg.marshal_ok)

theorem canary_large_values_undecodable_witness:
  "\<exists>d. MapSet_Marshal \<lparr>ms_Sender = ''alice'', ms_Key = ''k'', ms_Value = 300\<rparr> = Ok d \<and>
    MapSet_Unmarshal d MapSet_zero = Some (Err ErrUnexpectedEOF)"
  using canary_large_values_undecodable [of "\<lparr>ms_Sender = ''alice'', ms_Key = ''k'', ms_Value = 300\<rparr>"
      "\<lparr>rr_ObservedValue = -1\<rparr>"]
  by (simp add: short_def)

text \<open>C37. On calm input (no length or value of \<open>2 ^ 62\<close> or more anywhere) every \<open>Unmarshal\<close> returns,
  with a message or an error: its loop ends and no slice is out of range.\<close>

theorem canary_unmarshal_returns:
  assumes "calm d"
  shows "(\<exists>r. MapSet_Unmarshal d m1 = Some r \<and> (\<forall>p. r \<noteq> Panic p)) \<and>
    (\<exists>r. MapReadAndWrite_Unmarshal d m2 = Some r \<and> (\<forall>p. r \<noteq> Panic p)) \<and>
    (\<exists>r. MapReadAndWriteResponse_Unmarshal d m3 = Some r \<and> (\<forall>p. r \<noteq> Panic p)) \<and>
    (\<exists>r. BlockContextSet_Unmarshal d m4 = Some r \<and> (\<forall>p. r \<noteq> Panic p)) \<and>
    (\<exists>r. BlockContextRead_Unmarshal d m5 = Some r \<and> (\<forall>p. r \<noteq> Panic p)) \<and>
    (\<exists>r. BlockContextReadResponse_Unmarshal d m6 = Some r \<and> (\<forall>p. r \<noteq> Panic p))"
  unfolding MapSet_Unmarshal_def MapReadAndWrite_Unmarshal_def MapReadAndWriteResponse_Unmarshal_def
    BlockContextSet_Unmarshal_def BlockContextRead_Unmarshal_def BlockContextReadResponse_Unmarshal_def
  by (intro conjI map_set_calm.loop_returns map_rw_calm.loop_returns map_rw_response_calm.loop_returns
      ctx_set_calm.loop_returns ctx_read_calm.loop_returns ctx_read_response_calm.loop_returns assms) simp_all

lemma calm_example: "calm [0x08, 0x05]"
proof -
  have "unat (fst (uvarint (drop k [0x08, 0x05]))) < 2 ^ 62" if "k \<le> 2" for k
  proof -
    from that consider "k = 0" | "k = 1" | "k = 2" by linarith
    then show ?thesis by cases (simp_all add: uvarint_def)
  qed
  then show ?thesis by (simp add: calm_def)
qed

theorem canary_unmarshal_returns_witness:
  "\<exists>r. MapReadAndWriteResponse_Unmarshal [0x08, 0x05] MapReadAndWriteResponse_zero = Some r \<and>
    (\<forall>p. r \<noteq> Panic p)"
  using canary_unmarshal_returns [OF calm_example] by blast

text \<open>Without calm input it need not return: on these eleven-byte inputs, whose length is negative
  as an \<open>int\<close>, \<open>Unmarshal\<close> of any message panics on a slice, or loops for ever on an unknown field.\<close>

theorem canary_unmarshal_hostile:
  "(\<exists>p. MapSet_Unmarshal negative_length_input m = Some (Panic p)) \<and>
   MapSet_Unmarshal backwards_input m = None"
  using negative_length_panics backwards_loops by simp

text \<open>Marshalling any message never panics, whatever its strings and values, and fills exactly
  \<open>Size()\<close> bytes; \<open>MarshalTo\<close> a smaller buffer panics.\<close>

theorem canary_marshal_total:
  "(\<exists>d. MapSet_Marshal m1 = Ok d \<and> length d = MapSet_Size m1) \<and>
   (\<exists>d. MapReadAndWrite_Marshal m2 = Ok d \<and> length d = MapReadAndWrite_Size m2) \<and>
   (\<exists>d. MapReadAndWriteResponse_Marshal m3 = Ok d \<and> length d = MapReadAndWriteResponse_Size m3) \<and>
   (\<exists>d. BlockContextSet_Marshal m4 = Ok d \<and> length d = BlockContextSet_Size m4) \<and>
   (\<exists>d. BlockContextRead_Marshal m5 = Ok d \<and> length d = BlockContextRead_Size m5) \<and>
   (\<exists>d. BlockContextReadResponse_Marshal m6 = Ok d \<and> length d = BlockContextReadResponse_Size m6) \<and>
   (case MapSet_MarshalTo m1 buf of
      Ok (buf', n) \<Rightarrow> MapSet_Size m1 \<le> length buf \<and> length buf' = length buf \<and> n = int (MapSet_Size m1)
    | Err e \<Rightarrow> False
    | Panic p \<Rightarrow> length buf < MapSet_Size m1)"
proof -
  have "case MapSet_MarshalTo m1 buf of
      Ok (buf', n) \<Rightarrow> MapSet_Size m1 \<le> length buf \<and> length buf' = length buf \<and> n = int (MapSet_Size m1)
    | Err e \<Rightarrow> False
    | Panic p \<Rightarrow> length buf < MapSet_Size m1"
    using map_set_msg.marshal_to_ok [of m1 buf] map_set_msg.marshal_to_panic [of buf m1]
    by (cases "MapSet_Size m1 \<le> length buf")
      (auto simp: MapSet_MarshalTo_def map_set_msg.size_image)
  then show ?thesis
    by (simp add: MapSet_Marshal_def MapReadAndWrite_Marshal_def MapReadAndWriteResponse_Marshal_def
        BlockContextSet_Marshal_def BlockContextRead_Marshal_def BlockContextReadResponse_Marshal_def
        map_set_msg.marshal_ok map_rw_msg.marshal_ok map_rw_response_msg.marshal_ok ctx_set_msg.marshal_ok
        ctx_read_msg.marshal_ok ctx_read_response_msg.marshal_ok map_set_msg.size_image
        map_rw_msg.size_image map_rw_response_msg.size_image ctx_set_msg.size_image
        ctx_read_msg.size_image ctx_read_response_msg.size_image)
qed

end
