(* ===== verification/Conflict.thy ===== *)
theory Conflict
  imports Complex_Main Go_Prelude "HOL-Library.AList"
begin

text \<open>
  \<open>compare/conflict.go\<close>: the sink that buffers the conflict records and the execution
  statistics of one probe run, the execution ratio, and the aggregation of the records into hot keys.
  Every method of the sink holds its mutex, so a concurrent run is a sequence of the methods below in
  some order. A Go map is an association list; ranging over it visits some permutation of the list.
  \<open>Ratio\<close> is the exact quotient (the rounding of \<open>float64\<close> is not modelled).

  The locale \<open>call_sink\<close> is the contract of a buffer that records and drains; it is interpreted
  here for \<open>ConflictSink\<close> and in Nondet for the sink of non-deterministic calls.
\<close>

section \<open>Buffers that record and drain\<close>

locale call_sink =
  fixes rec :: "'e \<Rightarrow> 's \<Rightarrow> 's"
    and drain :: "'s \<Rightarrow> 'r list \<times> 's"
    and pending :: "'s \<Rightarrow> 'r list"
    and stamp :: "'s \<Rightarrow> 'e \<Rightarrow> 'r"
  assumes pending_rec: "pending (rec e s) = pending s @ [stamp s e]"
    and stamp_rec: "stamp (rec e s) = stamp s"
    and drain_all: "fst (drain s) = pending s"
    and drain_empty: "pending (snd (drain s)) = []"
begin

lemma stamp_fold [simp]: "stamp (fold rec es s) = stamp s"
  by (induction es arbitrary: s) (simp_all add: stamp_rec)

lemma pending_fold: "pending (fold rec es s) = pending s @ map (stamp s) es"
  by (induction es arbitrary: s) (simp_all add: pending_rec stamp_rec)

lemma drain_fold: "fst (drain (fold rec es (snd (drain s)))) = map (stamp (snd (drain s))) es"
  by (simp add: drain_all pending_fold drain_empty)

lemma drain_twice: "fst (drain (snd (drain s))) = []"
  by (simp add: drain_all drain_empty)

text \<open>Two goroutines that record \<open>xs\<close> and \<open>ys\<close> in any interleaving: nothing is lost or invented, and
  each one's records keep their order.\<close>

lemma drain_interleaving:
  assumes "zs \<in> shuffles xs ys"
  shows "mset (fst (drain (fold rec zs s))) = mset (pending s) + mset (map (stamp s) xs) + mset (map (stamp s) ys)"
proof -
  from assms have "mset zs = mset xs + mset ys" by (rule mset_shuffles)
  then have "mset (map (stamp s) zs) = mset (map (stamp s) xs) + mset (map (stamp s) ys)"
    by simp
  then show ?thesis by (simp add: drain_all pending_fold)
qed

end

section \<open>Records, statistics, the sink\<close>

record ConflictRecord =
  cr_Store :: string
  cr_TxIndex :: int
  cr_Key :: bytes
  cr_Reason :: string

record ExecutionStats =
  es_BlockSize :: int
  es_ExecutedTxns :: int
  es_ValidatedTxns :: int

definition Ratio :: "ExecutionStats \<Rightarrow> rat" where
  "Ratio s = (if es_BlockSize s = 0 then 0
              else of_int (es_ExecutedTxns s) / of_int (es_BlockSize s))"

record ConflictSink =
  sink_records :: "ConflictRecord list"
  sink_stats :: "ExecutionStats option"

definition NewConflictSink :: ConflictSink where
  "NewConflictSink = \<lparr>sink_records = [], sink_stats = None\<rparr>"

definition RecordConflict :: "ConflictRecord \<Rightarrow> ConflictSink \<Rightarrow> ConflictSink" where
  "RecordConflict r s = s\<lparr>sink_records := sink_records s @ [r]\<rparr>"

definition RecordStats :: "ExecutionStats \<Rightarrow> ConflictSink \<Rightarrow> ConflictSink" where
  "RecordStats st s = s\<lparr>sink_stats := Some st\<rparr>"

definition Drain :: "ConflictSink \<Rightarrow> (ConflictRecord list \<times> ExecutionStats option) \<times> ConflictSink" where
  "Drain s = ((sink_records s, sink_stats s), s\<lparr>sink_records := [], sink_stats := None\<rparr>)"

definition drain_records :: "ConflictSink \<Rightarrow> ConflictRecord list \<times> ConflictSink" where
  "drain_records s = (case Drain s of ((rs, _), s') \<Rightarrow> (rs, s'))"

interpretation conflict_sink: call_sink RecordConflict drain_records sink_records "\<lambda>_ r. r"
  by unfold_locales (simp_all add: RecordConflict_def drain_records_def Drain_def)

section \<open>Hot keys\<close>

record HotKeyStat =
  hk_Store :: string
  hk_Key :: string
  hk_Conflicts :: nat
  hk_Txs :: "int list"

record agg =
  agg_conflicts :: nat
  agg_txs :: "int list"

definition group_key :: "ConflictRecord \<Rightarrow> string \<times> string" where
  "group_key r = (cr_Store r, hex_encode (cr_Key r))"

text \<open>One turn of the grouping loop; the map \<open>txs\<close> of an aggregate is the list of its keys.\<close>

definition add_conflict ::
  "((string \<times> string) \<times> agg) list \<Rightarrow> ConflictRecord \<Rightarrow> ((string \<times> string) \<times> agg) list" where
  "add_conflict groups r =
     (let k = group_key r;
          g = (case map_of groups k of None \<Rightarrow> \<lparr>agg_conflicts = 0, agg_txs = []\<rparr> | Some g \<Rightarrow> g)
      in AList.update k (g\<lparr>agg_conflicts := Suc (agg_conflicts g),
                           agg_txs := List.insert (cr_TxIndex r) (agg_txs g)\<rparr>) groups)"

definition group_conflicts :: "ConflictRecord list \<Rightarrow> ((string \<times> string) \<times> agg) list" where
  "group_conflicts records = foldl add_conflict [] records"

definition hot_key_stat :: "(string \<times> string) \<times> agg \<Rightarrow> HotKeyStat" where
  "hot_key_stat kg = (case kg of (k, g) \<Rightarrow>
     \<lparr>hk_Store = fst k, hk_Key = snd k, hk_Conflicts = agg_conflicts g, hk_Txs = sort (agg_txs g)\<rparr>)"

text \<open>The comparison of \<open>sort.Slice\<close>: conflicts descending, then store, then key.\<close>

definition hot_rank :: "HotKeyStat \<Rightarrow> int \<times> string \<times> string" where
  "hot_rank h = (- int (hk_Conflicts h), hk_Store h, hk_Key h)"

text \<open>The second loop and the sort, over the groups in the order the map iteration gives.\<close>

definition hot_keys_of :: "((string \<times> string) \<times> agg) list \<Rightarrow> HotKeyStat list" where
  "hot_keys_of groups = sort_key hot_rank (map hot_key_stat groups)"

definition AggregateHotKeys :: "ConflictRecord list \<Rightarrow> HotKeyStat list" where
  "AggregateHotKeys records =
     (if records = [] then [] else hot_keys_of (group_conflicts records))"

section \<open>What the grouping computes\<close>

definition conflicts_on :: "ConflictRecord list \<Rightarrow> string \<times> string \<Rightarrow> ConflictRecord list" where
  "conflicts_on records k = filter (\<lambda>r. group_key r = k) records"

lemma group_conflicts_snoc:
  "group_conflicts (rs @ [r]) = add_conflict (group_conflicts rs) r"
  by (simp add: group_conflicts_def)

lemma distinct_groups: "distinct (map fst (group_conflicts rs))"
  by (induction rs rule: rev_induct)
    (simp_all add: group_conflicts_snoc add_conflict_def Let_def distinct_update group_conflicts_def [of "[]"])

lemma group_lookup:
  "map_of (group_conflicts rs) k =
     (if conflicts_on rs k = [] then None
      else Some \<lparr>agg_conflicts = length (conflicts_on rs k),
                 agg_txs = foldl (\<lambda>xs r. List.insert (cr_TxIndex r) xs) [] (conflicts_on rs k)\<rparr>)"
  by (induction rs rule: rev_induct)
    (auto simp: group_conflicts_snoc add_conflict_def Let_def update_conv' conflicts_on_def
      group_conflicts_def [of "[]"])

lemma foldl_insert_txs:
  "distinct (foldl (\<lambda>xs r. List.insert (cr_TxIndex r) xs) [] rs) \<and>
   set (foldl (\<lambda>xs r. List.insert (cr_TxIndex r) xs) [] rs) = cr_TxIndex ` set rs"
  by (induction rs rule: rev_induct) auto

text \<open>The entry of a key, read off the records.\<close>

definition hot_entry :: "ConflictRecord list \<Rightarrow> string \<times> string \<Rightarrow> HotKeyStat" where
  "hot_entry rs k = \<lparr>hk_Store = fst k, hk_Key = snd k, hk_Conflicts = length (conflicts_on rs k),
     hk_Txs = sorted_list_of_set (cr_TxIndex ` set (conflicts_on rs k))\<rparr>"

lemma keys_of_groups: "fst ` set (group_conflicts rs) = group_key ` set rs"
proof -
  have "k \<in> fst ` set (group_conflicts rs) \<longleftrightarrow> conflicts_on rs k \<noteq> []" for k
    using group_lookup [of rs k] by (metis map_of_eq_None_iff option.distinct(1))
  moreover have "conflicts_on rs k \<noteq> [] \<longleftrightarrow> k \<in> group_key ` set rs" for k
    unfolding conflicts_on_def filter_empty_conv image_iff by metis
  ultimately show ?thesis by (intro set_eqI) metis
qed

lemma hot_key_stat_group:
  assumes "(k, g) \<in> set (group_conflicts rs)"
  shows "hot_key_stat (k, g) = hot_entry rs k"
proof -
  have "map_of (group_conflicts rs) k = Some g"
    using assms distinct_groups by (intro map_of_is_SomeI)
  then show ?thesis
    using group_lookup [of rs k] foldl_insert_txs [of "conflicts_on rs k"]
    by (auto simp: hot_key_stat_def hot_entry_def sort_distinct_set split: if_splits)
qed

lemma map_hot_key_stat:
  "map hot_key_stat (group_conflicts rs) = map (hot_entry rs) (map fst (group_conflicts rs))"
  using hot_key_stat_group by auto

lemma hot_rank_inj: "inj (\<lambda>k. hot_rank (hot_entry rs k))"
  by (auto simp: inj_def hot_rank_def hot_entry_def prod_eq_iff)

lemma hot_entry_inj: "hot_entry rs k = hot_entry rs k' \<longleftrightarrow> k = k'"
  using injD [OF hot_rank_inj [of rs], of k k'] by auto

lemma length_hot_txs: "length (hk_Txs (hot_entry rs k)) \<le> hk_Conflicts (hot_entry rs k)"
proof -
  have "length (hk_Txs (hot_entry rs k)) = card (cr_TxIndex ` set (conflicts_on rs k))"
    unfolding hot_entry_def HotKeyStat.select_convs
    by (rule sorted_list_of_set.length_sorted_key_list_of_set)
  also have "\<dots> \<le> card (set (conflicts_on rs k))" by (rule card_image_le) simp
  also have "\<dots> \<le> length (conflicts_on rs k)" by (rule card_length)
  also have "\<dots> = hk_Conflicts (hot_entry rs k)" by (simp only: hot_entry_def HotKeyStat.select_convs)
  finally show ?thesis .
qed

lemma inj_on_hot_rank: "inj_on hot_rank (hot_entry rs ` A)"
  using hot_rank_inj [of rs] by (auto simp: inj_on_def inj_def)

lemma hot_entry_cong: "mset rs = mset rs' \<Longrightarrow> hot_entry rs = hot_entry rs'"
proof -
  assume eq: "mset rs = mset rs'"
  then have "mset (conflicts_on rs k) = mset (conflicts_on rs' k)" for k
    by (simp add: conflicts_on_def)
  then show ?thesis
    unfolding hot_entry_def fun_eq_iff by (metis mset_eq_length mset_eq_setD)
qed

text \<open>Any list of the groups, in any order, aggregates to the same result.\<close>

lemma hot_keys_of_eq:
  assumes "mset groups = mset (group_conflicts rs)"
  shows "hot_keys_of groups =
    sort_key hot_rank (map (hot_entry rs) (sorted_list_of_set (group_key ` set rs)))"
proof -
  let ?ks = "sorted_list_of_set (group_key ` set rs)"
  have "mset (map fst (group_conflicts rs)) = mset ?ks"
    using distinct_groups [of rs] keys_of_groups [of rs]
    by (intro set_eq_iff_mset_eq_distinct [THEN iffD1]) auto
  then have "mset (map (hot_entry rs) (map fst (group_conflicts rs))) = mset (map (hot_entry rs) ?ks)"
    by (metis mset_map)
  moreover have "mset (map hot_key_stat groups) = mset (map hot_key_stat (group_conflicts rs))"
    using assms by simp
  ultimately have "mset (map hot_key_stat groups) = mset (map (hot_entry rs) ?ks)"
    by (simp only: map_hot_key_stat)
  moreover from this have "set (map hot_key_stat groups) = set (map (hot_entry rs) ?ks)"
    by (rule mset_eq_setD)
  then have "inj_on hot_rank (set (map hot_key_stat groups))"
    using inj_on_hot_rank [of rs] by simp
  ultimately show ?thesis
    unfolding hot_keys_of_def by (intro sort_key_inj_key_eq) simp_all
qed

lemma AggregateHotKeys_eq:
  "AggregateHotKeys rs = sort_key hot_rank (map (hot_entry rs) (sorted_list_of_set (group_key ` set rs)))"
  using hot_keys_of_eq [of "group_conflicts rs" rs] by (simp add: AggregateHotKeys_def)

lemma set_AggregateHotKeys: "set (AggregateHotKeys rs) = hot_entry rs ` group_key ` set rs"
  by (simp add: AggregateHotKeys_eq)

lemma sum_conflicts:
  "(\<Sum>k \<in> group_key ` set rs. length (conflicts_on rs k)) = length rs"
proof (induction rs)
  case (Cons r rs)
  let ?K = "group_key ` set rs"
  have c: "length (conflicts_on (r # rs) k) = (if k = group_key r then 1 else 0) + length (conflicts_on rs k)" for k
    by (auto simp: conflicts_on_def)
  have z: "conflicts_on rs (group_key r) = []" if "group_key r \<notin> ?K"
    using that unfolding conflicts_on_def filter_empty_conv by (metis imageI)
  have "(\<Sum>k \<in> insert (group_key r) ?K. length (conflicts_on rs k)) = length rs"
    using Cons z by (cases "group_key r \<in> ?K") (simp_all add: insert_absorb)
  then show ?case by (simp add: c sum.distrib)
qed (simp add: conflicts_on_def)

section \<open>Properties\<close>

text \<open>Hot-key aggregation is a function of the multiset of conflict records alone: whatever the order
  in which the executor goroutines reported them, and whatever the order in which Go ranges over the
  group map, the result is the same list.\<close>

theorem hot_keys_order_independent:
  assumes "mset rs' = mset rs" and "mset groups = mset (group_conflicts rs')"
  shows "hot_keys_of groups = AggregateHotKeys rs"
proof -
  from assms(1) have "set rs' = set rs" by (rule mset_eq_setD)
  then show ?thesis
    using hot_keys_of_eq [OF assms(2)] hot_entry_cong [OF assms(1)] by (simp add: AggregateHotKeys_eq)
qed

definition example_records :: "ConflictRecord list" where
  "example_records =
     [\<lparr>cr_Store = ''bank'', cr_TxIndex = 3, cr_Key = [1], cr_Reason = ''read''\<rparr>,
      \<lparr>cr_Store = ''acc'', cr_TxIndex = 2, cr_Key = [2], cr_Reason = ''read''\<rparr>,
      \<lparr>cr_Store = ''bank'', cr_TxIndex = 1, cr_Key = [1], cr_Reason = ''read''\<rparr>]"

theorem hot_keys_order_independent_witness:
  "hot_keys_of (rev (group_conflicts (rev example_records))) = AggregateHotKeys example_records"
  by (rule hot_keys_order_independent) simp_all

text \<open>C25. What the aggregation returns: sorted by conflicts descending, then store, then key; one entry
  per (store, key) that occurs, with the number of its records and the sorted distinct transactions, of
  which there is at least one and no more than records; the conflicts add up to the number of records.\<close>

theorem hot_keys_correct:
  "sorted (map hot_rank (AggregateHotKeys rs)) \<and> distinct (AggregateHotKeys rs) \<and>
   (\<forall>k. hot_entry rs k \<in> set (AggregateHotKeys rs) \<longleftrightarrow> conflicts_on rs k \<noteq> []) \<and>
   set (AggregateHotKeys rs) \<subseteq> range (hot_entry rs) \<and>
   (\<forall>h \<in> set (AggregateHotKeys rs). hk_Txs h \<noteq> [] \<and> sorted_wrt (<) (hk_Txs h) \<and>
      length (hk_Txs h) \<le> hk_Conflicts h) \<and>
   sum_list (map hk_Conflicts (AggregateHotKeys rs)) = length rs"
proof (intro conjI allI ballI)
  have inj: "inj_on (hot_entry rs) A" for A
    by (simp add: inj_on_def hot_entry_inj)
  show "sorted (map hot_rank (AggregateHotKeys rs))" by (simp add: AggregateHotKeys_eq)
  show "distinct (AggregateHotKeys rs)"
    using inj by (simp add: AggregateHotKeys_eq distinct_map)
  show "hot_entry rs k \<in> set (AggregateHotKeys rs) \<longleftrightarrow> conflicts_on rs k \<noteq> []" for k
  proof -
    have "hot_entry rs k \<in> set (AggregateHotKeys rs) \<longleftrightarrow> k \<in> group_key ` set rs"
      unfolding set_AggregateHotKeys by (rule inj_image_mem_iff [OF inj])
    also have "\<dots> \<longleftrightarrow> conflicts_on rs k \<noteq> []"
      unfolding conflicts_on_def filter_empty_conv image_iff by metis
    finally show ?thesis .
  qed
  show "set (AggregateHotKeys rs) \<subseteq> range (hot_entry rs)" by (auto simp: set_AggregateHotKeys)
  show "sum_list (map hk_Conflicts (AggregateHotKeys rs)) = length rs"
  proof -
    have "sum_list (map hk_Conflicts (AggregateHotKeys rs)) =
        sum_mset (image_mset hk_Conflicts (mset (map (hot_entry rs) (sorted_list_of_set (group_key ` set rs)))))"
      by (simp add: AggregateHotKeys_eq flip: sum_mset_sum_list)
    also have "\<dots> = sum_list (map (\<lambda>k. length (conflicts_on rs k)) (sorted_list_of_set (group_key ` set rs)))"
      by (simp add: hot_entry_def comp_def multiset.map_comp flip: sum_mset_sum_list)
    also have "\<dots> = (\<Sum>k \<in> group_key ` set rs. length (conflicts_on rs k))"
      by (simp add: sum_list_distinct_conv_sum_set)
    finally show ?thesis by (simp add: sum_conflicts)
  qed
  fix h assume "h \<in> set (AggregateHotKeys rs)"
  then obtain r where r: "r \<in> set rs" "h = hot_entry rs (group_key r)"
    by (auto simp: set_AggregateHotKeys)
  then have "r \<in> set (conflicts_on rs (group_key r))" by (simp add: conflicts_on_def)
  then show "hk_Txs h \<noteq> []" by (auto simp: r hot_entry_def)
  show "sorted_wrt (<) (hk_Txs h)" by (simp add: r hot_entry_def)
  show "length (hk_Txs h) \<le> hk_Conflicts h"
    unfolding r(2) by (rule length_hot_txs)
qed

theorem hot_keys_correct_witness:
  "map hk_Conflicts (AggregateHotKeys example_records) = [2, 1] \<and>
   sum_list (map hk_Conflicts (AggregateHotKeys example_records)) = 3 \<and>
   hk_Txs (hd (AggregateHotKeys example_records)) \<noteq> []"
proof -
  have "AggregateHotKeys example_records \<noteq> [] \<and> map hk_Conflicts (AggregateHotKeys example_records) = [2, 1]"
    by code_simp
  with hot_keys_correct [of example_records] show ?thesis by auto
qed

text \<open>The sink under concurrency: after any interleaving of two goroutines' records, \<open>Drain\<close>
  returns what was pending and all of both, no more and no less, and a second \<open>Drain\<close> returns nothing
  (no records and no statistics).\<close>

theorem conflict_sink_interleaving:
  assumes "zs \<in> shuffles xs ys"
  shows "mset (fst (fst (Drain (fold RecordConflict zs s)))) = mset (sink_records s) + mset xs + mset ys \<and>
    fst (Drain (snd (Drain (fold RecordConflict zs s)))) = ([], None)"
proof (rule conjI)
  have "fst (Drain t) = (fst (drain_records t), sink_stats t)" for t
    by (simp add: drain_records_def Drain_def)
  then have "fst (fst (Drain t)) = fst (drain_records t)" for t by simp
  with conflict_sink.drain_interleaving [OF assms, of s]
  show "mset (fst (fst (Drain (fold RecordConflict zs s)))) = mset (sink_records s) + mset xs + mset ys"
    by (simp only: list.map_ident)
  show "fst (Drain (snd (Drain (fold RecordConflict zs s)))) = ([], None)"
    by (simp add: Drain_def)
qed

theorem conflict_sink_interleaving_witness:
  "mset (fst (fst (Drain (fold RecordConflict example_records NewConflictSink)))) = mset example_records"
proof -
  have "example_records \<in> shuffles (take 2 example_records) (drop 2 example_records)"
    by (simp add: example_records_def)
  from conflict_sink_interleaving [OF this, of NewConflictSink] show ?thesis
    by (simp add: NewConflictSink_def flip: mset_append)
qed

end
