(* ===== verification/Nondet.thy ===== *)
theory Nondet
  imports Conflict
begin

text \<open>
  \<open>simharness/nondet.go\<close> and \<open>simharness/nondet_default.go\<close>: the sink of non-deterministic
  calls, with the transaction index the observer last set. The methods hold a mutex, so a run is a
  sequence of them. Drained calls go to \<open>compare.Run\<close>.
\<close>

record NonDetCall =
  nd_Category :: string
  nd_CallSite :: string
  nd_TxIndex :: int

record nonDetSink =
  nds_txIndex :: int
  nds_calls :: "NonDetCall list"

definition GlobalSink :: nonDetSink where
  "GlobalSink = \<lparr>nds_txIndex = -1, nds_calls = []\<rparr>"

definition nds_Record :: "string \<times> string \<Rightarrow> nonDetSink \<Rightarrow> nonDetSink" where
  "nds_Record c s = s\<lparr>nds_calls := nds_calls s @
     [\<lparr>nd_Category = fst c, nd_CallSite = snd c, nd_TxIndex = nds_txIndex s\<rparr>]\<rparr>"

definition nds_SetCurrentTx :: "int \<Rightarrow> nonDetSink \<Rightarrow> nonDetSink" where
  "nds_SetCurrentTx txIndex s = s\<lparr>nds_txIndex := txIndex\<rparr>"

definition NonDetCalls :: "nonDetSink \<Rightarrow> NonDetCall list \<times> nonDetSink" where
  "NonDetCalls s = (nds_calls s, s\<lparr>nds_calls := [], nds_txIndex := -1\<rparr>)"

text \<open>The package in both builds: without the tag \<open>simharness\<close>, \<open>RecordCall\<close> does nothing and
  \<open>Provider\<close> is nil.\<close>

definition RecordCall :: "bool \<Rightarrow> string \<times> string \<Rightarrow> nonDetSink \<Rightarrow> nonDetSink" where
  "RecordCall tagged c s = (if tagged then nds_Record c s else s)"

definition nd_Provider :: "bool \<Rightarrow> (nonDetSink \<Rightarrow> NonDetCall list \<times> nonDetSink) option" where
  "nd_Provider tagged = (if tagged then Some NonDetCalls else None)"

definition call_of :: "nonDetSink \<Rightarrow> string \<times> string \<Rightarrow> NonDetCall" where
  "call_of s c = \<lparr>nd_Category = fst c, nd_CallSite = snd c, nd_TxIndex = nds_txIndex s\<rparr>"

interpretation nd_sink: call_sink nds_Record NonDetCalls nds_calls call_of
  by unfold_locales (simp_all add: nds_Record_def NonDetCalls_def call_of_def fun_eq_iff)

section \<open>Runs of the sink\<close>

datatype nd_event = NdTx int | NdCall string string | NdDrain

text \<open>The calls handed out by the drains so far, and the sink.\<close>

fun nd_step :: "nd_event \<Rightarrow> NonDetCall list list \<times> nonDetSink \<Rightarrow> NonDetCall list list \<times> nonDetSink" where
  "nd_step (NdTx i) (out, s) = (out, nds_SetCurrentTx i s)"
| "nd_step (NdCall c f) (out, s) = (out, nds_Record (c, f) s)"
| "nd_step NdDrain (out, s) = (case NonDetCalls s of (cs, s') \<Rightarrow> (out @ [cs], s'))"

text \<open>The specification, over the history with the newest event first: the transaction set last since
  the last drain, and the calls since then, each with the transaction set at that time.\<close>

fun nd_tx :: "nd_event list \<Rightarrow> int" where
  "nd_tx [] = -1"
| "nd_tx (NdTx i # h) = i"
| "nd_tx (NdCall c f # h) = nd_tx h"
| "nd_tx (NdDrain # h) = -1"

fun nd_since :: "nd_event list \<Rightarrow> NonDetCall list" where
  "nd_since [] = []"
| "nd_since (NdTx i # h) = nd_since h"
| "nd_since (NdCall c f # h) = nd_since h @ [\<lparr>nd_Category = c, nd_CallSite = f, nd_TxIndex = nd_tx h\<rparr>]"
| "nd_since (NdDrain # h) = []"

fun nd_drained :: "nd_event list \<Rightarrow> NonDetCall list list" where
  "nd_drained [] = []"
| "nd_drained (NdDrain # h) = nd_drained h @ [nd_since h]"
| "nd_drained (e # h) = nd_drained h"

text \<open>The sink of non-deterministic calls implements its specification on every sequence of calls
  from the start of the process: each drain returns exactly the calls made since the drain before it, in
  order, none twice, each attributed to the transaction that \<open>SetCurrentTx\<close> named last since that drain
  and to \<open>-1\<close> where there was none.\<close>

theorem nondet_sink_refines_history:
  "foldr nd_step h ([], GlobalSink) = (nd_drained h, \<lparr>nds_txIndex = nd_tx h, nds_calls = nd_since h\<rparr>)"
proof (induction h)
  case (Cons e h)
  then show ?case
    by (cases e) (simp_all add: nds_SetCurrentTx_def nds_Record_def NonDetCalls_def)
qed (simp add: GlobalSink_def)

end
