(* ===== verification/Block_Context.thy ===== *)
theory Block_Context
  imports Go_Prelude
begin

text \<open>
  \<open>compare/block_context_tracker.go\<close>: the tracker of block-context fields (height, chain ID, ...)
  that live outside the multi-version store. The record \<open>BlockContextTracker\<close> is the Go struct without
  its mutex: every method holds it, so a run is a sequence of the steps below. The refinement states
  what a run computes over its history.
\<close>

record BlockContextMutation =
  bm_Field :: string
  bm_Before :: string
  bm_After :: string
  bm_WriterTx :: int
  bm_ReaderTxs :: "int list"

record blockContextField =
  bf_value :: string
  bf_readers :: "int list"

record BlockContextTracker =
  bt_fields :: "string \<rightharpoonup> blockContextField"
  bt_currentTx :: int
  bt_mutations :: "BlockContextMutation list"

definition bt_Reset :: "(string \<rightharpoonup> string) \<Rightarrow> BlockContextTracker \<Rightarrow> BlockContextTracker" where
  "bt_Reset initial t = t\<lparr>
     bt_fields := (\<lambda>k. map_option (\<lambda>v. \<lparr>bf_value = v, bf_readers = []\<rparr>) (initial k)),
     bt_currentTx := -1, bt_mutations := []\<rparr>"

definition NewBlockContextTracker :: "(string \<rightharpoonup> string) \<Rightarrow> BlockContextTracker" where
  "NewBlockContextTracker initial =
     bt_Reset initial \<lparr>bt_fields = Map.empty, bt_currentTx = -1, bt_mutations = []\<rparr>"

definition bt_SetCurrentTx :: "int \<Rightarrow> BlockContextTracker \<Rightarrow> BlockContextTracker" where
  "bt_SetCurrentTx txIndex t = t\<lparr>bt_currentTx := txIndex\<rparr>"

definition ReadField :: "string \<Rightarrow> BlockContextTracker \<Rightarrow> string \<times> BlockContextTracker" where
  "ReadField name t = (case bt_fields t name of
     None \<Rightarrow> ('''', t)
   | Some field \<Rightarrow>
       (bf_value field,
        if 0 \<le> bt_currentTx t
        then if bf_readers field = [] \<or> last (bf_readers field) \<noteq> bt_currentTx t
             then t\<lparr>bt_fields := (bt_fields t)(name \<mapsto>
                    field\<lparr>bf_readers := bf_readers field @ [bt_currentTx t]\<rparr>)\<rparr>
             else t
        else t))"

definition WriteField :: "string \<Rightarrow> string \<Rightarrow> BlockContextTracker \<Rightarrow> BlockContextTracker" where
  "WriteField name value t =
     (let field = (case bt_fields t name of
                     None \<Rightarrow> \<lparr>bf_value = '''', bf_readers = []\<rparr> | Some f \<Rightarrow> f)
      in t\<lparr>bt_mutations := bt_mutations t @
             [\<lparr>bm_Field = name, bm_Before = bf_value field, bm_After = value,
               bm_WriterTx = bt_currentTx t, bm_ReaderTxs = bf_readers field\<rparr>],
           bt_fields := (bt_fields t)(name \<mapsto> field\<lparr>bf_value := value, bf_readers := []\<rparr>)\<rparr>)"

definition BlockContextMutations :: "BlockContextTracker \<Rightarrow> BlockContextMutation list" where
  "BlockContextMutations t = bt_mutations t"

definition bt_TrackerName :: string where
  "bt_TrackerName = ''block.context''"

definition bt_SnapshotOutOfKVStoreState :: bytes where
  "bt_SnapshotOutOfKVStoreState = []"

definition joinInts :: "int list \<Rightarrow> string" where
  "joinInts xs = join '','' (map itoa xs)"

lemma itoa_no_comma: "CHR '','' \<notin> set (itoa i)"
  using itoa_chars [of "CHR '',''" i] by (auto simp: is_digit_char_def)

lemma joinInts_Nil_iff: "joinInts xs = [] \<longleftrightarrow> xs = []"
  by (cases xs) (simp_all add: joinInts_def join_Cons)

lemma joinInts_inj [fmt_simps]: "joinInts xs = joinInts ys \<longleftrightarrow> xs = ys"
proof (cases "xs = [] \<or> ys = []")
  case True
  then show ?thesis using joinInts_Nil_iff [of xs] joinInts_Nil_iff [of ys]
    by (metis joinInts_def list.simps(8) join.simps(1))
next
  case False
  then have "join '','' (map itoa xs) = join '','' (map itoa ys) \<longleftrightarrow> map itoa xs = map itoa ys"
    by (intro join_inj) (auto simp: itoa_no_comma)
  then show ?thesis
    by (simp add: joinInts_def inj_map_eq_map inj_def itoa_inj)
qed

section \<open>Runs\<close>

datatype bc_event = BcTx int | BcRead string | BcWrite string string

fun bc_step :: "bc_event \<Rightarrow> BlockContextTracker \<Rightarrow> BlockContextTracker" where
  "bc_step (BcTx i) t = bt_SetCurrentTx i t"
| "bc_step (BcRead f) t = snd (ReadField f t)"
| "bc_step (BcWrite f v) t = WriteField f v t"

text \<open>The specification, over the history with the newest event first.\<close>

fun bc_tx :: "bc_event list \<Rightarrow> int" where
  "bc_tx [] = -1"
| "bc_tx (BcTx i # h) = i"
| "bc_tx (e # h) = bc_tx h"

fun bc_value :: "(string \<rightharpoonup> string) \<Rightarrow> string \<Rightarrow> bc_event list \<Rightarrow> string option" where
  "bc_value initial f [] = initial f"
| "bc_value initial f (BcWrite g v # h) = (if g = f then Some v else bc_value initial f h)"
| "bc_value initial f (e # h) = bc_value initial f h"

text \<open>Every read of \<open>f\<close> by a transaction since the last write of \<open>f\<close>, oldest first.\<close>

fun bc_reads :: "(string \<rightharpoonup> string) \<Rightarrow> string \<Rightarrow> bc_event list \<Rightarrow> int list" where
  "bc_reads initial f [] = []"
| "bc_reads initial f (BcTx i # h) = bc_reads initial f h"
| "bc_reads initial f (BcWrite g v # h) = (if g = f then [] else bc_reads initial f h)"
| "bc_reads initial f (BcRead g # h) =
     bc_reads initial f h @
       (if g = f \<and> 0 \<le> bc_tx h \<and> bc_value initial f h \<noteq> None then [bc_tx h] else [])"

fun bc_mutations :: "(string \<rightharpoonup> string) \<Rightarrow> bc_event list \<Rightarrow> BlockContextMutation list" where
  "bc_mutations initial [] = []"
| "bc_mutations initial (BcWrite f v # h) = bc_mutations initial h @
     [\<lparr>bm_Field = f, bm_Before = (case bc_value initial f h of None \<Rightarrow> '''' | Some x \<Rightarrow> x), bm_After = v,
       bm_WriterTx = bc_tx h, bm_ReaderTxs = remdups_adj (bc_reads initial f h)\<rparr>]"
| "bc_mutations initial (e # h) = bc_mutations initial h"

definition bc_abs :: "(string \<rightharpoonup> string) \<Rightarrow> bc_event list \<Rightarrow> BlockContextTracker" where
  "bc_abs initial h = \<lparr>
     bt_fields = (\<lambda>f. map_option (\<lambda>v. \<lparr>bf_value = v, bf_readers = remdups_adj (bc_reads initial f h)\<rparr>)
                        (bc_value initial f h)),
     bt_currentTx = bc_tx h, bt_mutations = bc_mutations initial h\<rparr>"

lemma bc_value_None_reads: "bc_value initial f h = None \<Longrightarrow> bc_reads initial f h = []"
  by (induction h rule: bc_reads.induct) (auto split: if_splits)

lemma remdups_adj_snoc:
  "remdups_adj (xs @ [x]) =
     (if xs = [] \<or> last xs \<noteq> x then remdups_adj xs @ [x] else remdups_adj xs)"
proof (cases xs rule: rev_cases)
  case (snoc ys y)
  then show ?thesis by (simp add: remdups_adj_append_two)
qed simp

lemma remdups_adj_Nil_iff: "remdups_adj xs = [] \<longleftrightarrow> xs = []"
  by (metis remdups_adj.simps(1) set_empty2 remdups_adj_set)

lemma bc_step_read: "bc_step (BcRead g) (bc_abs initial h) = bc_abs initial (BcRead g # h)"
proof (cases "bc_value initial g h")
  case None
  then show ?thesis by (auto simp: bc_abs_def ReadField_def fun_eq_iff)
next
  case (Some v)
  then show ?thesis
    by (auto simp: bc_abs_def ReadField_def fun_eq_iff remdups_adj_snoc remdups_adj_Nil_iff last_remdups_adj)
qed

lemma bc_step_write: "bc_step (BcWrite g v) (bc_abs initial h) = bc_abs initial (BcWrite g v # h)"
  by (auto simp: bc_abs_def WriteField_def fun_eq_iff bc_value_None_reads split: option.split)

lemma bc_step_tx: "bc_step (BcTx i) (bc_abs initial h) = bc_abs initial (BcTx i # h)"
  by (simp add: bc_abs_def bt_SetCurrentTx_def fun_eq_iff)

lemma bc_run: "foldr bc_step h (bt_Reset initial t) = bc_abs initial h"
proof (induction h)
  case Nil
  show ?case by (cases t) (simp add: bt_Reset_def bc_abs_def fun_eq_iff)
next
  case (Cons e h)
  then show ?case using bc_step_read bc_step_write bc_step_tx by (cases e) (simp_all del: bc_step.simps)
qed

lemma bc_reads_iff:
  "i \<in> set (bc_reads initial f h) \<longleftrightarrow>
     0 \<le> i \<and> (\<exists>h3 h4. h = h3 @ BcRead f # h4 \<and> (\<forall>v. BcWrite f v \<notin> set h3) \<and>
        bc_tx h4 = i \<and> bc_value initial f h4 \<noteq> None)"
proof (induction h)
  case (Cons e h)
  have split: "(\<exists>h3 h4. e # h = h3 @ BcRead f # h4 \<and> (\<forall>v. BcWrite f v \<notin> set h3) \<and> P h4) \<longleftrightarrow>
      (e = BcRead f \<and> P h) \<or>
      ((\<forall>v. e \<noteq> BcWrite f v) \<and> (\<exists>h3 h4. h = h3 @ BcRead f # h4 \<and> (\<forall>v. BcWrite f v \<notin> set h3) \<and> P h4))"
    (is "?L \<longleftrightarrow> ?R") for P
  proof
    assume ?L
    then obtain h3 h4 where h: "e # h = h3 @ BcRead f # h4" "\<forall>v. BcWrite f v \<notin> set h3" "P h4"
      by blast
    then show ?R by (cases h3) auto
  next
    assume ?R
    then show ?L
    proof (elim disjE conjE exE)
      assume "e = BcRead f" "P h"
      then show ?thesis by (intro exI [of _ "[]"] exI [of _ h]) simp
    next
      fix h3 h4
      assume "\<forall>v. e \<noteq> BcWrite f v" "h = h3 @ BcRead f # h4" "\<forall>v. BcWrite f v \<notin> set h3" "P h4"
      then show ?thesis by (intro exI [of _ "e # h3"] exI [of _ h4]) auto
    qed
  qed
  define Q where "Q g \<longleftrightarrow> (\<exists>h3 h4. g = h3 @ BcRead f # h4 \<and> (\<forall>v. BcWrite f v \<notin> set h3) \<and>
      bc_tx h4 = i \<and> bc_value initial f h4 \<noteq> None)" for g
  have "Q (e # h) \<longleftrightarrow> (e = BcRead f \<and> bc_tx h = i \<and> bc_value initial f h \<noteq> None) \<or>
      ((\<forall>v. e \<noteq> BcWrite f v) \<and> Q h)"
    unfolding Q_def by (rule split)
  moreover have "i \<in> set (bc_reads initial f h) \<longleftrightarrow> 0 \<le> i \<and> Q h"
    unfolding Q_def by (rule Cons)
  ultimately show ?case
    unfolding Q_def [symmetric] by (cases e) auto
qed simp

section \<open>Properties\<close>

text \<open>C26. From any \<open>Reset\<close> (of a fresh or of a used tracker), whatever sequence of transaction switches,
  reads and writes follows: the mutations reported are the history's writes in order, each with the value
  the field had before, the transaction that wrote and the readers since the field's previous write; and
  a read returns the value last written, the initial value of an unwritten field, or the empty string.\<close>

theorem block_context_refines_history:
  "BlockContextMutations (foldr bc_step h (bt_Reset initial t)) = bc_mutations initial h \<and>
   fst (ReadField f (foldr bc_step h (bt_Reset initial t))) =
     (case bc_value initial f h of None \<Rightarrow> '''' | Some v \<Rightarrow> v)"
  unfolding bc_run
  by (auto simp: bc_abs_def BlockContextMutations_def ReadField_def split: option.split)

text \<open>The readers a mutation blames are exactly the transactions that read the field between its
  previous write (or the reset) and this one. A read outside a transaction does not count, and neither
  does a read of a field that had no value at that time.\<close>

theorem block_context_readers_exact:
  "i \<in> set (bm_ReaderTxs (last (BlockContextMutations
       (foldr bc_step (BcWrite f v # h) (NewBlockContextTracker initial))))) \<longleftrightarrow>
     0 \<le> i \<and> (\<exists>h3 h4. h = h3 @ BcRead f # h4 \<and> (\<forall>w. BcWrite f w \<notin> set h3) \<and>
        bc_tx h4 = i \<and> bc_value initial f h4 \<noteq> None)"
  unfolding NewBlockContextTracker_def bc_run bc_reads_iff [symmetric]
  by (simp add: bc_abs_def BlockContextMutations_def)

end
