(* ===== verification/Observer.thy ===== *)
theory Observer
  imports Go_Prelude
begin

text \<open>
  \<open>compare/observer.go\<close>, \<open>compare/mutation.go\<close>, \<open>compare/lifecycle.go\<close>: the observer that collects
  the keys each transaction writes and the changes of state outside the KV store. The memory of the
  application the trackers look at is a type variable \<open>'w\<close> (the world); a \<open>MutationTracker\<close> is its
  name, its snapshot of the world and, where the tracker also is a \<open>TxIndexSetter\<close>, that method. A
  method of the observer that takes snapshots gets the world of that moment. A set of written keys is
  the list of the keys of the Go map. Negative indices are out of range and panic, as in Go.
\<close>

record MutationRecord =
  mr_Tracker :: string
  mr_Before :: bytes
  mr_After :: bytes

record 'w MutationTracker =
  tk_Name :: string
  tk_Snapshot :: "'w \<Rightarrow> bytes"
  tk_Setter :: "(int \<Rightarrow> 'w \<Rightarrow> 'w) option"

record 'w BlockObserver =
  ob_writeSets :: "string list list"
  ob_trackers :: "'w MutationTracker list"
  ob_snapshots :: "bytes list list"
  ob_blockSnapshots :: "bytes list"
  ob_mutSets :: "MutationRecord list list"
  ob_txSetters :: "(int \<Rightarrow> 'w \<Rightarrow> 'w) list"

definition NewBlockObserver :: "nat \<Rightarrow> 'w MutationTracker list \<Rightarrow> 'w BlockObserver" where
  "NewBlockObserver txCount trackers =
     \<lparr>ob_writeSets = replicate txCount [],
      ob_trackers = trackers,
      ob_snapshots = replicate txCount (replicate (length trackers) []),
      ob_blockSnapshots = replicate (length trackers) [],
      ob_mutSets = replicate txCount [],
      ob_txSetters = List.map_filter tk_Setter trackers\<rparr>"

definition AddTxSetter :: "(int \<Rightarrow> 'w \<Rightarrow> 'w) \<Rightarrow> 'w BlockObserver \<Rightarrow> 'w BlockObserver" where
  "AddTxSetter s ob = ob\<lparr>ob_txSetters := ob_txSetters ob @ [s]\<rparr>"

text \<open>The snapshots of all trackers in a world, and the records of those that changed.\<close>

definition take_snapshots :: "'w MutationTracker list \<Rightarrow> 'w \<Rightarrow> bytes list" where
  "take_snapshots trackers w = map (\<lambda>t. tk_Snapshot t w) trackers"

definition diff_snapshots :: "'w MutationTracker list \<Rightarrow> bytes list \<Rightarrow> 'w \<Rightarrow> MutationRecord list" where
  "diff_snapshots trackers befores w =
     map (\<lambda>(t, before). \<lparr>mr_Tracker = tk_Name t, mr_Before = before, mr_After = tk_Snapshot t w\<rparr>)
       (filter (\<lambda>(t, before). before \<noteq> tk_Snapshot t w) (zip trackers befores))"

definition OnTxStart :: "int \<Rightarrow> 'w BlockObserver \<times> 'w \<Rightarrow> ('w BlockObserver \<times> 'w) go" where
  "OnTxStart txIndex = (\<lambda>(ob, w).
     go_bind (if txIndex < int (length (ob_writeSets ob))
              then go_update (ob_writeSets ob) txIndex [] else Ok (ob_writeSets ob)) (\<lambda>ws.
     let w' = fold (\<lambda>set_tx. set_tx txIndex) (ob_txSetters ob) w in
     go_bind (if txIndex < int (length (ob_snapshots ob))
              then go_update (ob_snapshots ob) txIndex (take_snapshots (ob_trackers ob) w')
              else Ok (ob_snapshots ob)) (\<lambda>snaps.
     Ok (ob\<lparr>ob_writeSets := ws, ob_snapshots := snaps\<rparr>, w'))))"

definition composite_key :: "string \<Rightarrow> bytes \<Rightarrow> string" where
  "composite_key storeKey key = storeKey @ ''/'' @ hex_encode key"

definition OnKVWrite :: "string \<Rightarrow> bytes \<Rightarrow> int \<Rightarrow> 'w BlockObserver \<Rightarrow> 'w BlockObserver go" where
  "OnKVWrite storeKey key txIndex ob =
     (if txIndex < int (length (ob_writeSets ob))
      then go_bind (go_nth (ob_writeSets ob) txIndex) (\<lambda>m.
           go_bind (go_update (ob_writeSets ob) txIndex (List.insert (composite_key storeKey key) m)) (\<lambda>ws.
           Ok (ob\<lparr>ob_writeSets := ws\<rparr>)))
      else Ok ob)"

definition OnTxEnd :: "int \<Rightarrow> 'w BlockObserver \<Rightarrow> 'w \<Rightarrow> 'w BlockObserver go" where
  "OnTxEnd txIndex ob w =
     (if int (length (ob_snapshots ob)) \<le> txIndex \<or> ob_trackers ob = [] then Ok ob
      else go_bind (go_nth (ob_snapshots ob) txIndex) (\<lambda>befores.
           go_bind (go_nth (ob_mutSets ob) txIndex) (\<lambda>muts.
           go_bind (go_update (ob_mutSets ob) txIndex
                      (muts @ diff_snapshots (ob_trackers ob) befores w)) (\<lambda>ms.
           Ok (ob\<lparr>ob_mutSets := ms\<rparr>)))))"

definition TxWriteSet :: "'w BlockObserver \<Rightarrow> int \<Rightarrow> string list go" where
  "TxWriteSet ob txIndex =
     (if int (length (ob_writeSets ob)) \<le> txIndex then Ok []
      else go_bind (go_nth (ob_writeSets ob) txIndex) (\<lambda>m. Ok (sort m)))"

definition TxMutations :: "'w BlockObserver \<Rightarrow> int \<Rightarrow> MutationRecord list go" where
  "TxMutations ob txIndex =
     (if int (length (ob_mutSets ob)) \<le> txIndex then Ok [] else go_nth (ob_mutSets ob) txIndex)"

definition AddBlockMutation :: "MutationRecord \<Rightarrow> 'w BlockObserver \<Rightarrow> 'w BlockObserver" where
  "AddBlockMutation m ob =
     (if ob_mutSets ob \<noteq> [] then ob\<lparr>ob_mutSets := (ob_mutSets ob)[0 := ob_mutSets ob ! 0 @ [m]]\<rparr>
      else ob)"

definition CaptureBeforeBlock :: "'w BlockObserver \<Rightarrow> 'w \<Rightarrow> 'w BlockObserver" where
  "CaptureBeforeBlock ob w =
     (if ob_trackers ob = [] \<or> ob_blockSnapshots ob = [] then ob
      else ob\<lparr>ob_blockSnapshots := take_snapshots (ob_trackers ob) w\<rparr>)"

definition CaptureAfterBlock :: "'w BlockObserver \<Rightarrow> 'w \<Rightarrow> 'w BlockObserver" where
  "CaptureAfterBlock ob w =
     (if ob_trackers ob = [] \<or> ob_mutSets ob = [] \<or> ob_blockSnapshots ob = [] then ob
      else fold AddBlockMutation (diff_snapshots (ob_trackers ob) (ob_blockSnapshots ob) w) ob)"

section \<open>Well-formed observers\<close>

definition ob_wf :: "'w BlockObserver \<Rightarrow> bool" where
  "ob_wf ob \<longleftrightarrow>
     length (ob_snapshots ob) = length (ob_writeSets ob) \<and>
     length (ob_mutSets ob) = length (ob_writeSets ob) \<and>
     length (ob_blockSnapshots ob) = length (ob_trackers ob) \<and>
     list_all (\<lambda>row. length row = length (ob_trackers ob)) (ob_snapshots ob) \<and>
     list_all distinct (ob_writeSets ob)"

lemma go_nth_cases:
  "go_nth xs i = Ok x \<longleftrightarrow> 0 \<le> i \<and> i < int (length xs) \<and> x = xs ! nat i"
  by (auto simp: go_nth_def)

lemma go_update_cases:
  "go_update xs i x = Ok ys \<longleftrightarrow> 0 \<le> i \<and> i < int (length xs) \<and> ys = xs[nat i := x]"
  by (auto simp: go_update_def)

lemmas ob_ok = go_bind_eq_Ok go_nth_cases go_update_cases

lemma NewBlockObserver_wf: "ob_wf (NewBlockObserver n trackers)"
  by (simp add: ob_wf_def NewBlockObserver_def list_all_iff)

section \<open>Runs\<close>

text \<open>An event of a block: a callback of the lifecycle, or the application changing the world.\<close>

datatype 'w ob_event =
  ObStart int | ObWrite string bytes int | ObEnd int | ObApp "'w \<Rightarrow> 'w"

fun ob_step :: "'w ob_event \<Rightarrow> 'w BlockObserver \<times> 'w \<Rightarrow> ('w BlockObserver \<times> 'w) go" where
  "ob_step (ObStart i) (ob, w) = OnTxStart i (ob, w)"
| "ob_step (ObWrite s k i) (ob, w) = go_bind (OnKVWrite s k i ob) (\<lambda>ob'. Ok (ob', w))"
| "ob_step (ObEnd i) (ob, w) = go_bind (OnTxEnd i ob w) (\<lambda>ob'. Ok (ob', w))"
| "ob_step (ObApp f) (ob, w) = Ok (ob, f w)"

text \<open>What no callback touches: the trackers, the block snapshots, the number of transactions.\<close>

definition ob_frame :: "'w BlockObserver \<Rightarrow> 'w MutationTracker list \<times> bytes list \<times> nat" where
  "ob_frame ob = (ob_trackers ob, ob_blockSnapshots ob, length (ob_writeSets ob))"

lemma ob_step_frame:
  assumes "ob_step e s = Ok t"
  shows "ob_frame (fst t) = ob_frame (fst s)"
  using assms
  by (cases e; cases s)
    (auto simp: ob_frame_def OnTxStart_def OnKVWrite_def OnTxEnd_def ob_ok Let_def split: if_splits)

lemma ob_step_wf:
  assumes "ob_step e s = Ok t" "ob_wf (fst s)"
  shows "ob_wf (fst t)"
  using assms
  by (cases e; cases s)
    (auto simp: ob_wf_def OnTxStart_def OnKVWrite_def OnTxEnd_def ob_ok Let_def take_snapshots_def
      list_all_length nth_list_update split: if_splits)

lemma ob_run_frame:
  assumes "go_fold ob_step es s = Ok t"
  shows "ob_frame (fst t) = ob_frame (fst s)"
  using go_fold_invariant [OF assms, of "\<lambda>u. ob_frame (fst u) = ob_frame (fst s)"] ob_step_frame
  by fastforce

lemma ob_run_wf: "go_fold ob_step es s = Ok t \<Longrightarrow> ob_wf (fst s) \<Longrightarrow> ob_wf (fst t)"
  by (rule go_fold_invariant [where I = "\<lambda>u. ob_wf (fst u)"]) (auto dest: ob_step_wf)

text \<open>Adding records one by one appends them to the slot of transaction 0.\<close>

lemma fold_AddBlockMutation:
  "ob_mutSets ob \<noteq> [] \<Longrightarrow>
   fold AddBlockMutation ms ob = ob\<lparr>ob_mutSets := (ob_mutSets ob)[0 := ob_mutSets ob ! 0 @ ms]\<rparr>"
proof (induction ms arbitrary: ob)
  case Nil
  then show ?case by (simp add: list_update_id)
next
  case (Cons m ms)
  have "ob_mutSets (AddBlockMutation m ob) \<noteq> []"
    using Cons.prems by (simp add: AddBlockMutation_def)
  from Cons.IH [OF this] show ?case
    using Cons.prems by (simp add: AddBlockMutation_def)
qed

lemma diff_take_snapshots:
  "diff_snapshots trackers (take_snapshots trackers w0) w1 =
     map (\<lambda>t. \<lparr>mr_Tracker = tk_Name t, mr_Before = tk_Snapshot t w0, mr_After = tk_Snapshot t w1\<rparr>)
       (filter (\<lambda>t. tk_Snapshot t w0 \<noteq> tk_Snapshot t w1) trackers)"
  by (induction trackers) (auto simp: diff_snapshots_def take_snapshots_def)

section \<open>Write sets\<close>

text \<open>The contract of a \<open>WriteSetProvider\<close>: each transaction's keys, sorted and without repetition.
  Two such providers agree on a transaction exactly when it wrote the same set of keys.\<close>

locale write_set_provider =
  fixes write_set :: "'s \<Rightarrow> int \<Rightarrow> string list go"
    and ok :: "'s \<Rightarrow> bool"
  assumes sorted_ws: "ok s \<Longrightarrow> write_set s i = Ok ks \<Longrightarrow> sorted_wrt (<) ks"
begin

lemma same_keys:
  assumes "ok s" "ok t" "write_set s i = Ok ks" "write_set t j = Ok ls"
  shows "ks = ls \<longleftrightarrow> set ks = set ls"
  using sorted_ws [OF assms(1,3)] sorted_ws [OF assms(2,4)]
  by (metis strict_sorted_equal)

end

lemma TxWriteSet_sorted:
  assumes "ob_wf ob" "TxWriteSet ob i = Ok ks"
  shows "sorted_wrt (<) ks"
  using assms
  by (auto simp: TxWriteSet_def ob_ok ob_wf_def list_all_length strict_sorted_iff split: if_splits)

interpretation observer_ws: write_set_provider TxWriteSet ob_wf
  by unfold_locales (rule TxWriteSet_sorted)

text \<open>The keys of a transaction among a list of writes.\<close>

definition keys_written :: "(string \<times> bytes \<times> int) list \<Rightarrow> int \<Rightarrow> string set" where
  "keys_written writes i = {composite_key s k |s k. (s, k, i) \<in> set writes}"

definition kv_writes :: "(string \<times> bytes \<times> int) list \<Rightarrow> 'w BlockObserver \<Rightarrow> 'w BlockObserver go" where
  "kv_writes = go_fold (\<lambda>(s, k, i) ob. OnKVWrite s k i ob)"

lemma keys_written_Cons:
  "keys_written ((s, k, j) # writes) i =
     (if i = j then {composite_key s k} else {}) \<union> keys_written writes i"
  by (auto simp: keys_written_def)

lemma kv_writes_sets:
  assumes "\<forall>(s, k, i) \<in> set writes. 0 \<le> i"
  shows "\<exists>ob'. kv_writes writes ob = Ok ob' \<and> length (ob_writeSets ob') = length (ob_writeSets ob) \<and>
    (\<forall>i < length (ob_writeSets ob). set (ob_writeSets ob' ! i) =
       set (ob_writeSets ob ! i) \<union> keys_written writes (int i))"
  using assms
proof (induction writes arbitrary: ob)
  case Nil
  then show ?case by (simp add: kv_writes_def keys_written_def)
next
  case (Cons w writes)
  obtain s k j where w: "w = (s, k, j)" by (cases w)
  have j: "0 \<le> j" using Cons.prems by (simp add: w)
  define ob1 where "ob1 = (if j < int (length (ob_writeSets ob))
      then ob\<lparr>ob_writeSets := (ob_writeSets ob)[nat j := List.insert (composite_key s k) (ob_writeSets ob ! nat j)]\<rparr>
      else ob)"
  have step: "OnKVWrite s k j ob = Ok ob1"
    using j by (simp add: OnKVWrite_def go_nth_def go_update_def ob1_def)
  have len: "length (ob_writeSets ob1) = length (ob_writeSets ob)" by (simp add: ob1_def)
  have sets: "set (ob_writeSets ob1 ! i) =
      set (ob_writeSets ob ! i) \<union> (if int i = j then {composite_key s k} else {})"
    if "i < length (ob_writeSets ob)" for i
    using that j by (auto simp: ob1_def nth_list_update)
  obtain ob' where ob': "kv_writes writes ob1 = Ok ob'" "length (ob_writeSets ob') = length (ob_writeSets ob1)"
      "\<forall>i < length (ob_writeSets ob1). set (ob_writeSets ob' ! i) =
         set (ob_writeSets ob1 ! i) \<union> keys_written writes (int i)"
    using Cons by force
  have "kv_writes (w # writes) ob = Ok ob'"
    using ob'(1) by (simp add: kv_writes_def w step)
  then show ?case
    using ob' sets by (auto simp: len w keys_written_Cons)
qed

lemma kv_writes_wf:
  assumes "kv_writes writes ob = Ok ob'" "ob_wf ob"
  shows "ob_wf ob'"
  using assms(1) [unfolded kv_writes_def] assms(2)
proof (rule go_fold_invariant)
  fix e and s t :: "'w BlockObserver"
  assume a: "(\<lambda>(s, k, i) ob. OnKVWrite s k i ob) e s = Ok t" "ob_wf s"
  obtain st k i where e: "e = (st, k, i)" by (cases e)
  have "ob_step (ObWrite st k i) (s, undefined) = Ok (t, undefined)" using a(1) by (simp add: e)
  from ob_step_wf [OF this] a(2) show "ob_wf t" by simp
qed

lemma hex_no_slash: "CHR ''/'' \<notin> set (hex_encode bs)"
proof -
  have "CHR ''/'' \<noteq> hex_digit d" if "d < 16" for d
  proof -
    have "of_char (hex_digit d) \<noteq> (47 :: nat)"
      using that by (auto simp: hex_digit_def)
    moreover have "of_char (CHR ''/'') = (47 :: nat)" by simp
    ultimately show ?thesis by metis
  qed
  moreover have "unat b div 16 < 16" for b :: byte
    using unat_byte_less [of b] by (simp add: less_mult_imp_div_less)
  ultimately have "CHR ''/'' \<notin> set (hex_byte b)" for b
    by (simp add: hex_byte_def)
  then show ?thesis by (induction bs) (auto simp: hex_encode_def)
qed

lemma composite_key_inj: "composite_key s k = composite_key t l \<longleftrightarrow> s = t \<and> k = l"
proof -
  have "composite_key s k = composite_key t l \<longleftrightarrow> rev (composite_key s k) = rev (composite_key t l)"
    by simp
  also have "\<dots> \<longleftrightarrow> rev (hex_encode k) = rev (hex_encode l) \<and> rev s = rev t"
    using append_sep_eq [of "CHR ''/''" "rev (hex_encode k)" "rev (hex_encode l)" "rev s" "rev t"]
    by (simp add: composite_key_def hex_no_slash)
  finally show ?thesis by (auto simp: hex_encode_inj)
qed

section \<open>The callbacks of a transaction\<close>

lemma OnTxStart_in_range:
  assumes "ob_wf ob" "0 \<le> i" "i < int (length (ob_writeSets ob))"
  shows "OnTxStart i (ob, w) = (let w' = fold (\<lambda>set_tx. set_tx i) (ob_txSetters ob) w in
    Ok (ob\<lparr>ob_writeSets := (ob_writeSets ob)[nat i := []],
           ob_snapshots := (ob_snapshots ob)[nat i := take_snapshots (ob_trackers ob) w']\<rparr>, w'))"
  using assms by (simp add: Let_def OnTxStart_def go_update_def ob_wf_def)

lemma OnTxEnd_in_range:
  assumes "ob_wf ob" "0 \<le> i" "i < int (length (ob_writeSets ob))"
  shows "OnTxEnd i ob w =
    Ok (ob\<lparr>ob_mutSets := (ob_mutSets ob)[nat i :=
          ob_mutSets ob ! nat i @ diff_snapshots (ob_trackers ob) (ob_snapshots ob ! nat i) w]\<rparr>)"
  using assms by (auto simp: OnTxEnd_def go_update_def go_nth_def ob_wf_def diff_snapshots_def)

definition callbacks :: "nat \<Rightarrow> 'w ob_event list" where
  "callbacks n = concat (map (\<lambda>i. [ObStart (int i), ObEnd (int i)]) [0..<n])"

lemma callbacks_Suc: "callbacks (Suc n) = callbacks n @ [ObStart (int n), ObEnd (int n)]"
  by (simp add: callbacks_def)

lemma go_fold_append: "go_fold f (xs @ ys) s = go_bind (go_fold f xs s) (go_fold f ys)"
proof (induction xs arbitrary: s)
  case (Cons x xs)
  then have "go_fold f (xs @ ys) = (\<lambda>s. go_bind (go_fold f xs s) (go_fold f ys))" by (simp add: fun_eq_iff)
  then show ?case by (simp add: go_bind_assoc)
qed simp

lemma callbacks_erase:
  assumes "ob_wf ob" "n \<le> length (ob_writeSets ob)"
  shows "\<exists>ob' w'. go_fold ob_step (callbacks n) (ob, w) = Ok (ob', w') \<and> ob_wf ob' \<and>
    length (ob_writeSets ob') = length (ob_writeSets ob) \<and> (\<forall>i < n. ob_writeSets ob' ! i = [])"
  using assms(2)
proof (induction n)
  case 0
  then show ?case using assms(1) by (simp add: callbacks_def)
next
  case (Suc n)
  then obtain ob1 w1 where ob1: "go_fold ob_step (callbacks n) (ob, w) = Ok (ob1, w1)" "ob_wf ob1"
      "length (ob_writeSets ob1) = length (ob_writeSets ob)" "\<forall>i < n. ob_writeSets ob1 ! i = []"
    by auto
  have n: "int n < int (length (ob_writeSets ob1))" using Suc.prems ob1(3) by simp
  obtain ob2 w2 where start: "OnTxStart (int n) (ob1, w1) = Ok (ob2, w2)"
      and ws2: "ob_writeSets ob2 = (ob_writeSets ob1)[n := []]"
    using OnTxStart_in_range [OF ob1(2) _ n] by (simp add: Let_def)
  have wf2: "ob_wf ob2" using ob_step_wf [of "ObStart (int n)" "(ob1, w1)" "(ob2, w2)"] start ob1(2) by simp
  have n2: "int n < int (length (ob_writeSets ob2))" using n ws2 by simp
  obtain ob3 where end_tx: "OnTxEnd (int n) ob2 w2 = Ok ob3" and ws3: "ob_writeSets ob3 = ob_writeSets ob2"
    using OnTxEnd_in_range [OF wf2 _ n2, of w2] by simp
  have wf3: "ob_wf ob3" using ob_step_wf [of "ObEnd (int n)" "(ob2, w2)" "(ob3, w2)"] end_tx wf2 by simp
  have "go_fold ob_step (callbacks (Suc n)) (ob, w) = Ok (ob3, w2)"
    using ob1(1) start end_tx by (simp add: callbacks_Suc go_fold_append)
  moreover have "\<forall>i < Suc n. ob_writeSets ob3 ! i = []"
    using ob1(4) n by (auto simp: ws3 ws2 nth_list_update less_Suc_eq)
  ultimately show ?case using wf3 ob1(3) by (auto simp: ws3 ws2)
qed

lemma snapshot_kept:
  assumes "go_fold ob_step es s = Ok t" "ObStart (int i) \<notin> set es"
  shows "i < length (ob_snapshots (fst s)) \<Longrightarrow>
    i < length (ob_snapshots (fst t)) \<and> ob_snapshots (fst t) ! i = ob_snapshots (fst s) ! i"
  using assms
proof (induction es arbitrary: s)
  case (Cons e es)
  then obtain u where u: "ob_step e s = Ok u" "go_fold ob_step es u = Ok t"
    by (cases "ob_step e s") auto
  have "i < length (ob_snapshots (fst u)) \<and> ob_snapshots (fst u) ! i = ob_snapshots (fst s) ! i"
    using u(1) Cons.prems(1,3)
    by (cases e; cases s)
      (auto simp: OnTxStart_def OnKVWrite_def OnTxEnd_def ob_ok Let_def nth_list_update split: if_splits)
  then show ?case using Cons.IH [OF _ u(2)] Cons.prems(3) by simp
qed simp

section \<open>Properties\<close>

text \<open>C6. The write sets of a fresh observer do not depend on how the goroutines of a parallel run
  interleave: after any sequence of \<open>OnKVWrite\<close> calls none panics, and each transaction's write set is
  the sorted set of the keys that transaction wrote (empty for an index out of range). The composite
  keys separate all (store, key) pairs.\<close>

theorem write_sets_interleaving:
  assumes "\<forall>(s, k, i) \<in> set writes. 0 \<le> i"
  shows "(\<exists>ob. kv_writes writes (NewBlockObserver n trackers) = Ok ob \<and>
      (\<forall>i. TxWriteSet ob (int i) =
         Ok (if i < n then sorted_list_of_set (keys_written writes (int i)) else []))) \<and>
    (composite_key s k = composite_key t l \<longleftrightarrow> s = t \<and> k = l)"
proof
  obtain ob where ob: "kv_writes writes (NewBlockObserver n trackers) = Ok ob"
      "length (ob_writeSets ob) = n" "\<forall>i < n. set (ob_writeSets ob ! i) = keys_written writes (int i)"
    using kv_writes_sets [OF assms, of "NewBlockObserver n trackers"] by (auto simp: NewBlockObserver_def)
  have "ob_wf ob" using kv_writes_wf [OF ob(1)] NewBlockObserver_wf by blast
  then have "\<forall>i < n. distinct (ob_writeSets ob ! i)" by (simp add: ob_wf_def list_all_length ob(2))
  then have "TxWriteSet ob (int i) =
      Ok (if i < n then sorted_list_of_set (keys_written writes (int i)) else [])" for i
    using ob by (simp add: TxWriteSet_def go_nth_def sort_distinct_set)
  then show "\<exists>ob. kv_writes writes (NewBlockObserver n trackers) = Ok ob \<and>
      (\<forall>i. TxWriteSet ob (int i) =
         Ok (if i < n then sorted_list_of_set (keys_written writes (int i)) else []))"
    using ob(1) by blast
qed (rule composite_key_inj)

theorem write_sets_interleaving_witness:
  "\<exists>ob. kv_writes [(''bank'', [1], 1), (''acc'', [2], 0), (''acc'', [3], 1)]
        (NewBlockObserver 2 ([] :: unit MutationTracker list)) = Ok ob \<and>
     TxWriteSet ob 1 = Ok (sorted_list_of_set
       (keys_written [(''bank'', [1], 1), (''acc'', [2], 0), (''acc'', [3], 1)] 1))"
proof -
  let ?ws = "[(''bank'', [1], 1), (''acc'', [2], 0), (''acc'', [3], 1)]"
  have "\<forall>(s, k, i) \<in> set ?ws. (0 :: int) \<le> i" by simp
  then obtain ob where "kv_writes ?ws (NewBlockObserver 2 ([] :: unit MutationTracker list)) = Ok ob"
      "\<forall>i. TxWriteSet ob (int i) =
         Ok (if i < 2 then sorted_list_of_set (keys_written ?ws (int i)) else [])"
    using write_sets_interleaving [of ?ws 2 "[] :: unit MutationTracker list"] by blast
  moreover from this(2) have "TxWriteSet ob (int 1) = Ok (sorted_list_of_set (keys_written ?ws (int 1)))"
    by (simp only: one_less_numeral_iff semiring_norm if_True)
  ultimately show ?thesis by (intro exI [of _ ob] conjI) (simp_all only: of_nat_1)
qed

text \<open>Callbacks after the fact erase the write sets: if \<open>OnTxStart\<close> and \<open>OnTxEnd\<close> are called for
  every transaction in a loop after the block has run, which is what the comment on \<open>BlockObserver\<close>
  says the SDK does, then every key recorded during the run is gone: no call panics and every
  transaction's write set is empty, so the write-set dimension can no longer see a difference.\<close>

theorem posthoc_callbacks_erase_write_sets:
  assumes "ob_wf ob"
  shows "\<exists>ob' w'. go_fold ob_step (callbacks (length (ob_writeSets ob))) (ob, w) = Ok (ob', w') \<and>
    (\<forall>i. TxWriteSet ob' (int i) = Ok [])"
proof -
  obtain ob' w' where "go_fold ob_step (callbacks (length (ob_writeSets ob))) (ob, w) = Ok (ob', w')"
      "length (ob_writeSets ob') = length (ob_writeSets ob)"
      "\<forall>i < length (ob_writeSets ob). ob_writeSets ob' ! i = []"
    using callbacks_erase [OF assms order_refl] by blast
  then show ?thesis by (auto simp: TxWriteSet_def go_nth_def)
qed

definition example_observer :: "nat BlockObserver" where
  "example_observer = (NewBlockObserver 1 [])\<lparr>ob_writeSets := [[''bank/01'']]\<rparr>"

theorem posthoc_callbacks_erase_write_sets_witness:
  "TxWriteSet example_observer 0 = Ok [''bank/01''] \<and>
   (\<exists>ob' w'. go_fold ob_step (callbacks (length (ob_writeSets example_observer))) (example_observer, 0) =
       Ok (ob', w') \<and> TxWriteSet ob' 0 = Ok [])"
proof -
  have wf: "ob_wf example_observer"
    by (simp add: ob_wf_def example_observer_def NewBlockObserver_def)
  have "TxWriteSet example_observer 0 = Ok [''bank/01'']"
    by (simp add: TxWriteSet_def example_observer_def NewBlockObserver_def go_nth_def)
  moreover obtain ob' and w' :: nat where
      "go_fold ob_step (callbacks (length (ob_writeSets example_observer))) (example_observer, 0) = Ok (ob', w')"
      and e: "\<forall>i. TxWriteSet ob' (int i) = Ok []"
    using posthoc_callbacks_erase_write_sets [OF wf, of 0] by blast
  moreover have "TxWriteSet ob' 0 = Ok []" using e [rule_format, of 0] by simp
  ultimately show ?thesis by blast
qed

text \<open>C5. Block-level capture is exact and survives the callbacks: with a baseline taken in the world
  \<open>w0\<close>, whatever callbacks and changes of the world follow, \<open>CaptureAfterBlock\<close> in the world \<open>w1\<close> adds
  to transaction 0 one record for each tracker whose snapshot differs between \<open>w0\<close> and \<open>w1\<close>, in the
  trackers' order, and changes no other transaction.\<close>

theorem block_capture_exact:
  assumes "ob_wf ob" "ob_writeSets ob \<noteq> []"
    and "go_fold ob_step es (CaptureBeforeBlock ob w0, w) = Ok (ob2, w2)"
  shows "TxMutations (CaptureAfterBlock ob2 w1) (int i) =
    go_bind (TxMutations ob2 (int i)) (\<lambda>ms. Ok (ms @ (if i \<noteq> 0 then [] else
      map (\<lambda>t. \<lparr>mr_Tracker = tk_Name t, mr_Before = tk_Snapshot t w0, mr_After = tk_Snapshot t w1\<rparr>)
        (filter (\<lambda>t. tk_Snapshot t w0 \<noteq> tk_Snapshot t w1) (ob_trackers ob)))))"
proof -
  let ?ob1 = "CaptureBeforeBlock ob w0"
  have "ob_wf ?ob1"
    using assms(1) by (simp add: ob_wf_def CaptureBeforeBlock_def take_snapshots_def)
  then have wf: "ob_wf ob2" using ob_run_wf [OF assms(3)] by simp
  have "ob_frame ob2 = ob_frame ?ob1" using ob_run_frame [OF assms(3)] by simp
  moreover have "ob_blockSnapshots ?ob1 = take_snapshots (ob_trackers ob) w0"
    using assms(1) by (auto simp: ob_wf_def CaptureBeforeBlock_def take_snapshots_def)
  ultimately have fr: "ob_trackers ob2 = ob_trackers ob" "length (ob_writeSets ob2) = length (ob_writeSets ob)"
      "ob_blockSnapshots ob2 = take_snapshots (ob_trackers ob) w0"
    by (auto simp: ob_frame_def CaptureBeforeBlock_def)
  then have ne: "ob_mutSets ob2 \<noteq> []" using wf assms(2) by (auto simp: ob_wf_def)
  then have "CaptureAfterBlock ob2 w1 = ob2\<lparr>ob_mutSets := (ob_mutSets ob2)[0 := ob_mutSets ob2 ! 0 @
      diff_snapshots (ob_trackers ob) (take_snapshots (ob_trackers ob) w0) w1]\<rparr>"
    using fr wf by (auto simp: CaptureAfterBlock_def fold_AddBlockMutation ob_wf_def diff_snapshots_def
        take_snapshots_def)
  then show ?thesis
    using ne by (auto simp: TxMutations_def go_nth_def diff_take_snapshots nth_list_update)
qed

theorem block_capture_exact_witness:
  "let t = \<lparr>tk_Name = ''n'', tk_Snapshot = (\<lambda>w. w), tk_Setter = None\<rparr>;
       ob2 = snd (0 :: nat, CaptureBeforeBlock (NewBlockObserver 1 [t]) [1])
   in TxMutations (CaptureAfterBlock ob2 [2]) 0 =
        Ok [\<lparr>mr_Tracker = ''n'', mr_Before = [1], mr_After = [2]\<rparr>]"
proof -
  define t :: "bytes MutationTracker" where
    "t = \<lparr>tk_Name = ''n'', tk_Snapshot = (\<lambda>w. w), tk_Setter = None\<rparr>"
  let ?ob = "NewBlockObserver 1 [t]"
  have "ob_writeSets ?ob \<noteq> []" by (simp add: NewBlockObserver_def)
  from block_capture_exact [OF NewBlockObserver_wf this, of "[]" "[1]" "[1]" _ _ "[2]" 0]
  have "TxMutations (CaptureAfterBlock (CaptureBeforeBlock ?ob [1]) [2]) 0 =
      Ok [\<lparr>mr_Tracker = ''n'', mr_Before = [1], mr_After = [2]\<rparr>]"
    by (simp add: NewBlockObserver_def CaptureBeforeBlock_def take_snapshots_def t_def TxMutations_def go_nth_def)
  then show ?thesis by (simp add: t_def Let_def)
qed

text \<open>Per-transaction capture is exact where the callbacks bracket the transaction: the world
  \<open>OnTxStart\<close> leaves is the baseline, and after any events that do not start the same transaction again,
  \<open>OnTxEnd\<close> appends exactly the records of the trackers whose snapshot changed since.\<close>

theorem tx_capture_exact:
  assumes "ob_wf ob" "i < length (ob_writeSets ob)"
    and "OnTxStart (int i) (ob, w) = Ok (ob1, w1)"
    and "go_fold ob_step es (ob1, w1) = Ok (ob2, w2)" and "ObStart (int i) \<notin> set es"
  shows "\<exists>ob3. OnTxEnd (int i) ob2 w2 = Ok ob3 \<and>
    TxMutations ob3 (int i) = go_bind (TxMutations ob2 (int i)) (\<lambda>ms. Ok (ms @
      map (\<lambda>t. \<lparr>mr_Tracker = tk_Name t, mr_Before = tk_Snapshot t w1, mr_After = tk_Snapshot t w2\<rparr>)
        (filter (\<lambda>t. tk_Snapshot t w1 \<noteq> tk_Snapshot t w2) (ob_trackers ob))))"
proof -
  have i: "int i < int (length (ob_writeSets ob))" using assms(2) by simp
  have start: "ob_snapshots ob1 = (ob_snapshots ob)[i := take_snapshots (ob_trackers ob) w1]"
    using assms(3) OnTxStart_in_range [OF assms(1) _ i, of w] by (auto simp: Let_def)
  have wf1: "ob_wf ob1" using ob_step_wf [of "ObStart (int i)" "(ob, w)" "(ob1, w1)"] assms(1,3) by simp
  have wf2: "ob_wf ob2" using ob_run_wf [OF assms(4)] wf1 by simp
  have fr: "ob_frame ob2 = ob_frame ob"
    using ob_run_frame [OF assms(4)] ob_step_frame [of "ObStart (int i)" "(ob, w)" "(ob1, w1)"] assms(3) by simp
  then have tr: "ob_trackers ob2 = ob_trackers ob" and i2: "int i < int (length (ob_writeSets ob2))"
    using assms(2) by (simp_all add: ob_frame_def)
  have "i < length (ob_snapshots ob1)" using assms(1,2) by (simp add: start ob_wf_def)
  then have "ob_snapshots ob2 ! i = take_snapshots (ob_trackers ob) w1"
    using snapshot_kept [OF assms(4,5)] start by simp
  then have "OnTxEnd (int i) ob2 w2 = Ok (ob2\<lparr>ob_mutSets := (ob_mutSets ob2)[i := ob_mutSets ob2 ! i @
      diff_snapshots (ob_trackers ob) (take_snapshots (ob_trackers ob) w1) w2]\<rparr>)"
    using OnTxEnd_in_range [OF wf2 _ i2, of w2] by (simp add: tr)
  moreover have "i < length (ob_mutSets ob2)" using wf2 i2 by (simp add: ob_wf_def)
  ultimately show ?thesis
    by (auto simp: TxMutations_def go_nth_def diff_take_snapshots)
qed

theorem tx_capture_exact_witness:
  "let t = \<lparr>tk_Name = ''n'', tk_Snapshot = (\<lambda>w. w), tk_Setter = None\<rparr>; ob = NewBlockObserver 1 [t]
   in \<exists>ob3. go_fold ob_step [ObStart 0, ObApp (\<lambda>w. w @ [7]), ObEnd 0] (ob, [1]) = Ok (ob3, [1, 7]) \<and>
        TxMutations ob3 0 = Ok [\<lparr>mr_Tracker = ''n'', mr_Before = [1], mr_After = [1, 7]\<rparr>]"
proof -
  define t :: "bytes MutationTracker" where
    "t = \<lparr>tk_Name = ''n'', tk_Snapshot = (\<lambda>w. w), tk_Setter = None\<rparr>"
  define ob where "ob = NewBlockObserver 1 [t]"
  define ob1 where "ob1 = ob\<lparr>ob_writeSets := [[]], ob_snapshots := [[[1]]]\<rparr>"
  have wf: "ob_wf ob" and len: "0 < length (ob_writeSets ob)"
    by (simp_all add: ob_def NewBlockObserver_wf) (simp add: NewBlockObserver_def)
  have start: "OnTxStart (int 0) (ob, [1]) = Ok (ob1, [1])"
    by (simp add: OnTxStart_def ob_def ob1_def NewBlockObserver_def go_update_def take_snapshots_def t_def
        map_filter_simps)
  have app: "go_fold ob_step [ObApp (\<lambda>w. w @ [7])] (ob1, [1]) = Ok (ob1, [1, 7])" by simp
  have ms: "TxMutations ob1 (int 0) = Ok []"
    by (simp add: TxMutations_def ob1_def ob_def NewBlockObserver_def go_nth_def)
  obtain ob3 where "OnTxEnd (int 0) ob1 [1, 7] = Ok ob3"
      "TxMutations ob3 (int 0) = Ok [\<lparr>mr_Tracker = ''n'', mr_Before = [1], mr_After = [1, 7]\<rparr>]"
    using tx_capture_exact [OF wf len start app] ms by (auto simp: ob_def NewBlockObserver_def t_def)
  then have "go_fold ob_step [ObStart 0, ObApp (\<lambda>w. w @ [7]), ObEnd 0] (ob, [1]) = Ok (ob3, [1, 7]) \<and>
      TxMutations ob3 0 = Ok [\<lparr>mr_Tracker = ''n'', mr_Before = [1], mr_After = [1, 7]\<rparr>]"
    using start by simp
  then show ?thesis by (auto simp: t_def ob_def Let_def)
qed

text \<open>The events the observer is made for: indices are not negative; without trackers \<open>OnTxEnd\<close> takes any.\<close>

fun in_domain :: "'w MutationTracker list \<Rightarrow> 'w ob_event \<Rightarrow> bool" where
  "in_domain trackers (ObStart i) \<longleftrightarrow> 0 \<le> i"
| "in_domain trackers (ObWrite s k i) \<longleftrightarrow> 0 \<le> i"
| "in_domain trackers (ObEnd i) \<longleftrightarrow> 0 \<le> i \<or> trackers = []"
| "in_domain trackers (ObApp f) \<longleftrightarrow> True"

lemma ob_step_progress:
  assumes "ob_wf ob"
  shows "case ob_step e (ob, w) of Ok t \<Rightarrow> in_domain (ob_trackers ob) e | Err x \<Rightarrow> False
    | Panic p \<Rightarrow> \<not> in_domain (ob_trackers ob) e"
  using assms
  by (cases e) (auto simp: ob_wf_def OnTxStart_def OnKVWrite_def OnTxEnd_def go_update_def go_nth_def Let_def)

text \<open>C27. The observer is type safe: a block's callbacks, in any order and with the application's own steps
  between them, either all succeed, and then every index was in the domain and the observer is well formed
  with one slot per transaction, or they panic, and then some index was negative. An index past the last
  transaction is ignored.\<close>

theorem observer_type_safe:
  "case go_fold ob_step es (NewBlockObserver n trackers, w) of
     Ok (ob, w') \<Rightarrow> list_all (in_domain trackers) es \<and> ob_wf ob \<and> length (ob_writeSets ob) = n \<and>
       length (ob_snapshots ob) = n \<and> length (ob_mutSets ob) = n \<and> ob_trackers ob = trackers
   | Err x \<Rightarrow> False
   | Panic p \<Rightarrow> \<not> list_all (in_domain trackers) es"
proof -
  have run: "case go_fold ob_step es (ob, w) of
      Ok (ob', w') \<Rightarrow> list_all (in_domain (ob_trackers ob)) es
    | Err x \<Rightarrow> False
    | Panic p \<Rightarrow> \<not> list_all (in_domain (ob_trackers ob)) es" if "ob_wf ob" for ob w
    using that
  proof (induction es arbitrary: ob w)
    case (Cons e es)
    show ?case
    proof (cases "ob_step e (ob, w)")
      case (Ok t)
      obtain ob1 w1 where t: "t = (ob1, w1)" by (cases t)
      have "ob_wf ob1" using ob_step_wf [OF Ok] Cons.prems t by simp
      moreover have "ob_trackers ob1 = ob_trackers ob" using ob_step_frame [OF Ok] t by (simp add: ob_frame_def)
      moreover have "in_domain (ob_trackers ob) e" using ob_step_progress [OF Cons.prems, of e w] Ok by simp
      ultimately show ?thesis using Cons.IH [of ob1 w1] Ok t by (auto split: go.splits)
    qed (use ob_step_progress [OF Cons.prems, of e w] in auto)
  qed simp
  let ?ob = "NewBlockObserver n trackers"
  show ?thesis
  proof (cases "go_fold ob_step es (?ob, w)")
    case (Ok t)
    have "ob_wf (fst t)" using ob_run_wf [OF Ok] NewBlockObserver_wf [of n trackers] by simp
    moreover have "ob_frame (fst t) = ob_frame ?ob" using ob_run_frame [OF Ok] by simp
    ultimately show ?thesis
      using run [OF NewBlockObserver_wf, of n trackers w] Ok
      by (auto simp: ob_wf_def ob_frame_def NewBlockObserver_def split: prod.splits)
  qed (use run [OF NewBlockObserver_wf, of n trackers w] in \<open>auto simp: NewBlockObserver_def\<close>)
qed

end
