(* ===== verification/Sha256.thy ===== *)
theory Sha256
  imports Go_Prelude
begin

text \<open>
  SHA-256 as \<open>crypto/sha256\<close> computes it (FIPS 180-4), on 32-bit words: \<open>compare/finding.go\<close> hashes
  the identity of a finding and \<open>tracker/tracker.go\<close> the state it walks.
\<close>

type_synonym u32 = "32 word"

text \<open>The constants of the standard, by their definition: the first 32 bits of the fractional parts of
  the cube roots of the first 64 primes and of the square roots of the first 8. A root is found bit by
  bit; 36 bits suffice, as the roots are below 16.\<close>

definition int_root :: "nat \<Rightarrow> int \<Rightarrow> int" where
  "int_root k n = foldl (\<lambda>r b. if (r + 2 ^ b) ^ k \<le> n then r + 2 ^ b else r) 0 (rev [0..<37])"

definition frac_root :: "nat \<Rightarrow> int \<Rightarrow> u32" where
  "frac_root k p = word_of_int (int_root k (p * 2 ^ (32 * k)))"

definition sha_primes :: "int list" where
  "sha_primes = filter (\<lambda>p. list_all (\<lambda>d. p mod d \<noteq> 0) [2..p - 1]) [2..311]"

definition sha_K :: "u32 list" where
  "sha_K = map (frac_root 3) sha_primes"

definition sha_init :: "u32 list" where
  "sha_init = map (frac_root 2) [2, 3, 5, 7, 11, 13, 17, 19]"

definition rotr32 :: "nat \<Rightarrow> u32 \<Rightarrow> u32" where
  "rotr32 n w = (drop_bit n w) OR (push_bit (32 - n) w)"

definition be_bytes :: "nat \<Rightarrow> int \<Rightarrow> bytes" where
  "be_bytes k n = map (\<lambda>i. word_of_int (n div 256 ^ (k - 1 - i))) [0..<k]"

definition sha_pad :: "bytes \<Rightarrow> bytes" where
  "sha_pad msg = msg @ [0x80] @ replicate ((119 - length msg mod 64) mod 64) 0 @ be_bytes 8 (8 * int (length msg))"

fun words_of_bytes :: "bytes \<Rightarrow> u32 list" where
  "words_of_bytes (a # b # c # d # rest) =
     word_of_int (((uint a * 256 + uint b) * 256 + uint c) * 256 + uint d) # words_of_bytes rest"
| "words_of_bytes _ = []"

fun sha_schedule :: "nat \<Rightarrow> u32 list \<Rightarrow> u32 list" where
  "sha_schedule 0 ws = ws"
| "sha_schedule (Suc n) ws =
     (let k = length ws; w15 = ws ! (k - 15); w2 = ws ! (k - 2);
          s0 = (rotr32 7 w15 XOR rotr32 18 w15) XOR drop_bit 3 w15;
          s1 = (rotr32 17 w2 XOR rotr32 19 w2) XOR drop_bit 10 w2
      in sha_schedule n (ws @ [ws ! (k - 16) + s0 + ws ! (k - 7) + s1]))"

fun sha_round :: "u32 list \<Rightarrow> u32 \<times> u32 \<Rightarrow> u32 list" where
  "sha_round [a, b, c, d, e, f, g, h] (k, w) =
     (let s1 = (rotr32 6 e XOR rotr32 11 e) XOR rotr32 25 e;
          ch = (e AND f) XOR ((NOT e) AND g);
          t1 = h + s1 + ch + k + w;
          s0 = (rotr32 2 a XOR rotr32 13 a) XOR rotr32 22 a;
          maj = ((a AND b) XOR (a AND c)) XOR (b AND c);
          t2 = s0 + maj
      in [t1 + t2, a, b, c, d + t1, e, f, g])"
| "sha_round st _ = st"

definition sha_block :: "u32 list \<Rightarrow> bytes \<Rightarrow> u32 list" where
  "sha_block st block =
     map2 (+) st (foldl sha_round st (zip sha_K (sha_schedule 48 (words_of_bytes block))))"

definition blocks64 :: "bytes \<Rightarrow> bytes list" where
  "blocks64 bs = map (\<lambda>i. take 64 (drop (64 * i) bs)) [0..<length bs div 64]"

definition sha256 :: "bytes \<Rightarrow> bytes" where
  "sha256 msg = concat (map (\<lambda>w. be_bytes 4 (uint w)) (foldl sha_block sha_init (blocks64 (sha_pad msg))))"

lemma length_be_bytes [simp]: "length (be_bytes k n) = k"
  by (simp add: be_bytes_def)

lemma length_sha_round [simp]: "length (sha_round st kw) = length st"
  by (induction st kw rule: sha_round.induct) (auto simp: Let_def)

lemma length_fold_round: "length (foldl sha_round st kws) = length st"
  by (induction kws arbitrary: st) simp_all

lemma length_sha_block [simp]: "length (sha_block st b) = length st"
  by (simp add: sha_block_def length_fold_round)

lemma length_fold_block: "length (foldl sha_block st bs) = length st"
  by (induction bs arbitrary: st) simp_all

text \<open>The digest has 32 bytes, and the padding fills whole blocks.\<close>

lemma length_sha256 [simp]: "length (sha256 msg) = 32"
proof -
  have "length (concat (map (\<lambda>w. be_bytes 4 (uint w)) ws)) = 4 * length ws" for ws :: "u32 list"
    by (induction ws) simp_all
  then show ?thesis by (simp add: sha256_def length_fold_block sha_init_def)
qed

lemma pad_count: "m < 64 \<Longrightarrow> (119 - m) mod 64 = (if m \<le> 55 then 55 - m else 119 - m)" for m :: nat
  by (simp add: mod_if)

lemma length_sha_pad: "64 dvd length (sha_pad msg)"
proof -
  have len: "length (sha_pad msg) = length msg + (9 + (119 - length msg mod 64) mod 64)"
    by (simp add: sha_pad_def)
  obtain q m where qm: "length msg = 64 * q + m" "m < 64"
    by (metis mod_less_divisor mult_div_mod_eq zero_less_numeral)
  then have "length msg mod 64 = m" by simp
  then have "length (sha_pad msg) = 64 * (q + (if m \<le> 55 then 1 else 2))"
    using pad_count [OF qm(2)] qm by (simp add: len split: if_split)
  then show ?thesis by (metis dvd_triv_left)
qed

end
