(* ===== verification/Compare_Run.thy ===== *)
theory Compare_Run
  imports Conflict Nondet Block_Context Observer Sha256
begin

text \<open>
  \<open>compare/compare.go\<close>, \<open>compare/finding.go\<close>, \<open>compare/result.go\<close>: one block run by the
  oracle and by the probe, and the comparison of what they did, dimension by dimension. The two
  applications, the hook between them and the providers are fields of \<open>Input\<close>, as in the code: functions
  on the world \<open>'w\<close>, which is all the memory they share, so that the order of the calls is part of the
  model. The ABCI types keep the fields the code reads. A nil provider is \<open>None\<close>; the boxed nil of an
  interface does not occur in the model. The character that marks a truncated write set is the UTF-8
  encoding of U+2026.
\<close>

section \<open>Findings\<close>

datatype Dimension =
  DimAppHash | DimErrorCode | DimWriteSet | DimOutOfKVStore | DimBlockContext | DimGas | DimEvents
  | DimNonDeterministic

fun dim_string :: "Dimension \<Rightarrow> string" where
  "dim_string DimAppHash = ''app_hash''"
| "dim_string DimErrorCode = ''error_code''"
| "dim_string DimWriteSet = ''write_set''"
| "dim_string DimOutOfKVStore = ''out_of_kvstore''"
| "dim_string DimBlockContext = ''block_context''"
| "dim_string DimGas = ''gas''"
| "dim_string DimEvents = ''events''"
| "dim_string DimNonDeterministic = ''non_deterministic''"

record Finding =
  f_ID :: string
  f_Height :: int
  f_TxIndex :: int
  f_ProbeIndex :: int
  f_Dimension :: Dimension
  f_Oracle :: string
  f_Probe :: string

definition finding_raw :: "int \<Rightarrow> Dimension \<Rightarrow> int \<Rightarrow> int \<Rightarrow> string" where
  "finding_raw height dm txIdx probeIdx =
     itoa height @ ''|'' @ dim_string dm @ ''|'' @ itoa txIdx @ ''|'' @ itoa probeIdx"

definition FindingID :: "int \<Rightarrow> Dimension \<Rightarrow> int \<Rightarrow> int \<Rightarrow> string" where
  "FindingID height dm txIdx probeIdx =
     hex_encode (take 6 (sha256 (bytes_of_string (finding_raw height dm txIdx probeIdx))))"

definition NewFinding :: "int \<Rightarrow> Dimension \<Rightarrow> int \<Rightarrow> int \<Rightarrow> string \<Rightarrow> string \<Rightarrow> Finding" where
  "NewFinding height dm txIdx probeIdx oracle probe =
     \<lparr>f_ID = FindingID height dm txIdx probeIdx, f_Height = height, f_TxIndex = txIdx,
      f_ProbeIndex = probeIdx, f_Dimension = dm, f_Oracle = oracle, f_Probe = probe\<rparr>"

datatype Verdict = Match | Divergence

record Result =
  r_Verdict :: Verdict
  r_Height :: int
  r_Findings :: "Finding list"
  r_MsgKeys :: "string list"
  r_TxWriteSets :: "string list list"
  r_OracleTxCodes :: "u32 list"
  r_HotKeys :: "HotKeyStat list"
  r_ExecutionRatio :: rat

section \<open>What is compared\<close>

record Event =
  ev_Type :: string
  ev_Attributes :: "(string \<times> string) list"

record ExecTxResult =
  tr_Code :: u32
  tr_GasUsed :: int
  tr_Events :: "Event list"

record Response =
  rs_AppHash :: bytes
  rs_TxResults :: "ExecTxResult list"

record 'w Input =
  in_Oracle :: "'w \<Rightarrow> Response go \<times> 'w"
  in_Probe :: "'w \<Rightarrow> Response go \<times> 'w"
  in_Height :: int
  in_TxCount :: nat
  in_OracleWriteSets :: "('w \<Rightarrow> nat \<Rightarrow> string list) option"
  in_ProbeWriteSets :: "('w \<Rightarrow> nat \<Rightarrow> string list) option"
  in_OracleMutations :: "('w \<Rightarrow> nat \<Rightarrow> MutationRecord list) option"
  in_BlockContextMutations :: "('w \<Rightarrow> BlockContextMutation list) option"
  in_NonDetProvider :: "('w \<Rightarrow> NonDetCall list \<times> 'w) option"
  in_PostOracleHook :: "('w \<Rightarrow> 'w) option"

definition EqualStrSlice :: "string list \<Rightarrow> string list \<Rightarrow> bool" where
  "EqualStrSlice a b =
     (if length a \<noteq> length b then False else list_all (\<lambda>i. a ! i = b ! i) [0..<length a])"

definition format_event :: "Event \<Rightarrow> string" where
  "format_event e = ev_Type e @ '':['' @
     join '','' (map (\<lambda>(k, v). k @ ''='' @ v) (ev_Attributes e)) @ '']''"

definition FormatEvents :: "Event list \<Rightarrow> string" where
  "FormatEvents events =
     (if events = [] then ''(none)'' else join '';'' (map format_event events))"

definition ellipsis :: string where
  "ellipsis = [CHR 0xE2, CHR 0x80, CHR 0xA6]"

definition FormatWriteSet :: "string list \<Rightarrow> string" where
  "FormatWriteSet keys =
     (if keys = [] then ''(empty)''
      else if length keys \<le> 5 then join '','' keys
      else join '','' (take 5 keys) @ '','' @ ellipsis @ ''('' @ nat_digits (length keys) @ '' total)'')"

section \<open>The dimensions, in the order of the code\<close>

definition app_hash_findings :: "int \<Rightarrow> Response \<Rightarrow> Response \<Rightarrow> Finding list" where
  "app_hash_findings height ora prb =
     (if rs_AppHash ora \<noteq> rs_AppHash prb
      then [NewFinding height DimAppHash (-1) 0 (hex_encode (rs_AppHash ora)) (hex_encode (rs_AppHash prb))]
      else [])"

definition txCount :: "Response \<Rightarrow> Response \<Rightarrow> nat" where
  "txCount ora prb = min (length (rs_TxResults ora)) (length (rs_TxResults prb))"

definition code_findings :: "int \<Rightarrow> Response \<Rightarrow> Response \<Rightarrow> Finding list" where
  "code_findings height ora prb = concat (map (\<lambda>i.
     let a = tr_Code (rs_TxResults ora ! i); b = tr_Code (rs_TxResults prb ! i)
     in if a \<noteq> b
        then [NewFinding height DimErrorCode (int i) 0 (nat_digits (unat a)) (nat_digits (unat b))]
        else []) [0..<txCount ora prb])"

definition gas_findings :: "int \<Rightarrow> Response \<Rightarrow> Response \<Rightarrow> Finding list" where
  "gas_findings height ora prb = concat (map (\<lambda>i.
     let a = tr_GasUsed (rs_TxResults ora ! i); b = tr_GasUsed (rs_TxResults prb ! i)
     in if a \<noteq> b then [NewFinding height DimGas (int i) 0 (itoa a) (itoa b)] else [])
     [0..<txCount ora prb])"

definition event_findings :: "int \<Rightarrow> Response \<Rightarrow> Response \<Rightarrow> Finding list" where
  "event_findings height ora prb = concat (map (\<lambda>i.
     let oEvents = FormatEvents (tr_Events (rs_TxResults ora ! i));
         pEvents = FormatEvents (tr_Events (rs_TxResults prb ! i))
     in if oEvents \<noteq> pEvents then [NewFinding height DimEvents (int i) 0 oEvents pEvents] else [])
     [0..<txCount ora prb])"

definition write_set_findings ::
  "int \<Rightarrow> nat \<Rightarrow> (nat \<Rightarrow> string list) option \<Rightarrow> (nat \<Rightarrow> string list) option \<Rightarrow> Finding list" where
  "write_set_findings height n oracleWS probeWS =
     (case (oracleWS, probeWS) of
        (Some ows, Some pws) \<Rightarrow> concat (map (\<lambda>i.
          if \<not> EqualStrSlice (ows i) (pws i)
          then [NewFinding height DimWriteSet (int i) 0 (FormatWriteSet (ows i)) (FormatWriteSet (pws i))]
          else []) [0..<n])
      | _ \<Rightarrow> [])"

definition mutation_findings :: "int \<Rightarrow> nat \<Rightarrow> (nat \<Rightarrow> MutationRecord list) option \<Rightarrow> Finding list" where
  "mutation_findings height n muts =
     (case muts of
        None \<Rightarrow> []
      | Some ms \<Rightarrow> concat (map (\<lambda>i. map (\<lambda>m. NewFinding height DimOutOfKVStore (int i) 0
          (mr_Tracker m @ '':'' @ hex_encode (mr_Before m))
          (mr_Tracker m @ '':'' @ hex_encode (mr_After m))) (ms i)) [0..<n]))"

definition context_finding :: "int \<Rightarrow> BlockContextMutation \<Rightarrow> Finding" where
  "context_finding height m = NewFinding height DimBlockContext (bm_WriterTx m) 0
     (''field='' @ bm_Field m @ '';before='' @ bm_Before m @ '';readers='' @ joinInts (bm_ReaderTxs m))
     (''field='' @ bm_Field m @ '';after='' @ bm_After m @ '';writer=tx'' @ itoa (bm_WriterTx m))"

definition nondet_finding :: "int \<Rightarrow> NonDetCall \<Rightarrow> Finding" where
  "nondet_finding height c =
     (let s = ''category='' @ nd_Category c @ '';call='' @ nd_CallSite c
      in NewFinding height DimNonDeterministic (nd_TxIndex c) 0 s s)"

text \<open>All findings of a block, in the world after the probe, and the world the providers leave (the
  provider of non-deterministic calls drains its buffer).\<close>

definition compare_findings ::
  "'w Input \<Rightarrow> Response \<Rightarrow> Response \<Rightarrow> 'w \<Rightarrow> Finding list \<times> 'w" where
  "compare_findings input ora prb w =
     (let h = in_Height input; n = txCount ora prb;
          (calls, w') = (case in_NonDetProvider input of None \<Rightarrow> ([], w) | Some drain \<Rightarrow> drain w)
      in (app_hash_findings h ora prb @ code_findings h ora prb @ gas_findings h ora prb @
          event_findings h ora prb @
          write_set_findings h n (map_option (\<lambda>f. f w) (in_OracleWriteSets input))
            (map_option (\<lambda>f. f w) (in_ProbeWriteSets input)) @
          mutation_findings h (max n (in_TxCount input)) (map_option (\<lambda>f. f w) (in_OracleMutations input)) @
          (case in_BlockContextMutations input of None \<Rightarrow> [] | Some f \<Rightarrow> map (context_finding h) (f w)) @
          map (nondet_finding h) calls, w'))"

definition block_result :: "int \<Rightarrow> Response \<Rightarrow> Finding list \<Rightarrow> Result" where
  "block_result height ora findings =
     \<lparr>r_Verdict = (if findings \<noteq> [] then Divergence else Match), r_Height = height,
      r_Findings = findings, r_MsgKeys = [], r_TxWriteSets = [],
      r_OracleTxCodes = map tr_Code (rs_TxResults ora), r_HotKeys = [], r_ExecutionRatio = 0\<rparr>"

definition post_oracle :: "'w Input \<Rightarrow> 'w \<Rightarrow> 'w" where
  "post_oracle input w = (case in_PostOracleHook input of None \<Rightarrow> w | Some hook \<Rightarrow> hook w)"

definition Run :: "'w Input \<Rightarrow> 'w \<Rightarrow> Result go \<times> 'w" where
  "Run input w =
     (case in_Oracle input w of
        (Panic p, w1) \<Rightarrow> (Panic p, w1)
      | (Err e, w1) \<Rightarrow> (Err (ErrWrap ''oracle FinalizeBlock'' e), w1)
      | (Ok ora, w1) \<Rightarrow>
         (case in_Probe input (post_oracle input w1) of
            (Panic p, w2) \<Rightarrow> (Panic p, w2)
          | (Err e, w2) \<Rightarrow> (Err (ErrWrap ''probe FinalizeBlock'' e), w2)
          | (Ok prb, w2) \<Rightarrow>
             (case compare_findings input ora prb w2 of
                (findings, w3) \<Rightarrow> (Ok (block_result (in_Height input) ora findings), w3))))"

section \<open>Facts about the parts\<close>

named_theorems finding_defs \<open>definitions of the findings of each dimension\<close>
declare app_hash_findings_def [finding_defs] code_findings_def [finding_defs]
  gas_findings_def [finding_defs] event_findings_def [finding_defs]
  write_set_findings_def [finding_defs] mutation_findings_def [finding_defs]

lemma EqualStrSlice_iff [simp]: "EqualStrSlice a b \<longleftrightarrow> a = b"
  by (auto simp add: EqualStrSlice_def list_all_iff list_eq_iff_nth_eq [of a b])

lemma concat_if_Nil: "concat (map (\<lambda>i. if P i then [f i] else []) xs) = [] \<longleftrightarrow> (\<forall>i \<in> set xs. \<not> P i)"
  by (induction xs) auto

lemma code_findings_Nil:
  "code_findings h ora prb = [] \<longleftrightarrow>
     (\<forall>i < txCount ora prb. tr_Code (rs_TxResults ora ! i) = tr_Code (rs_TxResults prb ! i))"
  by (simp only: code_findings_def Let_def concat_if_Nil) auto

lemma gas_findings_Nil:
  "gas_findings h ora prb = [] \<longleftrightarrow>
     (\<forall>i < txCount ora prb. tr_GasUsed (rs_TxResults ora ! i) = tr_GasUsed (rs_TxResults prb ! i))"
  by (simp only: gas_findings_def Let_def concat_if_Nil) auto

lemma event_findings_Nil:
  "event_findings h ora prb = [] \<longleftrightarrow> (\<forall>i < txCount ora prb.
     FormatEvents (tr_Events (rs_TxResults ora ! i)) = FormatEvents (tr_Events (rs_TxResults prb ! i)))"
  by (simp only: event_findings_def Let_def concat_if_Nil) auto

lemma write_set_findings_Nil:
  "write_set_findings h n ows pws = [] \<longleftrightarrow>
     (\<forall>f g. ows = Some f \<longrightarrow> pws = Some g \<longrightarrow> (\<forall>i < n. f i = g i))"
  by (cases ows; cases pws) (simp_all only: write_set_findings_def concat_if_Nil option.case prod.case, auto)

lemma mutation_findings_Nil:
  "mutation_findings h n muts = [] \<longleftrightarrow> (\<forall>f. muts = Some f \<longrightarrow> (\<forall>i < n. f i = []))"
  by (auto simp: mutation_findings_def split: option.split)

section \<open>The verdict\<close>

text \<open>Oracle and probe did the same, as far as the comparison looks: the common prefix of the
  transaction results, and the providers that are wired.\<close>

definition agree_tx :: "ExecTxResult \<Rightarrow> ExecTxResult \<Rightarrow> bool" where
  "agree_tx a b \<longleftrightarrow> tr_Code a = tr_Code b \<and> tr_GasUsed a = tr_GasUsed b \<and>
     FormatEvents (tr_Events a) = FormatEvents (tr_Events b)"

definition same_block :: "'w Input \<Rightarrow> Response \<Rightarrow> Response \<Rightarrow> 'w \<Rightarrow> bool" where
  "same_block input ora prb w \<longleftrightarrow>
     rs_AppHash ora = rs_AppHash prb \<and>
     (\<forall>i < txCount ora prb. agree_tx (rs_TxResults ora ! i) (rs_TxResults prb ! i)) \<and>
     (\<forall>f g. in_OracleWriteSets input = Some f \<longrightarrow> in_ProbeWriteSets input = Some g \<longrightarrow>
        (\<forall>i < txCount ora prb. f w i = g w i)) \<and>
     (\<forall>f. in_OracleMutations input = Some f \<longrightarrow>
        (\<forall>i < max (txCount ora prb) (in_TxCount input). f w i = [])) \<and>
     (\<forall>f. in_BlockContextMutations input = Some f \<longrightarrow> f w = []) \<and>
     (\<forall>d. in_NonDetProvider input = Some d \<longrightarrow> fst (d w) = [])"

lemma compare_findings_Nil: "fst (compare_findings input ora prb w) = [] \<longleftrightarrow> same_block input ora prb w"
proof -
  have ah: "app_hash_findings h ora prb = [] \<longleftrightarrow> rs_AppHash ora = rs_AppHash prb" for h
    by (simp add: app_hash_findings_def)
  have tx: "(\<forall>i < txCount ora prb. agree_tx (rs_TxResults ora ! i) (rs_TxResults prb ! i)) \<longleftrightarrow>
      code_findings h ora prb = [] \<and> gas_findings h ora prb = [] \<and> event_findings h ora prb = []" for h
    unfolding code_findings_Nil gas_findings_Nil event_findings_Nil agree_tx_def by blast
  have ws: "write_set_findings h n (map_option (\<lambda>f. f w) (in_OracleWriteSets input))
        (map_option (\<lambda>f. f w) (in_ProbeWriteSets input)) = [] \<longleftrightarrow>
      (\<forall>f g. in_OracleWriteSets input = Some f \<longrightarrow> in_ProbeWriteSets input = Some g \<longrightarrow>
        (\<forall>i < n. f w i = g w i))" for h n
    by (auto simp: write_set_findings_Nil)
  have mu: "mutation_findings h n (map_option (\<lambda>f. f w) (in_OracleMutations input)) = [] \<longleftrightarrow>
      (\<forall>f. in_OracleMutations input = Some f \<longrightarrow> (\<forall>i < n. f w i = []))" for h n
    by (auto simp: mutation_findings_Nil)
  have bc: "(case in_BlockContextMutations input of None \<Rightarrow> [] | Some f \<Rightarrow> map (context_finding h) (f w)) = []
      \<longleftrightarrow> (\<forall>f. in_BlockContextMutations input = Some f \<longrightarrow> f w = [])" for h
    by (auto split: option.split)
  have nd: "fst (case in_NonDetProvider input of None \<Rightarrow> ([], w) | Some drain \<Rightarrow> drain w) = [] \<longleftrightarrow>
      (\<forall>d. in_NonDetProvider input = Some d \<longrightarrow> fst (d w) = [])"
    by (auto split: option.split)
  show ?thesis
    unfolding same_block_def tx [of "in_Height input"] ah [symmetric, of "in_Height input"]
      ws [symmetric, of _ "in_Height input"] mu [symmetric, of _ "in_Height input"]
      bc [symmetric, of "in_Height input"] nd [symmetric]
    by (simp add: compare_findings_def Let_def split: prod.split)
qed

lemma Run_Ok:
  assumes "in_Oracle input w = (Ok ora, w1)" "in_Probe input (post_oracle input w1) = (Ok prb, w2)"
  shows "Run input w = (Ok (block_result (in_Height input) ora (fst (compare_findings input ora prb w2))),
    snd (compare_findings input ora prb w2))"
  using assms by (simp add: Run_def split: prod.split)

text \<open>The rank of a dimension is its place in the code.\<close>

fun dim_rank :: "Dimension \<Rightarrow> nat" where
  "dim_rank DimAppHash = 0"
| "dim_rank DimErrorCode = 1"
| "dim_rank DimGas = 2"
| "dim_rank DimEvents = 3"
| "dim_rank DimWriteSet = 4"
| "dim_rank DimOutOfKVStore = 5"
| "dim_rank DimBlockContext = 6"
| "dim_rank DimNonDeterministic = 7"

definition finding_ok :: "int \<Rightarrow> Dimension \<Rightarrow> Finding \<Rightarrow> bool" where
  "finding_ok height d f \<longleftrightarrow> f_Height f = height \<and> f_Dimension f = d \<and> f_ProbeIndex f = 0 \<and>
     f_ID f = FindingID height d (f_TxIndex f) 0"

lemma NewFinding_ok [simp]: "finding_ok h d (NewFinding h d i 0 a b)"
  by (simp add: finding_ok_def NewFinding_def)

lemma NewFinding_tx [simp]: "f_TxIndex (NewFinding h d i p a b) = i"
  by (simp add: NewFinding_def)

lemma list_all_concat_if: "(\<And>i. Q (f i)) \<Longrightarrow> list_all Q (concat (map (\<lambda>i. if P i then [f i] else []) xs))"
  by (induction xs) auto

lemma findings_ok:
  "list_all (finding_ok h DimAppHash) (app_hash_findings h ora prb)"
  "list_all (finding_ok h DimErrorCode) (code_findings h ora prb)"
  "list_all (finding_ok h DimGas) (gas_findings h ora prb)"
  "list_all (finding_ok h DimEvents) (event_findings h ora prb)"
  "list_all (finding_ok h DimWriteSet) (write_set_findings h n ows pws)"
  "list_all (finding_ok h DimOutOfKVStore) (mutation_findings h n muts)"
  "list_all (finding_ok h DimBlockContext) (map (context_finding h) ms)"
  "list_all (finding_ok h DimNonDeterministic) (map (nondet_finding h) cs)"
  by (auto simp only: finding_defs Let_def intro!: list_all_concat_if NewFinding_ok split: option.split)
    (auto simp: list_all_iff context_finding_def nondet_finding_def Let_def)

lemma sorted_map_append:
  "sorted (map r xs) \<Longrightarrow> sorted (map r ys) \<Longrightarrow> (\<And>x y. x \<in> set xs \<Longrightarrow> y \<in> set ys \<Longrightarrow> r x \<le> r y) \<Longrightarrow>
   sorted (map r (xs @ ys))"
  by (auto simp: sorted_append)

lemma sorted_const: "(\<And>x. x \<in> set xs \<Longrightarrow> r x = c) \<Longrightarrow> sorted (map r xs)"
  by (induction xs) auto

lemma sorted_blocks:
  "sorted (map fst ps) \<Longrightarrow> (\<And>k xs x. (k, xs) \<in> set ps \<Longrightarrow> x \<in> set xs \<Longrightarrow> r x = k) \<Longrightarrow>
   sorted (map r (concat (map snd ps)))"
proof (induction ps)
  case (Cons p ps)
  obtain k xs where p: "p = (k, xs)" by (cases p)
  have "r x \<le> r y" if "x \<in> set xs" "(l, ys) \<in> set ps" "y \<in> set ys" for x y l ys
  proof -
    have "r x = k" "r y = l" using Cons.prems(2) that by (auto simp: p)
    moreover have "k \<le> l" using Cons.prems(1) that(2) by (auto simp: p)
    ultimately show ?thesis by simp
  qed
  then have le: "\<And>x y. x \<in> set xs \<Longrightarrow> y \<in> set (concat (map snd ps)) \<Longrightarrow> r x \<le> r y"
    by auto
  have "r x = k" if "x \<in> set xs" for x using Cons.prems(2) [of k xs x] that by (simp add: p)
  then have "sorted (map r xs)" by (rule sorted_const)
  moreover have "sorted (map r (concat (map snd ps)))"
    by (rule Cons.IH) (use Cons.prems in \<open>auto simp: p\<close>)
  ultimately have "sorted (map r (xs @ concat (map snd ps)))"
    using le by (rule sorted_map_append)
  then show ?case by (simp add: p)
qed simp

text \<open>The findings as blocks, one per dimension.\<close>

definition finding_blocks :: "'w Input \<Rightarrow> Response \<Rightarrow> Response \<Rightarrow> 'w \<Rightarrow> (nat \<times> Finding list) list" where
  "finding_blocks input ora prb w =
     (let h = in_Height input; n = txCount ora prb in
      [(0, app_hash_findings h ora prb), (1, code_findings h ora prb), (2, gas_findings h ora prb),
       (3, event_findings h ora prb),
       (4, write_set_findings h n (map_option (\<lambda>f. f w) (in_OracleWriteSets input))
            (map_option (\<lambda>f. f w) (in_ProbeWriteSets input))),
       (5, mutation_findings h (max n (in_TxCount input)) (map_option (\<lambda>f. f w) (in_OracleMutations input))),
       (6, map (context_finding h) (case in_BlockContextMutations input of None \<Rightarrow> [] | Some f \<Rightarrow> f w)),
       (7, map (nondet_finding h)
            (fst (case in_NonDetProvider input of None \<Rightarrow> ([], w) | Some drain \<Rightarrow> drain w)))])"

lemma compare_findings_blocks:
  "fst (compare_findings input ora prb w) = concat (map snd (finding_blocks input ora prb w))"
  by (simp add: compare_findings_def finding_blocks_def Let_def split: prod.split option.split)

lemma ranked_block:
  "list_all (finding_ok h d) fs \<Longrightarrow> dim_rank d = k \<Longrightarrow>
   list_all (\<lambda>f. finding_ok h (f_Dimension f) f \<and> dim_rank (f_Dimension f) = k) fs"
  by (auto simp: list_all_iff finding_ok_def)

lemmas ranked_blocks = findings_ok [THEN ranked_block]

lemma finding_blocks_ok:
  assumes "(k, fs) \<in> set (finding_blocks input ora prb w)" "f \<in> set fs"
  shows "finding_ok (in_Height input) (f_Dimension f) f \<and> dim_rank (f_Dimension f) = k"
proof -
  have "list_all (\<lambda>(k, fs). list_all (\<lambda>f. finding_ok (in_Height input) (f_Dimension f) f \<and>
      dim_rank (f_Dimension f) = k) fs) (finding_blocks input ora prb w)"
    unfolding finding_blocks_def Let_def list.pred_inject prod.case
    by (intro conjI ranked_blocks TrueI) simp_all
  with assms show ?thesis by (auto simp: list_all_iff)
qed

section \<open>The identity of a finding\<close>

lemma itoa_no_bar: "CHR ''|'' \<notin> set (itoa i)"
  using itoa_chars [of "CHR ''|''" i] by (auto simp: is_digit_char_def)

lemma dim_string_no_bar: "CHR ''|'' \<notin> set (dim_string d)"
  by (cases d) simp_all

lemma dim_string_inj: "dim_string d = dim_string e \<longleftrightarrow> d = e"
  by (cases d; cases e) simp_all

lemma finding_raw_inj:
  "finding_raw h d t p = finding_raw h' d' t' p' \<longleftrightarrow> h = h' \<and> d = d' \<and> t = t' \<and> p = p'"
  by (simp add: finding_raw_def append_sep_eq itoa_no_bar dim_string_no_bar dim_string_inj itoa_inj)

section \<open>Events\<close>

text \<open>A string free of the characters that structure a printed event.\<close>

definition plain :: "string \<Rightarrow> bool" where
  "plain s \<longleftrightarrow> set s \<inter> set '':[],;='' = {}"

definition plain_event :: "Event \<Rightarrow> bool" where
  "plain_event e \<longleftrightarrow> plain (ev_Type e) \<and> list_all (\<lambda>(k, v). plain k \<and> plain v) (ev_Attributes e)"

lemma plain_notin: "plain s \<Longrightarrow> c \<in> set '':[],;='' \<Longrightarrow> c \<notin> set s"
  by (auto simp: plain_def)

lemma format_attrs_inj:
  assumes "list_all (\<lambda>(k, v). plain k \<and> plain v) as" "list_all (\<lambda>(k, v). plain k \<and> plain v) bs"
    and "join '','' (map (\<lambda>(k, v). k @ ''='' @ v) as) = join '','' (map (\<lambda>(k, v). k @ ''='' @ v) bs)"
  shows "as = bs"
proof -
  let ?f = "\<lambda>(k, v). k @ ''='' @ v :: string"
  have ne: "join '','' (map ?f xs) = [] \<longleftrightarrow> xs = []" for xs
    by (cases xs) (auto simp: join_Cons split: prod.split)
  have comma: "CHR '','' \<notin> set (?f a)" if "a \<in> set as \<union> set bs" for a
    using assms(1,2) that by (fastforce simp: list_all_iff dest: plain_notin [of _ "CHR '',''"])
  have inj: "?f a = ?f b \<Longrightarrow> a = b" if "a \<in> set as" "b \<in> set bs" for a b
  proof -
    assume eq: "?f a = ?f b"
    obtain k v l u where ab: "a = (k, v)" "b = (l, u)" by (cases a; cases b)
    have "CHR ''='' \<notin> set k" "CHR ''='' \<notin> set l"
      using assms(1,2) that by (fastforce simp: ab list_all_iff dest: plain_notin [of _ "CHR ''=''"])+
    with eq show ?thesis by (simp add: ab append_sep_eq)
  qed
  show ?thesis
  proof (cases "as = [] \<or> bs = []")
    case True
    then show ?thesis using assms(3) ne [of as] ne [of bs] by auto
  next
    case False
    then have "map ?f as = map ?f bs"
      using assms(3) comma join_inj [of "map ?f as" "map ?f bs" "CHR '',''"] by force
    then show ?thesis using inj by (rule list.inj_map_strong [rotated])
  qed
qed

lemma format_event_inj:
  assumes "plain_event a" "plain_event b" "format_event a = format_event b"
  shows "a = b"
proof -
  have "CHR '':'' \<notin> set (ev_Type a)" "CHR '':'' \<notin> set (ev_Type b)"
    using assms(1,2) by (auto simp: plain_event_def dest: plain_notin)
  then have "ev_Type a = ev_Type b" and
      "join '','' (map (\<lambda>(k, v). k @ ''='' @ v) (ev_Attributes a)) =
       join '','' (map (\<lambda>(k, v). k @ ''='' @ v) (ev_Attributes b))"
    using assms(3) by (simp_all add: format_event_def append_sep_eq)
  then show ?thesis
    using format_attrs_inj assms(1,2) by (auto simp: plain_event_def intro: Event.equality)
qed

lemma semicolon_format:
  assumes "plain_event e"
  shows "CHR '';'' \<notin> set (format_event e)"
proof -
  have "c \<notin> set (join [d] xs)" if "c \<noteq> d" "\<forall>x \<in> set xs. c \<notin> set x" for c d :: char and xs
    using that by (induction xs) (auto simp: join_Cons)
  moreover have "\<forall>x \<in> set (map (\<lambda>(k, v). k @ ''='' @ v) (ev_Attributes e)). CHR '';'' \<notin> set x"
    using assms by (fastforce simp: plain_event_def list_all_iff dest: plain_notin [of _ "CHR '';''"])
  ultimately have "CHR '';'' \<notin> set (join '','' (map (\<lambda>(k, v). k @ ''='' @ v) (ev_Attributes e)))"
    by simp
  then show ?thesis
    using assms by (auto simp: format_event_def plain_event_def dest: plain_notin)
qed

lemma colon_format: "CHR '':'' \<in> set (format_event e)"
  by (simp add: format_event_def)

lemma FormatEvents_inj:
  assumes "list_all plain_event es" "list_all plain_event fs" "FormatEvents es = FormatEvents fs"
  shows "es = fs"
proof (cases "es = [] \<or> fs = []")
  case True
  have "CHR '':'' \<in> set (join '';'' (map format_event gs))" if "gs \<noteq> []" for gs
    using that by (cases gs) (auto simp: join_Cons colon_format)
  then have "join '';'' (map format_event gs) \<noteq> ''(none)''" if "gs \<noteq> []" for gs
    using that by fastforce
  then show ?thesis using True assms(3) by (auto simp: FormatEvents_def split: if_splits)
next
  case False
  have "CHR '';'' \<notin> set x" if "x \<in> set (map format_event es) \<union> set (map format_event fs)" for x
    using that assms(1,2) semicolon_format by (auto simp: list_all_iff)
  moreover have "join '';'' (map format_event es) = join '';'' (map format_event fs)"
    using False assms(3) by (simp add: FormatEvents_def)
  moreover have "map format_event es \<noteq> []" "map format_event fs \<noteq> []" using False by auto
  ultimately have "map format_event es = map format_event fs"
    using join_inj [of "map format_event es" "map format_event fs" "CHR '';''"] by blast
  then show ?thesis
    by (rule list.inj_map_strong [rotated]) (use assms(1,2) format_event_inj in \<open>auto simp: list_all_iff\<close>)
qed

section \<open>Properties\<close>

text \<open>C2. The verdict is exact: when both applications finish the block, \<open>Run\<close> returns a result, and
  its verdict is \<open>Match\<close> exactly when it has no finding, exactly when the applications agree on the
  application hash, on code, gas and printed events of every transaction both report, on the write sets
  (where both sides have a provider), and no mutation, no block-context mutation and no
  non-deterministic call was recorded.\<close>

theorem run_verdict_exact:
  assumes "in_Oracle input w = (Ok ora, w1)" "in_Probe input (post_oracle input w1) = (Ok prb, w2)"
  shows "\<exists>r w3. Run input w = (Ok r, w3) \<and> r_Height r = in_Height input \<and>
    r_OracleTxCodes r = map tr_Code (rs_TxResults ora) \<and>
    (r_Verdict r = Match \<longleftrightarrow> r_Findings r = []) \<and> (r_Verdict r = Match \<longleftrightarrow> same_block input ora prb w2)"
  unfolding Run_Ok [OF assms] compare_findings_Nil [symmetric]
  by (simp add: block_result_def)

definition example_response :: Response where
  "example_response = \<lparr>rs_AppHash = [1, 2], rs_TxResults = [\<lparr>tr_Code = 0, tr_GasUsed = 10, tr_Events = []\<rparr>]\<rparr>"

definition example_input :: "Response \<Rightarrow> nat Input" where
  "example_input prb = \<lparr>in_Oracle = (\<lambda>w. (Ok example_response, Suc w)), in_Probe = (\<lambda>w. (Ok prb, Suc w)),
     in_Height = 7, in_TxCount = 1, in_OracleWriteSets = Some (\<lambda>w i. [''bank/01'']),
     in_ProbeWriteSets = Some (\<lambda>w i. [''bank/01'']), in_OracleMutations = Some (\<lambda>w i. []),
     in_BlockContextMutations = None, in_NonDetProvider = None, in_PostOracleHook = Some (\<lambda>w. w + 10)\<rparr>"

theorem run_verdict_exact_witness:
  "(\<exists>r w3. Run (example_input example_response) 0 = (Ok r, w3) \<and> r_Verdict r = Match) \<and>
   (\<exists>r w3. Run (example_input (example_response\<lparr>rs_AppHash := [3]\<rparr>)) 0 = (Ok r, w3) \<and>
      r_Verdict r = Divergence)"
proof
  let ?i = "example_input example_response" and ?j = "example_input (example_response\<lparr>rs_AppHash := [3]\<rparr>)"
  have o: "in_Oracle ?i 0 = (Ok example_response, 1)" "in_Oracle ?j 0 = (Ok example_response, 1)"
    by (simp_all add: example_input_def)
  have p: "in_Probe ?i (post_oracle ?i 1) = (Ok example_response, 12)"
      "in_Probe ?j (post_oracle ?j 1) = (Ok (example_response\<lparr>rs_AppHash := [3]\<rparr>), 12)"
    by (simp_all add: example_input_def post_oracle_def)
  have "same_block ?i example_response example_response 12"
    by (simp add: same_block_def example_input_def agree_tx_def)
  with run_verdict_exact [OF o(1) p(1)]
  show "\<exists>r w3. Run ?i 0 = (Ok r, w3) \<and> r_Verdict r = Match" by blast
  have "\<not> same_block ?j example_response (example_response\<lparr>rs_AppHash := [3]\<rparr>) 12"
    by (simp add: same_block_def example_response_def)
  with run_verdict_exact [OF o(2) p(2)]
  show "\<exists>r w3. Run ?j 0 = (Ok r, w3) \<and> r_Verdict r = Divergence"
    by (metis Verdict.exhaust)
qed



text \<open>The findings of a run: in the order of the dimensions in the code, each with the block's
  height, probe index 0 and the identity of its height, dimension and transaction.\<close>

theorem run_findings_ordered:
  assumes "in_Oracle input w = (Ok ora, w1)" "in_Probe input (post_oracle input w1) = (Ok prb, w2)"
  shows "\<exists>r w3. Run input w = (Ok r, w3) \<and>
    sorted (map (\<lambda>f. dim_rank (f_Dimension f)) (r_Findings r)) \<and>
    list_all (\<lambda>f. f_Height f = in_Height input \<and> f_ProbeIndex f = 0 \<and>
      f_ID f = FindingID (f_Height f) (f_Dimension f) (f_TxIndex f) (f_ProbeIndex f)) (r_Findings r)"
proof -
  let ?bs = "finding_blocks input ora prb w2"
  have "sorted (map fst ?bs)" by (simp add: finding_blocks_def Let_def)
  then have "sorted (map (\<lambda>f. dim_rank (f_Dimension f)) (concat (map snd ?bs)))"
    by (rule sorted_blocks) (rule finding_blocks_ok [THEN conjunct2])
  moreover have "list_all (\<lambda>f. finding_ok (in_Height input) (f_Dimension f) f) (concat (map snd ?bs))"
    using finding_blocks_ok by (fastforce simp: list_all_iff)
  ultimately show ?thesis
    unfolding Run_Ok [OF assms] compare_findings_blocks
    by (simp add: block_result_def finding_ok_def list_all_iff)
qed

theorem run_findings_ordered_witness:
  "\<exists>r w3. Run (example_input (example_response\<lparr>rs_AppHash := [3]\<rparr>)) 0 = (Ok r, w3) \<and>
     list_all (\<lambda>f. f_Height f = 7) (r_Findings r)"
proof -
  let ?j = "example_input (example_response\<lparr>rs_AppHash := [3]\<rparr>)"
  have o: "in_Oracle ?j 0 = (Ok example_response, 1)" by (simp add: example_input_def)
  have p: "in_Probe ?j (post_oracle ?j 1) = (Ok (example_response\<lparr>rs_AppHash := [3]\<rparr>), 12)"
    by (simp add: example_input_def post_oracle_def)
  have h: "in_Height ?j = 7" by (simp add: example_input_def)
  show ?thesis
    using run_findings_ordered [OF o p] unfolding h by (auto simp: list_all_iff)
qed

text \<open>The identity of a finding: the hashed string determines height, dimension, transaction and
  probe, and the identity is 12 hexadecimal digits. It identifies no more than that: all mutations of one
  transaction share one identity, whatever tracker reported them.\<close>

theorem finding_identity:
  "(finding_raw h d t p = finding_raw h' d' t' p' \<longleftrightarrow> h = h' \<and> d = d' \<and> t = t' \<and> p = p') \<and>
   length (FindingID h d t p) = 12 \<and>
   map f_ID (mutation_findings h 1 (Some (\<lambda>_. ms))) = replicate (length ms) (FindingID h DimOutOfKVStore 0 0)"
  by (simp add: finding_raw_inj FindingID_def mutation_findings_def NewFinding_def comp_def map_replicate_const)

text \<open>Events are compared by their printed form. On events whose types, keys and values are free of
  the characters \<open>: [ ] , ; =\<close> the printed form loses nothing: equal text means equal events, in the same
  order.\<close>

theorem format_events_faithful:
  assumes "list_all plain_event es" "list_all plain_event fs"
  shows "FormatEvents es = FormatEvents fs \<longleftrightarrow> es = fs"
  using FormatEvents_inj [OF assms] by auto

definition example_event :: "(string \<times> string) list \<Rightarrow> Event" where
  "example_event as = \<lparr>ev_Type = ''t'', ev_Attributes = as\<rparr>"

theorem format_events_faithful_witness:
  "FormatEvents [example_event [(''a'', ''1'')]] \<noteq> FormatEvents [example_event [(''a'', ''2'')]]"
proof -
  have "list_all plain_event [example_event [(''a'', v)]]" if "plain v" for v
    using that by (simp add: plain_event_def example_event_def plain_def)
  then show ?thesis
    using format_events_faithful [of "[example_event [(''a'', ''1'')]]" "[example_event [(''a'', ''2'')]]"]
    by (simp add: plain_def example_event_def)
qed

definition with_event :: "(string \<times> string) list \<Rightarrow> Response" where
  "with_event as = \<lparr>rs_AppHash = [], rs_TxResults =
     [\<lparr>tr_Code = 0, tr_GasUsed = 1, tr_Events = [example_event as]\<rparr>]\<rparr>"

text \<open>On other events it does lose something, and the comparison misses a divergence: an oracle that
  emits two attributes and a probe that emits one attribute whose value contains the separator print
  alike, and \<open>Run\<close> returns the verdict \<open>Match\<close> with no finding.\<close>

theorem event_divergence_missed:
  "with_event [(''a'', ''1''), (''b'', ''2'')] \<noteq> with_event [(''a'', ''1,b=2'')] \<and>
   (\<exists>r. Run \<lparr>in_Oracle = (\<lambda>w. (Ok (with_event [(''a'', ''1''), (''b'', ''2'')]), w)),
             in_Probe = (\<lambda>w. (Ok (with_event [(''a'', ''1,b=2'')]), w)), in_Height = 1, in_TxCount = 1,
             in_OracleWriteSets = None, in_ProbeWriteSets = None, in_OracleMutations = None,
             in_BlockContextMutations = None, in_NonDetProvider = None, in_PostOracleHook = None\<rparr> () =
        (Ok r, ()) \<and> r_Verdict r = Match \<and> r_Findings r = [])"
  by (simp add: with_event_def example_event_def Run_def post_oracle_def compare_findings_def finding_defs
      txCount_def FormatEvents_def format_event_def block_result_def)

end
