(* ===== verification/Coverage.thy ===== *)
theory Coverage
  imports Go_Prelude "HOL-Library.AList"
begin

text \<open>
  \<open>coverage/registry.go\<close>, \<open>coverage/coverage.go\<close>, \<open>coverage/state_pattern.go\<close>: the registry of message
  types, the counter of executed messages and the counter of distinct write-set patterns. A Go map that
  is ranged over is an association list with distinct keys, in the order of one iteration; the map of
  counts is only read and incremented and is a function, absent keys being 0.
\<close>

section \<open>The registry\<close>

record Entry =
  en_Key :: string
  en_Module :: string
  en_MsgType :: string
  en_HandlerFn :: string

type_synonym registry = "(string \<times> Entry) list"

definition Register :: "string \<Rightarrow> Entry \<Rightarrow> registry \<Rightarrow> registry" where
  "Register key e global = AList.update key e global"

definition ClearRegistry :: "registry \<Rightarrow> registry" where
  "ClearRegistry global = []"

definition Registered :: "registry \<Rightarrow> registry" where
  "Registered global = foldl (\<lambda>out (k, v). AList.update k v out) [] global"

definition registry_ok :: "registry \<Rightarrow> bool" where
  "registry_ok reg \<longleftrightarrow> distinct (map fst reg) \<and> list_all (\<lambda>(k, e). en_Key e = k) reg"

lemma set_update_cases: "x \<in> set (AList.update k v al) \<Longrightarrow> x = (k, v) \<or> x \<in> set al"
  by (induction al) (auto split: if_splits)

lemma update_new: "k \<notin> fst ` set al \<Longrightarrow> AList.update k v al = al @ [(k, v)]"
  by (induction al) auto

lemma Register_ok: "registry_ok reg \<Longrightarrow> registry_ok (Register (en_Key e) e reg)"
  unfolding registry_ok_def Register_def list_all_iff
  by (auto simp: distinct_update dest!: set_update_cases)

lemma map_of_Registered: "map_of (Registered reg) = map_of (rev reg)"
  unfolding Registered_def
  by (induction reg rule: rev_induct) (auto simp: update_conv')

lemma Registered_ok:
  assumes "distinct (map fst reg)"
  shows "Registered reg = reg"
proof -
  have "foldl (\<lambda>out (k, v). AList.update k v out) xs ys = xs @ ys"
    if "distinct (map fst (xs @ ys))" for xs ys :: registry
    using that
  proof (induction ys arbitrary: xs)
    case (Cons y ys)
    obtain k v where y: "y = (k, v)" by (cases y)
    have "AList.update k v xs = xs @ [(k, v)]"
      using Cons.prems by (intro update_new) (auto simp: y)
    with Cons show ?case by (simp add: y)
  qed simp
  from this [of "[]" reg] assms show ?thesis by (simp add: Registered_def)
qed

section \<open>The tracker of message types\<close>

record EntryStat =
  es_Entry :: Entry
  es_Count :: nat

record Coverage_Report =
  cov_Covered :: "EntryStat list"
  cov_Uncovered :: "Entry list"

type_synonym Tracker = "string \<Rightarrow> nat"

definition NewTracker :: Tracker where
  "NewTracker = (\<lambda>_. 0)"

definition tracker_RecordBlock :: "Tracker \<Rightarrow> string list \<Rightarrow> Tracker" where
  "tracker_RecordBlock counts msgKeys = foldl (\<lambda>t k. t(k := Suc (t k))) counts msgKeys"

text \<open>The report, over the registry in the order of the iteration.\<close>

definition tracker_Report :: "registry \<Rightarrow> Tracker \<Rightarrow> Coverage_Report" where
  "tracker_Report reg counts =
     \<lparr>cov_Covered = sort_key (\<lambda>s. en_Key (es_Entry s))
        (map (\<lambda>(k, e). \<lparr>es_Entry = e, es_Count = counts k\<rparr>) (filter (\<lambda>(k, e). counts k > 0) reg)),
      cov_Uncovered = sort_key en_Key (map snd (filter (\<lambda>(k, e). \<not> counts k > 0) reg))\<rparr>"

lemma RecordBlock_count: "tracker_RecordBlock t ks k = t k + count_list ks k"
  unfolding tracker_RecordBlock_def by (induction ks arbitrary: t) auto

lemma RecordBlocks_count: "foldl tracker_RecordBlock t bs k = t k + count_list (concat bs) k"
  by (induction bs arbitrary: t) (simp_all add: RecordBlock_count)

text \<open>Splitting a well-formed registry by a predicate on its keys and sorting a part.\<close>

lemma sort_registry_part:
  assumes "registry_ok reg" "mset order = mset reg" "\<And>k e. (k, e) \<in> set reg \<Longrightarrow> f (h (k, e)) = k"
  shows "sort_key f (map h (filter (\<lambda>(k, e). P k) order)) =
    map (\<lambda>k. h (k, the (map_of reg k))) (sorted_list_of_set {k \<in> fst ` set reg. P k})"
proof -
  let ?xs = "map h (filter (\<lambda>(k, e). P k) order)" and ?g = "\<lambda>k. h (k, the (map_of reg k))"
  have set: "set order = set reg" using assms(2) by (rule mset_eq_setD)
  have dist: "distinct (map fst order)"
    using assms(1,2) by (metis mset_map registry_ok_def mset_eq_imp_distinct_iff)
  have keys: "map f ?xs = map fst (filter (\<lambda>(k, e). P k) order)"
    using assms(3) set by auto
  have "distinct (map fst (filter (\<lambda>(k, e). P k) order))"
    using dist by (rule distinct_map_filter)
  then have d: "distinct (map f ?xs)" by (simp only: keys)
  have look: "map_of reg k = Some e" if "(k, e) \<in> set reg" for k e
    using that assms(1) by (simp add: registry_ok_def)
  have g: "?g (f x) = x" if "x \<in> set ?xs" for x
    using that assms(3) look set by auto
  have "f ` set ?xs = set (map fst (filter (\<lambda>(k, e). P k) order))"
    by (simp only: keys [symmetric] set_map)
  also have "\<dots> = {k \<in> fst ` set reg. P k}" using set by force
  finally show ?thesis using sort_key_canonical [OF d g] by simp
qed

section \<open>The tracker of write-set patterns\<close>

type_synonym patterns = "(string \<times> string list) list"

definition NewStatePatternTracker :: patterns where
  "NewStatePatternTracker = []"

definition fingerprint :: "string list \<Rightarrow> string" where
  "fingerprint keys = join [CHR 0x00] keys"

definition add_pattern :: "string \<Rightarrow> string \<Rightarrow> patterns \<Rightarrow> patterns" where
  "add_pattern key fp pats =
     AList.update key (List.insert fp (case map_of pats key of None \<Rightarrow> [] | Some fps \<Rightarrow> fps)) pats"

definition pattern_RecordBlock :: "patterns \<Rightarrow> string list \<Rightarrow> string list list \<Rightarrow> patterns" where
  "pattern_RecordBlock pats msgKeys writeSets =
     (if writeSets = [] then pats
      else foldl (\<lambda>t (i, key). add_pattern key
             (if i < length writeSets then fingerprint (writeSets ! i) else '''') t)
           pats (List.enumerate 0 msgKeys))"

record StatePatternEntry =
  sp_Key :: string
  sp_DistinctCount :: nat

definition pattern_Report :: "patterns \<Rightarrow> StatePatternEntry list" where
  "pattern_Report pats =
     sort_key sp_Key (map (\<lambda>(key, fps). \<lparr>sp_Key = key, sp_DistinctCount = length fps\<rparr>) pats)"

fun DistinctCount :: "StatePatternEntry list \<Rightarrow> string \<Rightarrow> nat" where
  "DistinctCount [] key = 0"
| "DistinctCount (e # r) key = (if sp_Key e = key then sp_DistinctCount e else DistinctCount r key)"

text \<open>The patterns a tracker holds for a key.\<close>

definition pats_of :: "patterns \<Rightarrow> string \<Rightarrow> string set" where
  "pats_of pats key = (case map_of pats key of None \<Rightarrow> {} | Some fps \<Rightarrow> set fps)"

definition pats_ok :: "patterns \<Rightarrow> bool" where
  "pats_ok pats \<longleftrightarrow> distinct (map fst pats) \<and> list_all (\<lambda>(k, fps). distinct fps) pats"

lemma add_pattern_ok: "pats_ok pats \<Longrightarrow> pats_ok (add_pattern key fp pats)"
proof -
  assume ok: "pats_ok pats"
  then have "distinct (case map_of pats key of None \<Rightarrow> [] | Some fps \<Rightarrow> fps)"
    by (auto simp: pats_ok_def list_all_iff split: option.split dest!: map_of_SomeD)
  with ok show ?thesis
    unfolding pats_ok_def add_pattern_def list_all_iff
    by (auto simp: distinct_update dest!: set_update_cases)
qed

lemma add_pattern_pats:
  "pats_of (add_pattern key fp pats) k = (if k = key then {fp} else {}) \<union> pats_of pats k"
  by (auto simp: pats_of_def add_pattern_def update_conv' split: option.split)

lemma fold_add_pattern:
  "pats_ok pats \<Longrightarrow> pats_ok (foldl (\<lambda>t x. add_pattern (kf x) (ff x) t) pats xs) \<and>
   pats_of (foldl (\<lambda>t x. add_pattern (kf x) (ff x) t) pats xs) k =
     pats_of pats k \<union> {ff x |x. x \<in> set xs \<and> kf x = k}"
  by (induction xs arbitrary: pats) (auto simp: add_pattern_ok add_pattern_pats split: if_splits)

text \<open>The write sets a block records for a key.\<close>

definition block_patterns :: "string list \<Rightarrow> string list list \<Rightarrow> string \<Rightarrow> string set" where
  "block_patterns msgKeys writeSets key =
     (if writeSets = [] then {}
      else {if i < length writeSets then fingerprint (writeSets ! i) else '''' |i.
              i < length msgKeys \<and> msgKeys ! i = key})"

lemma pattern_RecordBlock_pats:
  assumes "pats_ok pats"
  shows "pats_ok (pattern_RecordBlock pats ks wss) \<and>
    pats_of (pattern_RecordBlock pats ks wss) k = pats_of pats k \<union> block_patterns ks wss k"
proof -
  let ?kf = "\<lambda>x :: nat \<times> string. snd x"
  let ?ff = "\<lambda>x :: nat \<times> string. if fst x < length wss then fingerprint (wss ! fst x) else ''''"
  have "(\<lambda>t (i, key). add_pattern key (if i < length wss then fingerprint (wss ! i) else '''') t) =
      (\<lambda>t x. add_pattern (?kf x) (?ff x) t)"
    by (auto simp: fun_eq_iff)
  moreover have "{?ff x |x. x \<in> set (List.enumerate 0 ks) \<and> ?kf x = k} = block_patterns ks wss k"
    if "wss \<noteq> []"
    using that by (auto simp: block_patterns_def in_set_enumerate_eq)
  ultimately show ?thesis
    using fold_add_pattern [OF assms, where kf = ?kf and ff = ?ff and xs = "List.enumerate 0 ks" and k = k] assms
    by (auto simp: pattern_RecordBlock_def block_patterns_def)
qed

lemma DistinctCount_sorted:
  "distinct (map sp_Key es) \<Longrightarrow> DistinctCount (sort_key sp_Key es) key = DistinctCount es key"
proof -
  assume d: "distinct (map sp_Key es)"
  have "DistinctCount fs key = (if \<exists>e \<in> set fs. sp_Key e = key
      then sp_DistinctCount (THE e. e \<in> set fs \<and> sp_Key e = key) else 0)" if "distinct (map sp_Key fs)" for fs
    using that
  proof (induction fs)
    case (Cons f fs)
    show ?case
    proof (cases "sp_Key f = key")
      case True
      have "sp_Key f \<notin> sp_Key ` set fs" using Cons.prems by simp
      then have "e = f" if "e \<in> set (f # fs)" "sp_Key e = key" for e
        using that True by (metis image_eqI set_ConsD)
      then have "(THE e. e \<in> set (f # fs) \<and> sp_Key e = key) = f"
        using True by (intro the_equality) auto
      then show ?thesis using True by auto
    next
      case False
      then have "(\<lambda>e. e \<in> set (f # fs) \<and> sp_Key e = key) = (\<lambda>e. e \<in> set fs \<and> sp_Key e = key)" by auto
      with False Cons show ?thesis by simp
    qed
  qed simp
  from this [of es] this [of "sort_key sp_Key es"] d show ?thesis
    by (simp add: distinct_map)
qed

lemma DistinctCount_pats:
  assumes "pats_ok pats" "mset order = mset pats"
  shows "DistinctCount (pattern_Report order) key = card (pats_of pats key)"
proof -
  have d: "distinct (map fst order)"
    using assms by (metis mset_map pats_ok_def mset_eq_imp_distinct_iff)
  have s: "set order = set pats" using assms(2) by (rule mset_eq_setD)
  have dist: "distinct fps" if "(k, fps) \<in> set order" for k fps
    using that assms(1) s by (auto simp: pats_ok_def list_all_iff)
  have look: "map_of order = map_of pats"
    using assms d s by (metis map_of_inject_set pats_ok_def)
  let ?e = "\<lambda>(key, fps). \<lparr>sp_Key = key, sp_DistinctCount = length fps\<rparr> :: StatePatternEntry"
  have "map sp_Key (map ?e order) = map fst order" by auto
  then have "DistinctCount (pattern_Report order) key = DistinctCount (map ?e order) key"
    unfolding pattern_Report_def using d by (intro DistinctCount_sorted) metis
  also have "\<dots> = (case map_of order key of None \<Rightarrow> 0 | Some fps \<Rightarrow> length fps)"
    by (induction order) auto
  also have "\<dots> = card (pats_of pats key)"
    using dist by (auto simp: pats_of_def look [symmetric] distinct_card split: option.split dest!: map_of_SomeD)
  finally show ?thesis .
qed

text \<open>Write sets whose keys are composite keys print injectively: no key is empty or holds a NUL.\<close>

definition nul_free :: "string list \<Rightarrow> bool" where
  "nul_free keys \<longleftrightarrow> list_all (\<lambda>k. k \<noteq> [] \<and> CHR 0x00 \<notin> set k) keys"

lemma fingerprint_inj:
  assumes "nul_free a" "nul_free b"
  shows "fingerprint a = fingerprint b \<longleftrightarrow> a = b"
proof (cases "a = [] \<or> b = []")
  case True
  have "fingerprint c = [] \<longleftrightarrow> c = []" if "nul_free c" for c
    using that by (cases c) (auto simp: fingerprint_def join_Cons nul_free_def)
  from this [OF assms(1)] this [OF assms(2)] True show ?thesis by metis
next
  case False
  then show ?thesis
    unfolding fingerprint_def using assms by (intro join_inj) (auto simp: nul_free_def list_all_iff)
qed

section \<open>Properties\<close>

text \<open>C36. The coverage report partitions the registry, whatever order Go iterates the map in: the covered
  entries are the registered types that occur among the recorded messages, each once with the number of
  its occurrences over all blocks; the uncovered ones are the other registered types; both are sorted by
  key. Unregistered messages are ignored.\<close>

theorem coverage_report_partition:
  assumes "registry_ok reg" "mset order = mset reg"
  shows "tracker_Report order (foldl tracker_RecordBlock NewTracker blocks) =
    \<lparr>cov_Covered = map (\<lambda>k. \<lparr>es_Entry = the (map_of reg k), es_Count = count_list (concat blocks) k\<rparr>)
       (sorted_list_of_set {k \<in> fst ` set reg. k \<in> set (concat blocks)}),
     cov_Uncovered = map (\<lambda>k. the (map_of reg k)) (sorted_list_of_set {k \<in> fst ` set reg. k \<notin> set (concat blocks)})\<rparr>"
proof -
  let ?c = "foldl tracker_RecordBlock NewTracker blocks"
  have c: "?c k = count_list (concat blocks) k" for k
    using RecordBlocks_count [of NewTracker blocks k] by (simp add: NewTracker_def)
  have pos: "count_list (concat blocks) k > 0 \<longleftrightarrow> k \<in> set (concat blocks)" for k
    using count_list_0_iff [of "concat blocks" k] by (auto simp: c simp del: set_concat)
  have key: "en_Key e = k" if "(k, e) \<in> set reg" for k e
    using that assms(1) by (auto simp: registry_ok_def list_all_iff)
  have cov: "sort_key (\<lambda>s. en_Key (es_Entry s))
      (map (\<lambda>(k, e). \<lparr>es_Entry = e, es_Count = ?c k\<rparr>) (filter (\<lambda>(k, e). ?c k > 0) order)) =
      map (\<lambda>k. (\<lambda>(k, e). \<lparr>es_Entry = e, es_Count = ?c k\<rparr>) (k, the (map_of reg k)))
        (sorted_list_of_set {k \<in> fst ` set reg. ?c k > 0})"
    by (rule sort_registry_part [OF assms(1,2)]) (simp add: key)
  have unc: "sort_key en_Key (map snd (filter (\<lambda>(k, e). \<not> ?c k > 0) order)) =
      map (\<lambda>k. snd (k, the (map_of reg k))) (sorted_list_of_set {k \<in> fst ` set reg. \<not> ?c k > 0})"
    by (rule sort_registry_part [OF assms(1,2)]) (simp add: key)
  show ?thesis unfolding tracker_Report_def cov unc by (simp only: pos c prod.case snd_conv)
qed

definition example_registry :: registry where
  "example_registry = [(''b'', \<lparr>en_Key = ''b'', en_Module = '''', en_MsgType = '''', en_HandlerFn = ''''\<rparr>),
                       (''a'', \<lparr>en_Key = ''a'', en_Module = '''', en_MsgType = '''', en_HandlerFn = ''''\<rparr>)]"

theorem coverage_report_partition_witness:
  "map en_Key (cov_Uncovered (tracker_Report example_registry
     (foldl tracker_RecordBlock NewTracker [[''b'', ''x''], [''b'']]))) = [''a'']"
proof -
  have ok: "registry_ok example_registry" by (simp add: registry_ok_def example_registry_def)
  have "{k \<in> fst ` set example_registry. k \<notin> set (concat [[''b'', ''x''], [''b'']])} = {''a''}"
    by (auto simp: example_registry_def)
  with coverage_report_partition [OF ok refl, of "[[''b'', ''x''], [''b'']]"]
  show ?thesis by (simp add: example_registry_def)
qed

text \<open>The state-pattern report counts distinct write sets: over any sequence of blocks with one
  write set per message (each a list of non-empty keys without a NUL byte), the count reported for a
  message type is the number of different write sets recorded for it, whatever the iteration order.\<close>

theorem state_patterns_counted:
  assumes "list_all (\<lambda>(ks, wss). length wss = length ks \<and> list_all nul_free wss) blocks"
    and "mset order = mset (foldl (\<lambda>t (ks, wss). pattern_RecordBlock t ks wss) NewStatePatternTracker blocks)"
  shows "DistinctCount (pattern_Report order) key =
    card {ws. \<exists>(ks, wss) \<in> set blocks. (key, ws) \<in> set (zip ks wss)}"
proof -
  let ?W = "\<lambda>bs. {ws. \<exists>(ks, wss) \<in> set bs. (key, ws) \<in> set (zip ks wss)}"
  let ?run = "foldl (\<lambda>t (ks, wss). pattern_RecordBlock t ks wss) NewStatePatternTracker"
  have block: "block_patterns ks wss key = fingerprint ` {ws. (key, ws) \<in> set (zip ks wss)}"
    if "length wss = length ks" for ks wss
    using that by (auto simp: block_patterns_def set_zip image_iff)
  have run: "pats_ok (?run bs) \<and> pats_of (?run bs) key = fingerprint ` ?W bs"
    if "list_all (\<lambda>(ks, wss). length wss = length ks \<and> list_all nul_free wss) bs" for bs
    using that
  proof (induction bs rule: rev_induct)
    case Nil
    show ?case by (simp add: NewStatePatternTracker_def pats_ok_def pats_of_def)
  next
    case (snoc b bs)
    obtain ks wss where b: "b = (ks, wss)" by (cases b)
    have "pats_ok (?run bs)" "pats_of (?run bs) key = fingerprint ` ?W bs" "length wss = length ks"
      using snoc by (auto simp: b)
    then show ?case
      using pattern_RecordBlock_pats [of "?run bs" ks wss key] block [of wss ks]
      by (auto simp: b image_iff)
  qed
  have "\<forall>ws \<in> ?W blocks. nul_free ws"
    using assms(1) by (fastforce simp: list_all_iff dest: set_zip_rightD)
  then have "inj_on fingerprint (?W blocks)" by (auto simp: inj_on_def fingerprint_inj)
  then show ?thesis
    using run [OF assms(1)] DistinctCount_pats [OF _ assms(2), of key] by (simp add: card_image)
qed

theorem state_patterns_counted_witness:
  "DistinctCount (pattern_Report (pattern_RecordBlock NewStatePatternTracker
     [''m'', ''m'', ''m''] [[''a''], [''b''], [''a'']])) ''m'' = 2"
proof -
  let ?bs = "[([''m'', ''m'', ''m''], [[''a''], [''b''], [''a'']])]"
  have ok: "list_all (\<lambda>(ks, wss). length wss = length ks \<and> list_all nul_free wss) ?bs"
    by (simp add: nul_free_def)
  have "{ws. \<exists>(ks, wss) \<in> set ?bs. (''m'', ws) \<in> set (zip ks wss)} = {[''a''], [''b'']}" by auto
  with state_patterns_counted [OF ok refl, of "''m''"] show ?thesis by simp
qed

end
