(* ===== verification/Corpus.thy ===== *)
theory Corpus
  imports Coverage
begin

text \<open>
  The corpora: \<open>compare/corpus.go\<close>, \<open>compare/fixture.go\<close>, \<open>compare/fixture_corpus.go\<close>,
  \<open>compare/fuzz_corpus.go\<close>, \<open>compare/snapshot.go\<close>, \<open>compare/snapshot_corpus.go\<close>,
  \<open>compare/snapshot_blockstore.go\<close>. A corpus yields blocks to the consumer of a range loop; the
  generator is the datatype \<open>blocks_iter\<close>: the blocks it would yield, an error it yields last, or a panic.
  A consumer that stops early takes a prefix. What is read from disk (file contents, the JSON and YAML
  decoders, the block store) and the random source \<open>math/rand\<close> are arguments. The wrap of the height
  counter at the largest \<open>int64\<close> is not modelled.
\<close>

section \<open>Fixtures\<close>

record TxSpec =
  tx_Signer :: string
  tx_Msg :: string
  tx_To :: string
  tx_Amount :: string
  tx_Gas :: u64
  tx_Key :: string
  tx_Value :: int
  tx_Field :: string

record BlockSpec =
  bl_Txs :: "TxSpec list"
  bl_RawTxs :: "bytes list"
  bl_Height :: int

definition zero_block :: BlockSpec where
  "zero_block = \<lparr>bl_Txs = [], bl_RawTxs = [], bl_Height = 0\<rparr>"

text \<open>The accounts map to their balance; the list is one iteration of the map.\<close>

record GenesisSpec =
  gs_Accounts :: "(string \<times> string) list"

record Fixture =
  fx_Name :: string
  fx_Description :: string
  fx_Kind :: string
  fx_Genesis :: GenesisSpec
  fx_Blocks :: "BlockSpec list"

definition KindCanary :: string where
  "KindCanary = ''canary''"

definition fixture_IsCanary :: "Fixture \<Rightarrow> bool" where
  "fixture_IsCanary f \<longleftrightarrow> fx_Kind f = KindCanary"

definition LoadFixture ::
  "(string \<Rightarrow> bytes go) \<Rightarrow> (bytes \<Rightarrow> Fixture go) \<Rightarrow> string \<Rightarrow> Fixture go" where
  "LoadFixture read_file yaml path =
     (case read_file path of
        Panic p \<Rightarrow> Panic p
      | Err e \<Rightarrow> Err (ErrWrap (''read fixture '' @ path) e)
      | Ok data \<Rightarrow> (case yaml data of
           Panic p \<Rightarrow> Panic p
         | Err e \<Rightarrow> Err (ErrWrap (''parse fixture '' @ path) e)
         | Ok f \<Rightarrow> Ok f))"

fun load_all :: "(string \<Rightarrow> Fixture go) \<Rightarrow> string list \<Rightarrow> Fixture list go" where
  "load_all load [] = Ok []"
| "load_all load (p # ps) = go_bind (load p) (\<lambda>f. go_bind (load_all load ps) (\<lambda>fs. Ok (f # fs)))"

text \<open>\<open>matches\<close> is what the glob of the directory returns.\<close>

definition LoadCorpus :: "string \<Rightarrow> string list go \<Rightarrow> (string \<Rightarrow> Fixture go) \<Rightarrow> Fixture list go" where
  "LoadCorpus dir glob load =
     (case glob of
        Panic p \<Rightarrow> Panic p
      | Err e \<Rightarrow> Err (ErrWrap (''glob corpus '' @ dir) e)
      | Ok matches \<Rightarrow>
          if matches = [] then Err (ErrMsg (''no *.yaml fixtures found in '' @ dir))
          else go_bind (load_all load matches) (\<lambda>fs. Ok (sort_key fx_Name fs)))"

section \<open>Block generators and the corpus interface\<close>

datatype blocks_iter = IterEnd | IterErr go_error | IterPanic string | IterBlock BlockSpec blocks_iter

text \<open>\<open>ctx i\<close> is what the \<open>i\<close>-th call of \<open>ctx.Err\<close> returns.\<close>

type_synonym context_err = "nat \<Rightarrow> go_error option"

fun iter_blocks :: "blocks_iter \<Rightarrow> BlockSpec list" where
  "iter_blocks (IterBlock b it) = b # iter_blocks it"
| "iter_blocks _ = []"

fun iter_end :: "blocks_iter \<Rightarrow> go_error option" where
  "iter_end (IterBlock b it) = iter_end it"
| "iter_end (IterErr e) = Some e"
| "iter_end _ = None"

record RangeMeta =
  rm_ChainID :: string
  rm_AppVersion :: u64
  rm_Start :: int
  rm_End :: int
  rm_BondDenom :: string

definition zero_meta :: RangeMeta where
  "zero_meta = \<lparr>rm_ChainID = '''', rm_AppVersion = 0, rm_Start = 0, rm_End = 0, rm_BondDenom = ''''\<rparr>"

record CorpusStore =
  cs_Iter :: "context_err \<Rightarrow> blocks_iter"
  cs_SnapshotDir :: string
  cs_Meta :: RangeMeta
  cs_BondDenom :: string
  cs_Name :: string
  cs_IsCanary :: bool
  cs_Genesis :: GenesisSpec
  cs_BlockCount :: int

text \<open>The contract of a corpus: it yields no more blocks than it announces.\<close>

locale corpus_store =
  fixes store :: "'a \<Rightarrow> CorpusStore" and ok :: "'a \<Rightarrow> bool"
  assumes yields_le: "ok a \<Longrightarrow> int (length (iter_blocks (cs_Iter (store a) ctx))) \<le> cs_BlockCount (store a)"
begin

lemma count_nonneg: "ok a \<Longrightarrow> 0 \<le> cs_BlockCount (store a)"
  using yields_le [of a "\<lambda>_. None"] by linarith

end

section \<open>Fixture corpora\<close>

fun fixture_iter :: "context_err \<Rightarrow> nat \<Rightarrow> BlockSpec list \<Rightarrow> blocks_iter" where
  "fixture_iter ctx i [] = IterEnd"
| "fixture_iter ctx i (b # bs) =
     (case ctx i of Some e \<Rightarrow> IterErr e | None \<Rightarrow> IterBlock b (fixture_iter ctx (Suc i) bs))"

definition NewFixtureCorpus :: "Fixture \<Rightarrow> CorpusStore" where
  "NewFixtureCorpus f = \<lparr>cs_Iter = (\<lambda>ctx. fixture_iter ctx 0 (fx_Blocks f)), cs_SnapshotDir = '''',
     cs_Meta = zero_meta, cs_BondDenom = ''stake'', cs_Name = fx_Name f, cs_IsCanary = fixture_IsCanary f,
     cs_Genesis = fx_Genesis f, cs_BlockCount = int (length (fx_Blocks f))\<rparr>"

lemma fixture_iter_le: "length (iter_blocks (fixture_iter ctx i bs)) \<le> length bs"
  by (induction bs arbitrary: i) (auto split: option.split)

lemma fixture_iter_all [simp]: "iter_blocks (fixture_iter (\<lambda>_. None) i bs) = bs"
  by (induction bs arbitrary: i) auto

interpretation fixture_corpus: corpus_store NewFixtureCorpus "\<lambda>_. True"
  by unfold_locales (simp add: NewFixtureCorpus_def fixture_iter_le)

section \<open>Fuzz corpora\<close>

record FuzzConfig =
  fz_Seed :: int
  fz_Blocks :: int
  fz_TxPerBlock :: int
  fz_Weights :: "(string \<times> int) list"
  fz_Genesis :: GenesisSpec

definition default_accounts :: "(string \<times> string) list" where
  "default_accounts = [(''alice'', ''1000000000stake''), (''bob'', ''1000000000stake''),
     (''charlie'', ''1000000000stake'')]"

definition NewFuzzCorpus :: "FuzzConfig \<Rightarrow> FuzzConfig" where
  "NewFuzzCorpus cfg =
     (if gs_Accounts (fz_Genesis cfg) = []
      then cfg\<lparr>fz_Genesis := \<lparr>gs_Accounts = default_accounts\<rparr>\<rparr> else cfg)"

definition buildWeightedKeys :: "registry \<Rightarrow> FuzzConfig \<Rightarrow> string list \<times> int list" where
  "buildWeightedKeys registered cfg =
     (let keys = sort (if fz_Weights cfg \<noteq> []
                       then filter (\<lambda>k. map_of registered k \<noteq> None) (map fst (fz_Weights cfg))
                       else map fst registered)
      in (keys, map (\<lambda>k. case map_of (fz_Weights cfg) k of Some w \<Rightarrow> w | None \<Rightarrow> 1) keys))"

definition sortedAccounts :: "FuzzConfig \<Rightarrow> string list" where
  "sortedAccounts cfg = sort (map fst (gs_Accounts (fz_Genesis cfg)))"

text \<open>The loop of \<open>weightedSample\<close> from the drawn number on.\<close>

fun pick_weighted :: "string list \<Rightarrow> int list \<Rightarrow> int \<Rightarrow> string option" where
  "pick_weighted (k # ks) (w # ws) r = (if r - w < 0 then Some k else pick_weighted ks ws (r - w))"
| "pick_weighted _ _ r = None"

text \<open>The random source: \<open>intn n s\<close> is \<open>rng.Intn(n)\<close> in state \<open>s\<close>; it panics for \<open>n \<le> 0\<close>.\<close>

definition Intn :: "(int \<Rightarrow> 's \<Rightarrow> int \<times> 's) \<Rightarrow> int \<Rightarrow> 's \<Rightarrow> (int \<times> 's) go" where
  "Intn intn n s = (if n \<le> 0 then Panic ''invalid argument to Intn'' else Ok (intn n s))"

definition weightedSample ::
  "(int \<Rightarrow> 's \<Rightarrow> int \<times> 's) \<Rightarrow> string list \<Rightarrow> int list \<Rightarrow> 's \<Rightarrow> (string \<times> 's) go" where
  "weightedSample intn keys weights s =
     (let total = sum_list weights in
      if total = 0 then Ok (hd keys, s)
      else go_bind (Intn intn total s) (\<lambda>(r, s').
        Ok (case pick_weighted keys weights r of Some k \<Rightarrow> k | None \<Rightarrow> last keys, s')))"

definition fuzz_tx ::
  "(int \<Rightarrow> 's \<Rightarrow> int \<times> 's) \<Rightarrow> string list \<Rightarrow> int list \<Rightarrow> string list \<Rightarrow> 's \<Rightarrow> (TxSpec \<times> 's) go" where
  "fuzz_tx intn keys weights accounts s =
     go_bind (Intn intn (int (length accounts)) s) (\<lambda>(i, s1).
     go_bind (weightedSample intn keys weights s1) (\<lambda>(msg, s2).
     go_bind (Intn intn (int (length accounts)) s2) (\<lambda>(j, s3).
     Ok (\<lparr>tx_Signer = accounts ! nat i, tx_Msg = msg, tx_To = accounts ! nat j,
          tx_Amount = ''1stake'', tx_Gas = 200000, tx_Key = '''', tx_Value = 0, tx_Field = ''''\<rparr>, s3))))"

fun fuzz_txs ::
  "(int \<Rightarrow> 's \<Rightarrow> int \<times> 's) \<Rightarrow> string list \<Rightarrow> int list \<Rightarrow> string list \<Rightarrow> nat \<Rightarrow> 's \<Rightarrow> (TxSpec list \<times> 's) go" where
  "fuzz_txs intn keys weights accounts 0 s = Ok ([], s)"
| "fuzz_txs intn keys weights accounts (Suc n) s =
     go_bind (fuzz_tx intn keys weights accounts s) (\<lambda>(t, s1).
     go_bind (fuzz_txs intn keys weights accounts n s1) (\<lambda>(ts, s2). Ok (t # ts, s2)))"

fun fuzz_blocks ::
  "(int \<Rightarrow> 's \<Rightarrow> int \<times> 's) \<Rightarrow> string list \<Rightarrow> int list \<Rightarrow> string list \<Rightarrow> int \<Rightarrow> context_err \<Rightarrow> nat \<Rightarrow> nat \<Rightarrow> 's \<Rightarrow> blocks_iter" where
  "fuzz_blocks intn keys weights accounts txs ctx i 0 s = IterEnd"
| "fuzz_blocks intn keys weights accounts txs ctx i (Suc n) s =
     (case ctx i of
        Some e \<Rightarrow> IterErr e
      | None \<Rightarrow>
          if txs < 0 then IterPanic ''makeslice: len out of range''
          else (case fuzz_txs intn keys weights accounts (nat txs) s of
                  Panic p \<Rightarrow> IterPanic p
                | Err e \<Rightarrow> IterErr e
                | Ok (ts, s') \<Rightarrow> IterBlock (zero_block\<lparr>bl_Txs := ts\<rparr>)
                    (fuzz_blocks intn keys weights accounts txs ctx (Suc i) n s')))"

definition fuzz_iter ::
  "registry \<Rightarrow> (int \<Rightarrow> 's \<Rightarrow> int \<times> 's) \<Rightarrow> (int \<Rightarrow> 's) \<Rightarrow> FuzzConfig \<Rightarrow> context_err \<Rightarrow> blocks_iter" where
  "fuzz_iter registered intn new_source cfg ctx =
     (case buildWeightedKeys registered cfg of (keys, weights) \<Rightarrow>
        if keys = [] \<or> sortedAccounts cfg = [] then IterEnd
        else fuzz_blocks intn keys weights (sortedAccounts cfg) (fz_TxPerBlock cfg) ctx 0
               (nat (fz_Blocks cfg)) (new_source (fz_Seed cfg)))"

definition fuzz_store ::
  "registry \<Rightarrow> (int \<Rightarrow> 's \<Rightarrow> int \<times> 's) \<Rightarrow> (int \<Rightarrow> 's) \<Rightarrow> FuzzConfig \<Rightarrow> CorpusStore" where
  "fuzz_store registered intn new_source cfg = \<lparr>cs_Iter = fuzz_iter registered intn new_source cfg,
     cs_SnapshotDir = '''', cs_Meta = zero_meta, cs_BondDenom = ''stake'', cs_Name = ''fuzz'',
     cs_IsCanary = False, cs_Genesis = fz_Genesis cfg, cs_BlockCount = fz_Blocks cfg\<rparr>"

lemma fuzz_blocks_le:
  "length (iter_blocks (fuzz_blocks intn keys weights accounts txs ctx i n s)) \<le> n"
  by (induction n arbitrary: i s) (auto split: option.split go.split prod.split)

interpretation fuzz_corpus: corpus_store
  "\<lambda>(registered, intn :: int \<Rightarrow> 's \<Rightarrow> int \<times> 's, new_source, cfg). fuzz_store registered intn new_source cfg"
  "\<lambda>(_, _, _, cfg). 0 \<le> fz_Blocks cfg"
proof
  fix a :: "registry \<times> (int \<Rightarrow> 's \<Rightarrow> int \<times> 's) \<times> (int \<Rightarrow> 's) \<times> FuzzConfig" and ctx
  assume ok: "case a of (_, _, _, cfg) \<Rightarrow> 0 \<le> fz_Blocks cfg"
  obtain reg intn src cfg where a: "a = (reg, intn, src, cfg)" by (cases a)
  have "length (iter_blocks (fuzz_iter reg intn src cfg ctx)) \<le> nat (fz_Blocks cfg)"
    by (auto simp: fuzz_iter_def fuzz_blocks_le split: prod.split)
  then show "int (length (iter_blocks (cs_Iter (case a of (registered, intn, new_source, cfg) \<Rightarrow>
      fuzz_store registered intn new_source cfg) ctx))) \<le>
    cs_BlockCount (case a of (registered, intn, new_source, cfg) \<Rightarrow> fuzz_store registered intn new_source cfg)"
    using ok by (simp add: a fuzz_store_def)
qed

section \<open>Snapshot corpora\<close>

definition LoadRangeMeta :: "bytes go \<Rightarrow> (bytes \<Rightarrow> RangeMeta go) \<Rightarrow> RangeMeta go" where
  "LoadRangeMeta file json =
     (case file of
        Panic p \<Rightarrow> Panic p
      | Err e \<Rightarrow> Err (ErrWrap ''read range.json'' e)
      | Ok data \<Rightarrow> (case json data of
           Panic p \<Rightarrow> Panic p
         | Err e \<Rightarrow> Err (ErrWrap ''parse range.json'' e)
         | Ok m \<Rightarrow>
             if rm_Start m \<le> 0 \<or> rm_End m \<le> 0 \<or> rm_End m < rm_Start m
             then Err (ErrMsg (''invalid height range ['' @ itoa (rm_Start m) @ '', '' @ itoa (rm_End m) @ '']''))
             else if rm_ChainID m = '''' then Err (ErrMsg ''range.json: chain_id is required'')
             else if rm_BondDenom m = '''' then Err (ErrMsg ''range.json: bond_denom is required'')
             else Ok m))"

text \<open>A block of the block store, as far as the code reads it.\<close>

record CmtBlock =
  cb_ChainID :: string
  cb_App :: u64
  cb_Txs :: "bytes list"

record BlockStore =
  bs_Base :: int
  bs_Height :: int
  bs_LoadBlock :: "int \<Rightarrow> CmtBlock option"

definition inferRangeMetaFromBlockstore :: "BlockStore \<Rightarrow> RangeMeta go" where
  "inferRangeMetaFromBlockstore src =
     (let height = bs_Height src; base = bs_Base src in
      if height = 0 then Err (ErrMsg ''blockstore is empty'')
      else (case bs_LoadBlock src base of
              None \<Rightarrow> Err (ErrMsg (''cannot load block at base height '' @ itoa base))
            | Some b \<Rightarrow> Ok \<lparr>rm_ChainID = cb_ChainID b, rm_AppVersion = cb_App b,
                rm_Start = base, rm_End = height, rm_BondDenom = ''''\<rparr>))"

text \<open>\<open>not_exist\<close> is the test \<open>errors.Is(err, os.ErrNotExist)\<close>.\<close>

definition snapshot_meta :: "(go_error \<Rightarrow> bool) \<Rightarrow> RangeMeta go \<Rightarrow> BlockStore \<Rightarrow> RangeMeta go" where
  "snapshot_meta not_exist meta src =
     (case meta of
        Err e \<Rightarrow> if not_exist e then inferRangeMetaFromBlockstore src else Err e
      | r \<Rightarrow> r)"

fun snapshot_iter :: "(int \<Rightarrow> CmtBlock option) \<Rightarrow> context_err \<Rightarrow> nat \<Rightarrow> int \<Rightarrow> nat \<Rightarrow> blocks_iter" where
  "snapshot_iter load ctx i h 0 = IterEnd"
| "snapshot_iter load ctx i h (Suc n) =
     (case ctx i of
        Some e \<Rightarrow> IterErr e
      | None \<Rightarrow> (case load h of
           None \<Rightarrow> IterErr (ErrMsg (''block '' @ itoa h @ '' not found in blockstore''))
         | Some b \<Rightarrow> IterBlock \<lparr>bl_Txs = [], bl_RawTxs = cb_Txs b, bl_Height = h\<rparr>
             (snapshot_iter load ctx (Suc i) (h + 1) n)))"

text \<open>The loop from \<open>Start\<close> to \<open>End\<close> runs \<open>End - Start + 1\<close> times.\<close>

definition SnapshotCorpus_Iter :: "RangeMeta \<Rightarrow> (int \<Rightarrow> CmtBlock option) \<Rightarrow> context_err \<Rightarrow> blocks_iter" where
  "SnapshotCorpus_Iter meta load ctx =
     snapshot_iter load ctx 0 (rm_Start meta) (nat (rm_End meta - rm_Start meta + 1))"

definition NewSnapshotCorpus :: "RangeMeta \<Rightarrow> (int \<Rightarrow> CmtBlock option) \<Rightarrow> string \<Rightarrow> CorpusStore" where
  "NewSnapshotCorpus meta load dir = \<lparr>cs_Iter = SnapshotCorpus_Iter meta load, cs_SnapshotDir = dir,
     cs_Meta = meta, cs_BondDenom = rm_BondDenom meta, cs_Name = rm_ChainID meta, cs_IsCanary = False,
     cs_Genesis = \<lparr>gs_Accounts = []\<rparr>,
     cs_BlockCount = wrap64 (wrap64 (rm_End meta - rm_Start meta) + 1)\<rparr>"

definition meta_ok :: "RangeMeta \<Rightarrow> bool" where
  "meta_ok m \<longleftrightarrow> 0 < rm_Start m \<and> rm_Start m \<le> rm_End m \<and> rm_End m < 2 ^ 63"

lemma snapshot_iter_le: "length (iter_blocks (snapshot_iter load ctx i h n)) \<le> n"
  by (induction n arbitrary: i h) (auto split: option.split)

lemma snapshot_count: "meta_ok m \<Longrightarrow> cs_BlockCount (NewSnapshotCorpus m load dir) = rm_End m - rm_Start m + 1"
  by (simp add: NewSnapshotCorpus_def meta_ok_def wrap64_id int64_range_def)

interpretation snapshot_corpus: corpus_store
  "\<lambda>(meta, load, dir). NewSnapshotCorpus meta load dir" "\<lambda>(meta, _, _). meta_ok meta"
proof
  fix a :: "RangeMeta \<times> (int \<Rightarrow> CmtBlock option) \<times> string" and ctx
  assume ok: "case a of (meta, _, _) \<Rightarrow> meta_ok meta"
  obtain meta load dir where a: "a = (meta, load, dir)" by (cases a)
  have m: "meta_ok meta" using ok by (simp add: a)
  have "length (iter_blocks (SnapshotCorpus_Iter meta load ctx)) \<le> nat (rm_End meta - rm_Start meta + 1)"
    by (simp add: SnapshotCorpus_Iter_def snapshot_iter_le)
  then have "int (length (iter_blocks (cs_Iter (NewSnapshotCorpus meta load dir) ctx))) \<le>
      cs_BlockCount (NewSnapshotCorpus meta load dir)"
    unfolding snapshot_count [OF m] using m by (simp add: NewSnapshotCorpus_def meta_ok_def le_nat_iff)
  then show "int (length (iter_blocks (cs_Iter (case a of (meta, load, dir) \<Rightarrow> NewSnapshotCorpus meta load dir) ctx)))
      \<le> cs_BlockCount (case a of (meta, load, dir) \<Rightarrow> NewSnapshotCorpus meta load dir)"
    by (simp add: a)
qed

section \<open>Facts about the generators\<close>

text \<open>The numbers a weighted sample maps to a key form the interval of its weight.\<close>

lemma pick_weighted_iff:
  assumes "length ws = length ks" "list_all (\<lambda>w. 0 \<le> w) ws" "distinct ks" "i < length ks" "0 \<le> r"
  shows "pick_weighted ks ws r = Some (ks ! i) \<longleftrightarrow> sum_list (take i ws) \<le> r \<and> r < sum_list (take (Suc i) ws)"
  using assms
proof (induction ks ws r arbitrary: i rule: pick_weighted.induct)
  case (1 k ks w ws r)
  show ?case
  proof (cases i)
    case 0
    have "k \<noteq> x" if "x \<in> set ks" for x using 1(4) that by auto
    moreover have "pick_weighted ks ws q \<noteq> Some k" for q
    proof -
      have "pick_weighted ks ws q = Some x \<Longrightarrow> x \<in> set ks" for x
        by (induction ks ws q rule: pick_weighted.induct) (auto split: if_splits)
      then show ?thesis using 1(4) by auto
    qed
    ultimately show ?thesis using 0 1(6) by auto
  next
    case (Suc j)
    have j: "j < length ks" using 1(5) Suc by simp
    have "ks ! j \<noteq> k" using 1(4) j by auto
    moreover have "0 \<le> sum_list (take j ws)"
      using 1(3) by (intro sum_list_nonneg) (auto simp: list_all_iff dest: in_set_takeD)
    ultimately show ?thesis using 1 Suc j by (auto simp: not_less)
  qed
qed simp_all

lemma sum_take_Suc: "i < length ws \<Longrightarrow> sum_list (take (Suc i) ws) = sum_list (take i ws) + (ws ! i :: int)"
  by (simp add: take_Suc_conv_app_nth)

lemma pick_weighted_total:
  assumes "length ws = length ks" "0 \<le> r" "r < sum_list ws"
  shows "\<exists>k \<in> set ks. pick_weighted ks ws r = Some k"
  using assms by (induction ks ws r rule: pick_weighted.induct) auto

lemma snapshot_iter_all:
  assumes "\<And>k. k < n \<Longrightarrow> \<exists>b. load (h + int k) = Some b"
  shows "map bl_Height (iter_blocks (snapshot_iter load (\<lambda>_. None) i h n)) = map (\<lambda>k. h + int k) [0..<n] \<and>
    map bl_RawTxs (iter_blocks (snapshot_iter load (\<lambda>_. None) i h n)) =
      map (\<lambda>k. cb_Txs (the (load (h + int k)))) [0..<n] \<and>
    iter_end (snapshot_iter load (\<lambda>_. None) i h n) = None"
  using assms
proof (induction n arbitrary: i h)
  case (Suc n)
  obtain b where b: "load h = Some b" using Suc.prems [of 0] by auto
  have "\<exists>b. load ((h + 1) + int k) = Some b" if "k < n" for k
    using Suc.prems [of "Suc k"] that by (simp add: algebra_simps)
  note IH = Suc.IH [of "h + 1" "Suc i", OF this]
  have up: "[0..<Suc n] = 0 # map Suc [0..<n]" by (simp add: map_Suc_upt upt_conv_Cons)
  show ?case using IH b by (simp add: up comp_def add.assoc add.commute add.left_commute del: upt_Suc)
qed simp

lemma snapshot_iter_gap:
  assumes "\<And>k. k < m \<Longrightarrow> \<exists>b. load (h + int k) = Some b" "load (h + int m) = None" "m < n"
  shows "map bl_Height (iter_blocks (snapshot_iter load (\<lambda>_. None) i h n)) = map (\<lambda>k. h + int k) [0..<m] \<and>
    iter_end (snapshot_iter load (\<lambda>_. None) i h n) =
      Some (ErrMsg (''block '' @ itoa (h + int m) @ '' not found in blockstore''))"
  using assms
proof (induction m arbitrary: n i h)
  case 0
  then show ?case by (cases n) auto
next
  case (Suc m)
  obtain n' where n: "n = Suc n'" "m < n'" using Suc.prems(3) by (cases n) auto
  obtain b where b: "load h = Some b" using Suc.prems(1) [of 0] by auto
  have "\<exists>b. load ((h + 1) + int k) = Some b" if "k < m" for k
    using Suc.prems(1) [of "Suc k"] that by (simp add: algebra_simps)
  moreover have "load ((h + 1) + int m) = None" using Suc.prems(2) by (simp add: algebra_simps)
  ultimately have IH: "map bl_Height (iter_blocks (snapshot_iter load (\<lambda>_. None) (Suc i) (h + 1) n')) =
        map (\<lambda>k. (h + 1) + int k) [0..<m] \<and>
      iter_end (snapshot_iter load (\<lambda>_. None) (Suc i) (h + 1) n') =
        Some (ErrMsg (''block '' @ itoa ((h + 1) + int m) @ '' not found in blockstore''))"
    by (rule Suc.IH [OF _ _ n(2)])
  have up: "[0..<Suc m] = 0 # map Suc [0..<m]" by (simp add: map_Suc_upt upt_conv_Cons)
  show ?case
    using IH b by (simp add: n up comp_def add.assoc add.commute add.left_commute del: upt_Suc)
qed

text \<open>The documented behaviour of \<open>rand.Intn\<close>: the result is below the argument.\<close>

definition intn_ok :: "(int \<Rightarrow> 's \<Rightarrow> int \<times> 's) \<Rightarrow> bool" where
  "intn_ok intn \<longleftrightarrow> (\<forall>n s. 0 < n \<longrightarrow> 0 \<le> fst (intn n s) \<and> fst (intn n s) < n)"

lemma weightedSample_Ok:
  assumes "intn_ok intn" "length ws = length ks" "list_all (\<lambda>w. 0 \<le> w) ws" "ks \<noteq> []"
  shows "\<exists>k s'. weightedSample intn ks ws s = Ok (k, s') \<and> k \<in> set ks"
proof (cases "sum_list ws = 0")
  case True
  then show ?thesis using assms(4) by (simp add: weightedSample_def)
next
  case False
  have "0 \<le> sum_list ws" using assms(3) by (intro sum_list_nonneg) (simp add: list_all_iff)
  with False have pos: "0 < sum_list ws" by simp
  obtain r s' where r: "intn (sum_list ws) s = (r, s')" by (cases "intn (sum_list ws) s")
  then have "0 \<le> r" "r < sum_list ws" using assms(1) pos unfolding intn_ok_def by (metis fst_conv)+
  then obtain k where "k \<in> set ks" "pick_weighted ks ws r = Some k"
    using pick_weighted_total [OF assms(2)] by blast
  then show ?thesis using False pos r by (simp add: weightedSample_def Intn_def)
qed

definition tx_over :: "string list \<Rightarrow> string list \<Rightarrow> TxSpec \<Rightarrow> bool" where
  "tx_over keys accounts t \<longleftrightarrow> tx_Signer t \<in> set accounts \<and> tx_To t \<in> set accounts \<and> tx_Msg t \<in> set keys"

lemma fuzz_tx_Ok:
  assumes "intn_ok intn" "length ws = length ks" "list_all (\<lambda>w. 0 \<le> w) ws" "ks \<noteq> []" "accounts \<noteq> []"
  shows "\<exists>t s'. fuzz_tx intn ks ws accounts s = Ok (t, s') \<and> tx_over ks accounts t"
proof -
  have draw: "\<exists>i s'. Intn intn (int (length accounts)) s = Ok (i, s') \<and> accounts ! nat i \<in> set accounts" for s
  proof -
    obtain i s' where i: "intn (int (length accounts)) s = (i, s')" by (cases "intn (int (length accounts)) s")
    have "0 < int (length accounts)" using assms(5) by simp
    then have "0 \<le> i \<and> i < int (length accounts)" using assms(1) i unfolding intn_ok_def by (metis fst_conv)
    then show ?thesis using assms(5) i by (auto simp: Intn_def)
  qed
  obtain i s1 where 1: "Intn intn (int (length accounts)) s = Ok (i, s1)" "accounts ! nat i \<in> set accounts"
    using draw by blast
  obtain k s2 where 2: "weightedSample intn ks ws s1 = Ok (k, s2)" "k \<in> set ks"
    using weightedSample_Ok [OF assms(1-4)] by blast
  obtain j s3 where 3: "Intn intn (int (length accounts)) s2 = Ok (j, s3)" "accounts ! nat j \<in> set accounts"
    using draw by blast
  from 1 2 3 show ?thesis by (simp add: fuzz_tx_def tx_over_def)
qed

lemma fuzz_txs_Ok:
  assumes "intn_ok intn" "length ws = length ks" "list_all (\<lambda>w. 0 \<le> w) ws" "ks \<noteq> []" "accounts \<noteq> []"
  shows "\<exists>ts s'. fuzz_txs intn ks ws accounts n s = Ok (ts, s') \<and> length ts = n \<and> list_all (tx_over ks accounts) ts"
proof (induction n arbitrary: s)
  case (Suc n)
  obtain t s1 where 1: "fuzz_tx intn ks ws accounts s = Ok (t, s1)" "tx_over ks accounts t"
    using fuzz_tx_Ok [OF assms] by blast
  obtain ts s2 where "fuzz_txs intn ks ws accounts n s1 = Ok (ts, s2)" "length ts = n"
      "list_all (tx_over ks accounts) ts"
    using Suc by blast
  with 1 show ?case by simp
qed simp

lemma fuzz_blocks_Ok:
  assumes "intn_ok intn" "length ws = length ks" "list_all (\<lambda>w. 0 \<le> w) ws" "ks \<noteq> []" "accounts \<noteq> []" "0 \<le> txs"
  shows "length (iter_blocks (fuzz_blocks intn ks ws accounts txs (\<lambda>_. None) i n s)) = n \<and>
    list_all (\<lambda>b. length (bl_Txs b) = nat txs \<and> list_all (tx_over ks accounts) (bl_Txs b))
      (iter_blocks (fuzz_blocks intn ks ws accounts txs (\<lambda>_. None) i n s))"
proof (induction n arbitrary: i s)
  case (Suc n)
  obtain ts s' where "fuzz_txs intn ks ws accounts (nat txs) s = Ok (ts, s')" "length ts = nat txs"
      "list_all (tx_over ks accounts) ts"
    using fuzz_txs_Ok [OF assms(1-5)] by blast
  with Suc assms(6) show ?case by simp
qed simp

lemma weighted_keys:
  assumes "buildWeightedKeys registered cfg = (ks, ws)" "list_all (\<lambda>(k, w). 0 \<le> w) (fz_Weights cfg)"
  shows "length ws = length ks \<and> list_all (\<lambda>w. 0 \<le> w) ws \<and> set ks \<subseteq> fst ` set registered \<and>
    (ks = [] \<longleftrightarrow> (if fz_Weights cfg \<noteq> [] then fst ` set (fz_Weights cfg) \<inter> fst ` set registered = {}
                  else registered = []))"
proof -
  have "ks = fst (buildWeightedKeys registered cfg)" "ws = snd (buildWeightedKeys registered cfg)"
    using assms(1) by simp_all
  moreover have "map_of registered k \<noteq> None \<longleftrightarrow> k \<in> fst ` set registered" for k
    by (metis map_of_eq_None_iff)
  moreover have "sort xs = [] \<longleftrightarrow> xs = []" for xs :: "string list"
    by (metis set_empty set_sort)
  moreover have "0 \<le> w" if "map_of (fz_Weights cfg) k = Some w" for k w
    using assms(2) map_of_SomeD [OF that] by (auto simp: list_all_iff)
  ultimately show ?thesis
    by (auto simp: buildWeightedKeys_def Let_def list_all_iff filter_empty_conv split: option.split)
qed

section \<open>Properties\<close>

text \<open>Weighted sampling is proportional: of the \<open>total\<close> numbers the random source may return,
  exactly \<open>weight\<close> many select a key of that weight (so a key of weight 0 is never selected, and the
  fallback to the last key is never taken), for non-negative weights that are not all 0.\<close>

theorem weighted_sample_proportional:
  assumes "length ws = length ks" "list_all (\<lambda>w. 0 \<le> w) ws" "distinct ks" "i < length ks" "0 < sum_list ws"
  shows "card {r \<in> {0..<sum_list ws}. weightedSample (\<lambda>_ s. (r, s)) ks ws s = Ok (ks ! i, s)} = nat (ws ! i)"
proof -
  have eq: "weightedSample (\<lambda>_ s. (r, s)) ks ws s = Ok (ks ! i, s) \<longleftrightarrow> pick_weighted ks ws r = Some (ks ! i)"
    if "r \<in> {0..<sum_list ws}" for r
    using assms(5) pick_weighted_total [OF assms(1), of r] that
    by (auto simp: weightedSample_def Intn_def)
  let ?a = "sum_list (take i ws)"
  have a: "0 \<le> ?a"
    using assms(2) by (intro sum_list_nonneg) (auto simp: list_all_iff dest: in_set_takeD)
  have suc: "sum_list (take (Suc i) ws) = ?a + ws ! i" using assms(1,4) by (simp add: sum_take_Suc)
  have "sum_list ws = sum_list (take (Suc i) ws) + sum_list (drop (Suc i) ws)"
    by (metis append_take_drop_id sum_list_append)
  moreover have "0 \<le> sum_list (drop (Suc i) ws)"
    using assms(2) by (intro sum_list_nonneg) (auto simp: list_all_iff dest: in_set_dropD)
  ultimately have "?a + ws ! i \<le> sum_list ws" by (simp add: suc)
  then have "{r \<in> {0..<sum_list ws}. weightedSample (\<lambda>_ s. (r, s)) ks ws s = Ok (ks ! i, s)} =
      {?a..<?a + ws ! i}"
    using eq pick_weighted_iff [OF assms(1-4)] a suc by auto
  then show ?thesis by simp
qed

theorem weighted_sample_proportional_witness:
  "card {r \<in> {0..<5}. weightedSample (\<lambda>_ s. (r, s)) [''a'', ''b'', ''c''] [2, 0, 3] () = Ok (''c'', ())} = 3"
  using weighted_sample_proportional [of "[2, 0, 3]" "[''a'', ''b'', ''c'']" 2 "()"] by simp

text \<open>A fuzz corpus with non-negative weights yields exactly the configured number of blocks of
  exactly the configured size, every transaction from and to a genesis account and with a registered
  message; unless no weighted message is registered: then it yields no block at all, with no error,
  while it still announces the configured number.\<close>

theorem fuzz_corpus_blocks:
  assumes "intn_ok intn" "list_all (\<lambda>(k, w). 0 \<le> w) (fz_Weights cfg)" "0 \<le> fz_TxPerBlock cfg" "0 \<le> fz_Blocks cfg"
    and "gs_Accounts (fz_Genesis cfg) \<noteq> []"
  shows "iter_end (cs_Iter (fuzz_store reg intn src cfg) (\<lambda>_. None)) = None \<and>
    int (length (iter_blocks (cs_Iter (fuzz_store reg intn src cfg) (\<lambda>_. None)))) =
      (if (if fz_Weights cfg \<noteq> [] then fst ` set (fz_Weights cfg) \<inter> fst ` set reg = {} else reg = [])
       then 0 else cs_BlockCount (fuzz_store reg intn src cfg)) \<and>
    list_all (\<lambda>b. int (length (bl_Txs b)) = fz_TxPerBlock cfg \<and>
        list_all (tx_over (map fst reg) (map fst (gs_Accounts (fz_Genesis cfg)))) (bl_Txs b))
      (iter_blocks (cs_Iter (fuzz_store reg intn src cfg) (\<lambda>_. None)))"
proof -
  obtain ks ws where kw: "buildWeightedKeys reg cfg = (ks, ws)" by (cases "buildWeightedKeys reg cfg")
  note keys = weighted_keys [OF kw assms(2)]
  let ?acc = "sortedAccounts cfg"
  have acc: "set ?acc = set (map fst (gs_Accounts (fz_Genesis cfg)))" "?acc \<noteq> []"
    using assms(5) by (auto simp: sortedAccounts_def) (metis length_0_conv length_map length_sort)
  show ?thesis
  proof (cases "ks = []")
    case True
    then show ?thesis using keys by (simp add: fuzz_store_def fuzz_iter_def kw)
  next
    case False
    let ?it = "\<lambda>i n s. fuzz_blocks intn ks ws ?acc (fz_TxPerBlock cfg) (\<lambda>_. None) i n s"
    have it: "cs_Iter (fuzz_store reg intn src cfg) (\<lambda>_. None) = ?it 0 (nat (fz_Blocks cfg)) (src (fz_Seed cfg))"
      using False acc(2) by (simp add: fuzz_store_def fuzz_iter_def kw)
    have ok: "intn_ok intn" "length ws = length ks" "list_all (\<lambda>w. 0 \<le> w) ws" "ks \<noteq> []" "?acc \<noteq> []"
        "0 \<le> fz_TxPerBlock cfg"
      using assms keys False acc by auto
    note blocks = fuzz_blocks_Ok [OF ok, of 0 "nat (fz_Blocks cfg)" "src (fz_Seed cfg)"]
    have "iter_end (?it i n s) = None" for i n s
    proof (induction n arbitrary: i s)
      case (Suc n)
      obtain ts s' where "fuzz_txs intn ks ws ?acc (nat (fz_TxPerBlock cfg)) s = Ok (ts, s')"
        using fuzz_txs_Ok [OF ok(1-5)] by blast
      with Suc ok(6) show ?case by simp
    qed simp
    moreover have "tx_over (map fst reg) (map fst (gs_Accounts (fz_Genesis cfg))) t" if "tx_over ks ?acc t" for t
      using that keys acc(1) by (auto simp: tx_over_def)
    ultimately show ?thesis
      using blocks keys False assms(3,4)
      by (auto simp: it list_all_iff) (auto simp: fuzz_store_def)
  qed
qed

definition zero_source :: "int \<Rightarrow> nat \<Rightarrow> int \<times> nat" where
  "zero_source n s = (int s mod n, Suc s)"

definition example_fuzz :: FuzzConfig where
  "example_fuzz = \<lparr>fz_Seed = 1, fz_Blocks = 3, fz_TxPerBlock = 2, fz_Weights = [(''zz'', 1)],
     fz_Genesis = \<lparr>gs_Accounts = default_accounts\<rparr>\<rparr>"

theorem fuzz_corpus_blocks_witness:
  "iter_blocks (cs_Iter (fuzz_store example_registry zero_source nat example_fuzz) (\<lambda>_. None)) = [] \<and>
   length (iter_blocks (cs_Iter (fuzz_store example_registry zero_source nat
     (example_fuzz\<lparr>fz_Weights := []\<rparr>)) (\<lambda>_. None))) = 3"
proof -
  have law: "intn_ok zero_source" by (simp add: intn_ok_def zero_source_def)
  have "int (length (iter_blocks (cs_Iter (fuzz_store example_registry zero_source nat example_fuzz) (\<lambda>_. None)))) = 0"
    using fuzz_corpus_blocks [OF law, of example_fuzz example_registry nat]
    by (simp add: example_fuzz_def default_accounts_def example_registry_def)
  moreover have "int (length (iter_blocks (cs_Iter (fuzz_store example_registry zero_source nat
      (example_fuzz\<lparr>fz_Weights := []\<rparr>)) (\<lambda>_. None)))) = 3"
    using fuzz_corpus_blocks [OF law, of "example_fuzz\<lparr>fz_Weights := []\<rparr>" example_registry nat]
    by (simp add: example_fuzz_def default_accounts_def example_registry_def fuzz_store_def)
  ultimately show ?thesis by auto
qed


definition example_meta :: RangeMeta where
  "example_meta = \<lparr>rm_ChainID = ''c'', rm_AppVersion = 1, rm_Start = 5, rm_End = 7, rm_BondDenom = ''stake''\<rparr>"

definition example_load :: "int \<Rightarrow> CmtBlock option" where
  "example_load h = (if h = 7 then None else Some \<lparr>cb_ChainID = ''c'', cb_App = 1, cb_Txs = [[1]]\<rparr>)"


text \<open>\<open>LoadRangeMeta\<close> accepts exactly the ranges the replay can use: the file is read and decoded,
  the heights are positive and in order, and chain and denomination are named; it returns the decoded
  value unchanged.\<close>

theorem load_range_meta_iff:
  "LoadRangeMeta file json = Ok m \<longleftrightarrow> (\<exists>data. file = Ok data \<and> json data = Ok m) \<and>
     0 < rm_Start m \<and> rm_Start m \<le> rm_End m \<and> rm_ChainID m \<noteq> '''' \<and> rm_BondDenom m \<noteq> ''''"
  by (auto simp: LoadRangeMeta_def split: go.split if_splits)

end
