(* ===== verification/Executors.thy ===== *)
theory Executors
  imports Compare_Run Corpus
begin

text \<open>
  The executors of \<open>run/\<close>: building and signing transactions and \<open>RunBlock\<close> of \<open>run/executor.go\<close>, and the
  repeat-run executor with its probe configurations (\<open>run/repeat_executor.go\<close>, \<open>run/perturb_config.go\<close>).
  The SDK is outside the repository: keys, coins, messages, signing and encoding are the record \<open>TxLib\<close>,
  and an application is the record \<open>App\<close>: for a block and the memory it finds, its response and the trace of
  what it does while it runs (callbacks of the observer, changes of the memory, conflict reports). The
  memory is the type variable \<open>'w\<close>; in \<open>RunBlock\<close> of the fixture executor it is paired with the sink of
  non-deterministic calls, which is process-global in the code.
\<close>

section \<open>Building transactions\<close>

record ('k, 'c, 'm, 't) TxLib =
  tl_ParseCoins :: "string \<Rightarrow> 'c go"
  tl_MsgSend :: "'k \<Rightarrow> 'k \<Rightarrow> 'c \<Rightarrow> 'm"
  tl_GenSigned :: "'m list \<Rightarrow> u64 \<Rightarrow> u64 \<Rightarrow> u64 \<Rightarrow> 'k \<Rightarrow> 't go"
  tl_Encode :: "'t \<Rightarrow> bytes go"

type_synonym sequences = "string \<Rightarrow> u64"
type_synonym ('k, 'm) builders = "string \<rightharpoonup> (TxSpec \<Rightarrow> (string \<rightharpoonup> 'k) \<Rightarrow> 'm list go)"
type_synonym 'k raw_builders = "string \<rightharpoonup> (TxSpec \<Rightarrow> (string \<rightharpoonup> 'k) \<Rightarrow> bytes go)"

text \<open>The verb \<open>%q\<close> on a string without characters to escape.\<close>

definition quoted :: "string \<Rightarrow> string" where
  "quoted s = CHR 0x22 # s @ [CHR 0x22]"

definition wrap_err :: "string \<Rightarrow> 'a go \<Rightarrow> 'a go" where
  "wrap_err msg r = (case r of Err e \<Rightarrow> Err (ErrWrap msg e) | _ \<Rightarrow> r)"

definition tx_msgs ::
  "('k, 'c, 'm, 't) TxLib \<Rightarrow> (string \<rightharpoonup> 'k) \<Rightarrow> ('k, 'm) builders \<Rightarrow> TxSpec \<Rightarrow> 'k \<Rightarrow> 'm list go" where
  "tx_msgs lib keys builders spec fromKey =
     (if tx_Msg spec = ''bank-send''
      then (case keys (tx_To spec) of
              None \<Rightarrow> Err (ErrMsg (''unknown recipient '' @ quoted (tx_To spec)))
            | Some toKey \<Rightarrow> go_bind (wrap_err ''parse amount'' (tl_ParseCoins lib (tx_Amount spec)))
                (\<lambda>amount. Ok [tl_MsgSend lib fromKey toKey amount]))
      else (case builders (tx_Msg spec) of
              Some builder \<Rightarrow> builder spec keys
            | None \<Rightarrow> Err (ErrMsg (''unsupported message type '' @ quoted (tx_Msg spec)))))"

text \<open>\<open>buildTx\<close> increments the signer's sequence before it signs; the second result is the map after.\<close>

definition buildTx ::
  "('k, 'c, 'm, 't) TxLib \<Rightarrow> (string \<rightharpoonup> 'k) \<Rightarrow> (string \<Rightarrow> u64) \<Rightarrow> ('k, 'm) builders \<Rightarrow> TxSpec \<Rightarrow>
   sequences \<Rightarrow> bytes go \<times> sequences" where
  "buildTx lib keys accountNums builders spec seqs =
     (case keys (tx_Signer spec) of
        None \<Rightarrow> (Err (ErrMsg (''unknown signer '' @ quoted (tx_Signer spec))), seqs)
      | Some fromKey \<Rightarrow>
          (case tx_msgs lib keys builders spec fromKey of
             Ok msgs \<Rightarrow>
               (let s = seqs (tx_Signer spec)
                in (go_bind (wrap_err ''sign tx''
                      (tl_GenSigned lib msgs (tx_Gas spec) (accountNums (tx_Signer spec)) s fromKey)) (tl_Encode lib),
                    seqs(tx_Signer spec := s + 1)))
           | Err e \<Rightarrow> (Err e, seqs)
           | Panic p \<Rightarrow> (Panic p, seqs)))"

definition mergedTxBuilders :: "('k, 'm) builders \<Rightarrow> ('k, 'm) builders \<Rightarrow> ('k, 'm) builders" where
  "mergedTxBuilders package_level instance_level = package_level ++ instance_level"

definition build_error :: "string \<Rightarrow> TxSpec \<Rightarrow> string" where
  "build_error what spec = what @ '' (signer='' @ tx_Signer spec @ '', msg='' @ tx_Msg spec @ '')''"

text \<open>The loop over the block's transactions: a raw builder is preferred and does not touch the
  sequences.\<close>

fun build_txs ::
  "('k, 'c, 'm, 't) TxLib \<Rightarrow> (string \<rightharpoonup> 'k) \<Rightarrow> (string \<Rightarrow> u64) \<Rightarrow> 'k raw_builders \<Rightarrow> ('k, 'm) builders \<Rightarrow>
   TxSpec list \<Rightarrow> sequences \<Rightarrow> bytes list go \<times> sequences" where
  "build_txs lib keys accountNums raw builders [] seqs = (Ok [], seqs)"
| "build_txs lib keys accountNums raw builders (spec # specs) seqs =
     (case (case raw (tx_Msg spec) of
              Some rawBuilder \<Rightarrow> (wrap_err (build_error ''build raw tx'' spec) (rawBuilder spec keys), seqs)
            | None \<Rightarrow> (case buildTx lib keys accountNums builders spec seqs of
                (r, seqs1) \<Rightarrow> (wrap_err (build_error ''build tx'' spec) r, seqs1)))
      of (Ok tx, seqs1) \<Rightarrow>
           (case build_txs lib keys accountNums raw builders specs seqs1 of
              (Ok txs, seqs2) \<Rightarrow> (Ok (tx # txs), seqs2)
            | (r, seqs2) \<Rightarrow> (r, seqs2))
       | (Err e, seqs1) \<Rightarrow> (Err e, seqs1)
       | (Panic p, seqs1) \<Rightarrow> (Panic p, seqs1))"

section \<open>Applications\<close>

datatype 'w app_event = AppObs "'w ob_event" | AppConflict ConflictRecord | AppStats ExecutionStats

record 'w App =
  ap_FinalizeBlock :: "int \<Rightarrow> bytes list \<Rightarrow> 'w \<Rightarrow> Response go \<times> 'w app_event list"
  ap_Commit :: "'w \<Rightarrow> unit go \<times> 'w"

section \<open>RunBlock of the fixture executor\<close>

text \<open>The memory of a block run: the world, the two observers, the conflict sink, and which of the
  process-global observers are installed.\<close>

record 'w run_state =
  st_world :: 'w
  st_oracleObs :: "'w BlockObserver"
  st_probeObs :: "'w BlockObserver"
  st_sink :: ConflictSink
  st_conflictOn :: bool
  st_statsOn :: bool

datatype side = Oracle | Probe

fun app_step :: "side \<Rightarrow> 'w app_event \<Rightarrow> 'w run_state \<Rightarrow> 'w run_state go" where
  "app_step Oracle (AppObs ev) st =
     go_bind (ob_step ev (st_oracleObs st, st_world st)) (\<lambda>(ob, w). Ok (st\<lparr>st_oracleObs := ob, st_world := w\<rparr>))"
| "app_step Probe (AppObs ev) st =
     go_bind (ob_step ev (st_probeObs st, st_world st)) (\<lambda>(ob, w). Ok (st\<lparr>st_probeObs := ob, st_world := w\<rparr>))"
| "app_step s (AppConflict r) st =
     Ok (if st_conflictOn st then st\<lparr>st_sink := RecordConflict r (st_sink st)\<rparr> else st)"
| "app_step s (AppStats x) st =
     Ok (if st_statsOn st then st\<lparr>st_sink := RecordStats x (st_sink st)\<rparr> else st)"

definition finalize :: "side \<Rightarrow> 'w App \<Rightarrow> int \<Rightarrow> bytes list \<Rightarrow> 'w run_state \<Rightarrow> Response go \<times> 'w run_state" where
  "finalize s app height txs st =
     (case ap_FinalizeBlock app height txs (st_world st) of (res, evs) \<Rightarrow>
        (case go_fold (app_step s) evs st of
           Ok st' \<Rightarrow> (res, st')
         | Err e \<Rightarrow> (Err e, st)
         | Panic p \<Rightarrow> (Panic p, st)))"

text \<open>The executor's fields and the package variables \<open>RunBlock\<close> reads; \<open>fe_BlockCtx height\<close> creates
  the tracker of block-context fields, and the two installer flags say whether the chain adapter registered an
  installer for conflicts and for execution statistics: without one, installing an observer does nothing.\<close>

record ('w, 'k, 'c, 'm, 't) FixtureExecutor =
  fe_Lib :: "('k, 'c, 'm, 't) TxLib"
  fe_Oracle :: "'w App"
  fe_Probe :: "'w App"
  fe_Keys :: "string \<rightharpoonup> 'k"
  fe_AccountNums :: "string \<Rightarrow> u64"
  fe_Trackers :: "'w MutationTracker list"
  fe_RawBuilders :: "'k raw_builders"
  fe_PackageBuilders :: "('k, 'm) builders"
  fe_Builders :: "('k, 'm) builders"
  fe_ConflictDetection :: bool
  fe_ConflictInstaller :: bool
  fe_StatsInstaller :: bool
  fe_BlockCtx :: "(int \<Rightarrow> 'w \<Rightarrow> ('w MutationTracker \<times> ('w \<Rightarrow> BlockContextMutation list)) \<times> 'w) option"
  fe_PreProbeSetup :: "('w \<Rightarrow> 'w) option"
  fe_PostRunBlock :: "('w \<Rightarrow> 'w) option"
  fe_NonDet :: "(('w \<Rightarrow> NonDetCall list \<times> 'w) \<times> (int \<Rightarrow> 'w \<Rightarrow> 'w)) option"

definition write_set_of :: "'w BlockObserver \<Rightarrow> nat \<Rightarrow> string list" where
  "write_set_of ob i = (case TxWriteSet ob (int i) of Ok ks \<Rightarrow> ks | _ \<Rightarrow> [])"

definition mutations_of :: "'w BlockObserver \<Rightarrow> nat \<Rightarrow> MutationRecord list" where
  "mutations_of ob i = (case TxMutations ob (int i) of Ok ms \<Rightarrow> ms | _ \<Rightarrow> [])"

text \<open>The trackers of a block, with the mutation provider of the block context, and the world after
  the latter's creation.\<close>

definition block_trackers ::
  "('w, 'k, 'c, 'm, 't) FixtureExecutor \<Rightarrow> int \<Rightarrow> 'w \<Rightarrow>
   'w MutationTracker list \<times> ('w \<Rightarrow> BlockContextMutation list) option \<times> 'w" where
  "block_trackers fe height w =
     (case fe_BlockCtx fe of
        None \<Rightarrow> (fe_Trackers fe, None, w)
      | Some create \<Rightarrow> (case create height w of ((t, muts), w') \<Rightarrow> (fe_Trackers fe @ [t], Some muts, w')))"

definition start_state ::
  "('w, 'k, 'c, 'm, 't) FixtureExecutor \<Rightarrow> nat \<Rightarrow> 'w MutationTracker list \<Rightarrow> 'w \<Rightarrow> 'w run_state" where
  "start_state fe n trackers w =
     \<lparr>st_world = w,
      st_oracleObs = (case fe_NonDet fe of None \<Rightarrow> NewBlockObserver n trackers
                      | Some (_, set_tx) \<Rightarrow> AddTxSetter set_tx (NewBlockObserver n trackers)),
      st_probeObs = NewBlockObserver n [], st_sink = NewConflictSink, st_conflictOn = False, st_statsOn = False\<rparr>"

definition post_oracle_hook ::
  "('w, 'k, 'c, 'm, 't) FixtureExecutor \<Rightarrow> 'w MutationTracker list \<Rightarrow> bytes list \<Rightarrow> 'w run_state \<Rightarrow> 'w run_state" where
  "post_oracle_hook fe trackers preSnaps st =
     (let w = (case fe_PreProbeSetup fe of None \<Rightarrow> st_world st | Some f \<Rightarrow> f (st_world st))
      in st\<lparr>st_world := w,
            st_oracleObs := fold AddBlockMutation (diff_snapshots trackers preSnaps w) (st_oracleObs st),
            st_conflictOn := (fe_ConflictDetection fe \<and> fe_ConflictInstaller fe),
            st_statsOn := fe_StatsInstaller fe\<rparr>)"

definition block_input ::
  "('w, 'k, 'c, 'm, 't) FixtureExecutor \<Rightarrow> int \<Rightarrow> bytes list \<Rightarrow> 'w MutationTracker list \<Rightarrow>
   ('w \<Rightarrow> BlockContextMutation list) option \<Rightarrow> bytes list \<Rightarrow> 'w run_state Input" where
  "block_input fe height txs trackers ctxMuts preSnaps =
     \<lparr>in_Oracle = finalize Oracle (fe_Oracle fe) height txs,
      in_Probe = finalize Probe (fe_Probe fe) height txs,
      in_Height = height, in_TxCount = length txs,
      in_OracleWriteSets = Some (\<lambda>st. write_set_of (st_oracleObs st)),
      in_ProbeWriteSets = Some (\<lambda>st. write_set_of (st_probeObs st)),
      in_OracleMutations = Some (\<lambda>st. mutations_of (st_oracleObs st)),
      in_BlockContextMutations = map_option (\<lambda>f st. f (st_world st)) ctxMuts,
      in_NonDetProvider = map_option (\<lambda>(drain, _) st. case drain (st_world st) of (cs, w) \<Rightarrow> (cs, st\<lparr>st_world := w\<rparr>))
        (fe_NonDet fe),
      in_PostOracleHook = Some (post_oracle_hook fe trackers preSnaps)\<rparr>"

text \<open>What \<open>RunBlock\<close> adds to the result of \<open>compare.Run\<close>: hot keys and ratio from the sink, and the
  message keys and write sets.\<close>

definition add_conflicts :: "ConflictSink \<Rightarrow> Result \<Rightarrow> Result" where
  "add_conflicts sink r =
     (case fst (Drain sink) of (records, stats) \<Rightarrow>
        r\<lparr>r_HotKeys := AggregateHotKeys records,
          r_ExecutionRatio := (case stats of None \<Rightarrow> r_ExecutionRatio r | Some s \<Rightarrow> Ratio s)\<rparr>)"

definition add_msg_keys :: "TxSpec list \<Rightarrow> nat \<Rightarrow> 'w BlockObserver \<Rightarrow> Result \<Rightarrow> Result" where
  "add_msg_keys specs n ob r =
     (let keys = (if specs \<noteq> [] then map tx_Msg specs else replicate n ''raw'')
      in r\<lparr>r_MsgKeys := keys, r_TxWriteSets := map (write_set_of ob) [0..<length keys]\<rparr>)"

definition commit_both :: "'w App \<Rightarrow> 'w App \<Rightarrow> 'w \<Rightarrow> unit go \<times> 'w" where
  "commit_both oracle probe w =
     (case ap_Commit oracle w of
        (Ok _, w1) \<Rightarrow> (case ap_Commit probe w1 of (r, w2) \<Rightarrow> (wrap_err ''probe Commit'' r, w2))
      | (r, w1) \<Rightarrow> (wrap_err ''oracle Commit'' r, w1))"

text \<open>The block's transactions built by the executor.\<close>

abbreviation fe_build ::
  "('w, 'k, 'c, 'm, 't) FixtureExecutor \<Rightarrow> BlockSpec \<Rightarrow> sequences \<Rightarrow> bytes list go \<times> sequences" where
  "fe_build fe b seqs \<equiv> build_txs (fe_Lib fe) (fe_Keys fe) (fe_AccountNums fe) (fe_RawBuilders fe)
     (mergedTxBuilders (fe_PackageBuilders fe) (fe_Builders fe)) (bl_Txs b) seqs"

definition fixture_RunBlock ::
  "('w, 'k, 'c, 'm, 't) FixtureExecutor \<Rightarrow> BlockSpec \<Rightarrow> int \<Rightarrow> sequences \<times> 'w \<Rightarrow> Result go \<times> sequences \<times> 'w" where
  "fixture_RunBlock fe b height = (\<lambda>(seqs, w).
     (case fe_build fe b seqs of
        (Err e, seqs1) \<Rightarrow> (Err e, seqs1, w)
      | (Panic p, seqs1) \<Rightarrow> (Panic p, seqs1, w)
      | (Ok built, seqs1) \<Rightarrow>
          (let txs = (if built = [] \<and> bl_RawTxs b \<noteq> [] then bl_RawTxs b else built);
               (trackers, ctxMuts, w1) = block_trackers fe height w;
               preSnaps = take_snapshots trackers w1;
               (res, st) = Run (block_input fe height txs trackers ctxMuts preSnaps)
                             (start_state fe (length txs) trackers w1);
               w2 = (case fe_PostRunBlock fe of None \<Rightarrow> st_world st | Some f \<Rightarrow> f (st_world st))
           in case res of
                Panic p \<Rightarrow> (Panic p, seqs1, st_world st)
              | Err e \<Rightarrow> (Err e, seqs1, w2)
              | Ok r \<Rightarrow>
                  (case commit_both (fe_Oracle fe) (fe_Probe fe) w2 of
                     (Ok _, w3) \<Rightarrow> (Ok (add_msg_keys (bl_Txs b) (length txs) (st_oracleObs st)
                                       (add_conflicts (st_sink st) r)), seqs1, w3)
                   | (Err e, w3) \<Rightarrow> (Err e, seqs1, w3)
                   | (Panic p, w3) \<Rightarrow> (Panic p, seqs1, w3)))))"

section \<open>Sequences\<close>

text \<open>The sequences after a list of transactions: each signer's number is advanced by its transactions
  that are not raw, modulo \<open>2\<close>^\<open>64\<close>.\<close>

definition advanced :: "'k raw_builders \<Rightarrow> TxSpec list \<Rightarrow> sequences \<Rightarrow> sequences" where
  "advanced raw specs seqs =
     (\<lambda>s. seqs s + of_nat (length (filter (\<lambda>sp. raw (tx_Msg sp) = None \<and> tx_Signer sp = s) specs)))"

lemma advanced_Nil [simp]: "advanced raw [] seqs = seqs"
  by (simp add: advanced_def)

lemma advanced_Cons:
  "advanced raw (sp # specs) seqs =
     advanced raw specs (if raw (tx_Msg sp) = None then seqs(tx_Signer sp := seqs (tx_Signer sp) + 1) else seqs)"
  by (rule ext) (simp add: advanced_def add.assoc)

text \<open>How \<open>buildTx\<close> succeeds, and what it does to the sequences in every case.\<close>

lemma wrap_err_Ok [simp]: "wrap_err msg r = Ok x \<longleftrightarrow> r = Ok x"
  by (cases r) (auto simp: wrap_err_def)

lemma wrap_err_simps [simp]:
  "wrap_err msg (Ok x) = Ok x" "wrap_err msg (Err e) = Err (ErrWrap msg e)" "wrap_err msg (Panic p) = Panic p"
  by (simp_all add: wrap_err_def)

definition signed_with ::
  "('k, 'c, 'm, 't) TxLib \<Rightarrow> (string \<rightharpoonup> 'k) \<Rightarrow> (string \<Rightarrow> u64) \<Rightarrow> ('k, 'm) builders \<Rightarrow> TxSpec \<Rightarrow> u64 \<Rightarrow> bytes \<Rightarrow> bool" where
  "signed_with lib keys accountNums builders spec s tx \<longleftrightarrow>
     (\<exists>fromKey msgs t. keys (tx_Signer spec) = Some fromKey \<and>
        tx_msgs lib keys builders spec fromKey = Ok msgs \<and>
        tl_GenSigned lib msgs (tx_Gas spec) (accountNums (tx_Signer spec)) s fromKey = Ok t \<and>
        tl_Encode lib t = Ok tx)"

lemma buildTx_Ok:
  "buildTx lib keys nums builders spec seqs = (Ok tx, seqs') \<longleftrightarrow>
     signed_with lib keys nums builders spec (seqs (tx_Signer spec)) tx \<and>
     seqs' = seqs(tx_Signer spec := seqs (tx_Signer spec) + 1)"
  by (auto simp: buildTx_def signed_with_def Let_def go_bind_eq_Ok split: option.splits go.splits)

lemma buildTx_seqs:
  "snd (buildTx lib keys nums builders spec seqs) = seqs \<or>
   snd (buildTx lib keys nums builders spec seqs) = seqs(tx_Signer spec := seqs (tx_Signer spec) + 1)"
  by (auto simp: buildTx_def Let_def split: option.splits go.splits)

lemma build_txs_Cons_Ok:
  "build_txs lib keys nums raw builders (spec # specs) seqs = (Ok txs, seqs') \<longleftrightarrow>
     (\<exists>tx ts seqs1. txs = tx # ts \<and> build_txs lib keys nums raw builders specs seqs1 = (Ok ts, seqs') \<and>
       (case raw (tx_Msg spec) of
          Some rb \<Rightarrow> rb spec keys = Ok tx \<and> seqs1 = seqs
        | None \<Rightarrow> buildTx lib keys nums builders spec seqs = (Ok tx, seqs1)))"
  by (auto split: option.splits prod.splits go.splits)

lemma build_txs_Ok:
  "build_txs lib keys nums raw builders specs seqs = (Ok txs, seqs') \<Longrightarrow>
     seqs' = advanced raw specs seqs \<and> length txs = length specs \<and>
     (\<forall>i < length specs. case raw (tx_Msg (specs ! i)) of
        Some rb \<Rightarrow> rb (specs ! i) keys = Ok (txs ! i)
      | None \<Rightarrow> signed_with lib keys nums builders (specs ! i)
                  (advanced raw (take i specs) seqs (tx_Signer (specs ! i))) (txs ! i))"
proof (induction specs arbitrary: seqs txs)
  case (Cons spec specs)
  then obtain tx ts seqs1 where t: "txs = tx # ts"
      and r: "build_txs lib keys nums raw builders specs seqs1 = (Ok ts, seqs')"
      and c: "case raw (tx_Msg spec) of Some rb \<Rightarrow> rb spec keys = Ok tx \<and> seqs1 = seqs
        | None \<Rightarrow> buildTx lib keys nums builders spec seqs = (Ok tx, seqs1)"
    unfolding build_txs_Cons_Ok by blast
  from c have s1: "seqs1 = (if raw (tx_Msg spec) = None then seqs(tx_Signer spec := seqs (tx_Signer spec) + 1) else seqs)"
    by (auto simp: buildTx_Ok split: option.splits)
  have head: "case raw (tx_Msg spec) of Some rb \<Rightarrow> rb spec keys = Ok tx
      | None \<Rightarrow> signed_with lib keys nums builders spec (seqs (tx_Signer spec)) tx"
    using c by (auto simp: buildTx_Ok split: option.splits)
  note ih = Cons.IH [OF r]
  show ?case
  proof (intro conjI allI impI)
    show "seqs' = advanced raw (spec # specs) seqs" using ih s1 by (simp add: advanced_Cons)
    show "length txs = length (spec # specs)" using ih t by simp
  next
    fix i assume i: "i < length (spec # specs)"
    show "case raw (tx_Msg ((spec # specs) ! i)) of Some rb \<Rightarrow> rb ((spec # specs) ! i) keys = Ok (txs ! i)
      | None \<Rightarrow> signed_with lib keys nums builders ((spec # specs) ! i)
          (advanced raw (take i (spec # specs)) seqs (tx_Signer ((spec # specs) ! i))) (txs ! i)"
    proof (cases i)
      case 0
      then show ?thesis using head t by (simp split: option.splits)
    next
      case (Suc j)
      have adv: "advanced raw (take (Suc j) (spec # specs)) seqs = advanced raw (take j specs) seqs1"
        by (simp add: advanced_Cons s1)
      from i Suc have "j < length specs" by simp
      with ih show ?thesis unfolding Suc t nth_Cons_Suc adv by blast
    qed
  qed
qed simp

lemma build_txs_prefix:
  "\<exists>n \<le> length specs. snd (build_txs lib keys nums raw builders specs seqs) = advanced raw (take n specs) seqs"
proof (induction specs arbitrary: seqs)
  case (Cons spec specs)
  let ?next = "\<lambda>s. if raw (tx_Msg spec) = None then s(tx_Signer spec := s (tx_Signer spec) + 1) else s"
  have step: "\<exists>n \<le> length (spec # specs). x = advanced raw (take n (spec # specs)) seqs"
    if "x = seqs \<or> (\<exists>n \<le> length specs. x = advanced raw (take n specs) (?next seqs))" for x
    using that
  proof
    assume "x = seqs"
    then show ?thesis by (intro exI [of _ 0]) simp
  next
    assume "\<exists>n \<le> length specs. x = advanced raw (take n specs) (?next seqs)"
    then obtain n where "n \<le> length specs" "x = advanced raw (take n specs) (?next seqs)" by blast
    then show ?thesis by (intro exI [of _ "Suc n"]) (simp add: advanced_Cons)
  qed
  let ?rest = "\<lambda>s. snd (build_txs lib keys nums raw builders specs s)"
  have mid: "(?rest seqs1 = x \<or> seqs1 = x)"
    if "(case (r, seqs1) of (Ok tx, seqs1) \<Rightarrow>
           (case build_txs lib keys nums raw builders specs seqs1 of
              (Ok txs, seqs2) \<Rightarrow> (Ok (tx # txs), seqs2)
            | (r, seqs2) \<Rightarrow> (r, seqs2))
       | (Err e, seqs1) \<Rightarrow> (Err e, seqs1)
       | (Panic p, seqs1) \<Rightarrow> (Panic p, seqs1)) = (q, x)" for r seqs1 q x
    using that by (cases r) (auto split: prod.splits go.splits)
  obtain q x where qx: "build_txs lib keys nums raw builders (spec # specs) seqs = (q, x)" by fastforce
  have "x = seqs \<or> x = ?next seqs \<or> x = ?rest (?next seqs)"
  proof (cases "raw (tx_Msg spec)")
    case None
    obtain r seqs1 where b: "buildTx lib keys nums builders spec seqs = (r, seqs1)" by fastforce
    have "?rest seqs1 = x \<or> seqs1 = x"
      using qx mid [of "wrap_err (build_error ''build tx'' spec) r" seqs1] by (simp add: None b)
    moreover have "seqs1 = ?next seqs \<or> ((\<exists>e. r = Err e) \<or> (\<exists>p. r = Panic p)) \<and> seqs1 = seqs"
      using buildTx_seqs [of lib keys nums builders spec seqs] b None
      by (cases r) (auto simp: buildTx_Ok simp del: fun_upd_apply)
    ultimately show ?thesis using qx b None by (auto simp del: fun_upd_apply)
  next
    case (Some rb)
    then show ?thesis using qx mid [of "wrap_err (build_error ''build raw tx'' spec) (rb spec keys)" seqs] by auto
  qed
  moreover have "\<exists>n \<le> length specs. ?next seqs = advanced raw (take n specs) (?next seqs)"
    by (intro exI [of _ 0]) simp
  ultimately have "x = seqs \<or> (\<exists>n \<le> length specs. x = advanced raw (take n specs) (?next seqs))"
    using Cons.IH [of "?next seqs"] by metis
  then show ?case using step qx by simp
qed simp

section \<open>What the two runs of a block touch\<close>

lemma app_step_Oracle:
  assumes "app_step Oracle e st = Ok st'" "\<not> st_conflictOn st" "\<not> st_statsOn st"
  shows "st_probeObs st' = st_probeObs st \<and> st_sink st' = st_sink st \<and> \<not> st_conflictOn st' \<and> \<not> st_statsOn st' \<and>
    ob_frame (st_oracleObs st') = ob_frame (st_oracleObs st) \<and>
    (ob_wf (st_oracleObs st) \<longrightarrow> ob_wf (st_oracleObs st'))"
proof (cases e)
  case (AppObs ev)
  with assms obtain ob w where "ob_step ev (st_oracleObs st, st_world st) = Ok (ob, w)"
      "st' = st\<lparr>st_oracleObs := ob, st_world := w\<rparr>"
    by (auto simp: go_bind_eq_Ok)
  then show ?thesis using assms ob_step_frame ob_step_wf by fastforce
qed (use assms in \<open>auto split: if_splits\<close>)

lemma app_step_Probe:
  assumes "app_step Probe e st = Ok st'"
  shows "st_oracleObs st' = st_oracleObs st \<and> st_conflictOn st' = st_conflictOn st \<and> st_statsOn st' = st_statsOn st"
  using assms by (cases e) (auto simp: go_bind_eq_Ok split: prod.splits if_splits)

text \<open>The conflicts an application reports while it runs.\<close>

definition conflicts_of :: "'w app_event list \<Rightarrow> ConflictRecord list" where
  "conflicts_of evs = concat (map (\<lambda>e. case e of AppConflict r \<Rightarrow> [r] | _ \<Rightarrow> []) evs)"

text \<open>The statistics it reports, and the last of them after \<open>old\<close>.\<close>

definition stats_of :: "'w app_event list \<Rightarrow> ExecutionStats list" where
  "stats_of evs = concat (map (\<lambda>e. case e of AppStats x \<Rightarrow> [x] | _ \<Rightarrow> []) evs)"

definition latest :: "'b option \<Rightarrow> 'b list \<Rightarrow> 'b option" where
  "latest old xs = (if xs = [] then old else Some (last xs))"

lemma latest_append [simp]: "latest (latest old xs) ys = latest old (xs @ ys)"
  by (simp add: latest_def)

lemma probe_stats:
  "go_fold (app_step Probe) evs st = Ok st' \<Longrightarrow>
   sink_stats (st_sink st') = latest (sink_stats (st_sink st)) (if st_statsOn st then stats_of evs else [])"
proof (induction evs arbitrary: st)
  case (Cons e evs)
  then obtain st1 where s: "app_step Probe e st = Ok st1" and r: "go_fold (app_step Probe) evs st1 = Ok st'"
    by (auto simp: go_bind_eq_Ok)
  have "sink_stats (st_sink st1) = latest (sink_stats (st_sink st)) (if st_statsOn st then stats_of [e] else [])"
    using s by (cases e) (auto simp: go_bind_eq_Ok stats_of_def latest_def RecordConflict_def RecordStats_def split: prod.splits)
  moreover have "st_statsOn st1 = st_statsOn st" using app_step_Probe [OF s] by simp
  ultimately show ?case using Cons.IH [OF r] by (simp add: stats_of_def)
qed (simp add: stats_of_def latest_def)

lemma probe_sink:
  "go_fold (app_step Probe) evs st = Ok st' \<Longrightarrow>
   sink_records (st_sink st') = sink_records (st_sink st) @ (if st_conflictOn st then conflicts_of evs else [])"
proof (induction evs arbitrary: st)
  case (Cons e evs)
  then obtain st1 where s: "app_step Probe e st = Ok st1" and r: "go_fold (app_step Probe) evs st1 = Ok st'"
    by (auto simp: go_bind_eq_Ok)
  have "sink_records (st_sink st1) = sink_records (st_sink st) @ (if st_conflictOn st then conflicts_of [e] else [])"
    using s by (cases e) (auto simp: go_bind_eq_Ok conflicts_of_def RecordConflict_def RecordStats_def split: prod.splits)
  moreover have "st_conflictOn st1 = st_conflictOn st" using app_step_Probe [OF s] by simp
  ultimately show ?case using Cons.IH [OF r] by (simp add: conflicts_of_def)
qed (simp add: conflicts_of_def)

lemma finalize_Oracle:
  assumes "finalize Oracle app height txs st = (Ok res, st')" "\<not> st_conflictOn st" "\<not> st_statsOn st"
  shows "st_sink st' = st_sink st \<and> ob_frame (st_oracleObs st') = ob_frame (st_oracleObs st) \<and>
    (ob_wf (st_oracleObs st) \<longrightarrow> ob_wf (st_oracleObs st'))"
proof -
  obtain evs where "go_fold (app_step Oracle) evs st = Ok st'"
    using assms(1) by (auto simp: finalize_def split: prod.splits go.splits)
  then have "st_sink st' = st_sink st \<and> ob_frame (st_oracleObs st') = ob_frame (st_oracleObs st) \<and>
      (ob_wf (st_oracleObs st) \<longrightarrow> ob_wf (st_oracleObs st')) \<and> \<not> st_conflictOn st' \<and> \<not> st_statsOn st'"
    by (rule go_fold_invariant) (use assms app_step_Oracle in auto)
  then show ?thesis by simp
qed

lemma finalize_Probe:
  assumes "finalize Probe app height txs st = (Ok res, st')"
  shows "st_oracleObs st' = st_oracleObs st \<and>
    sink_records (st_sink st') = sink_records (st_sink st) @
      (if st_conflictOn st then conflicts_of (snd (ap_FinalizeBlock app height txs (st_world st))) else []) \<and>
    sink_stats (st_sink st') = latest (sink_stats (st_sink st))
      (if st_statsOn st then stats_of (snd (ap_FinalizeBlock app height txs (st_world st))) else [])"
proof -
  obtain evs where f: "go_fold (app_step Probe) evs st = Ok st'"
      and e: "evs = snd (ap_FinalizeBlock app height txs (st_world st))"
    using assms by (auto simp: finalize_def split: prod.splits go.splits)
  have "st_oracleObs st' = st_oracleObs st"
    using go_fold_invariant [OF f, of "\<lambda>s. st_oracleObs s = st_oracleObs st"] app_step_Probe by metis
  then show ?thesis using probe_sink [OF f] probe_stats [OF f] e by simp
qed

section \<open>A finished block\<close>

text \<open>The transactions of a block: the built ones, or the raw ones of a snapshot when none was built.\<close>

definition block_txs :: "BlockSpec \<Rightarrow> bytes list \<Rightarrow> bytes list" where
  "block_txs b built = (if built = [] \<and> bl_RawTxs b \<noteq> [] then bl_RawTxs b else built)"

text \<open>The stages of a block that finishes, as a relation between the states at the start of each stage.\<close>

definition block_stages ::
  "('w, 'k, 'c, 'm, 't) FixtureExecutor \<Rightarrow> int \<Rightarrow> bytes list \<Rightarrow> 'w MutationTracker list \<Rightarrow> 'w \<Rightarrow> Response \<Rightarrow>
   'w run_state \<Rightarrow> 'w run_state \<Rightarrow> Response \<Rightarrow> 'w run_state \<Rightarrow> bool" where
  "block_stages fe height txs trackers w1 ora st1 st2 prb st3 \<longleftrightarrow>
     finalize Oracle (fe_Oracle fe) height txs (start_state fe (length txs) trackers w1) = (Ok ora, st1) \<and>
     st2 = post_oracle_hook fe trackers (take_snapshots trackers w1) st1 \<and>
     finalize Probe (fe_Probe fe) height txs st2 = (Ok prb, st3)"

lemma Run_Ok_iff:
  "Run input w = (Ok r, w') \<longleftrightarrow>
     (\<exists>ora w1 prb w2. in_Oracle input w = (Ok ora, w1) \<and> in_Probe input (post_oracle input w1) = (Ok prb, w2) \<and>
        r = block_result (in_Height input) ora (fst (compare_findings input ora prb w2)) \<and>
        w' = snd (compare_findings input ora prb w2))"
  by (auto simp: Run_def split: prod.splits go.splits)

lemma fixture_Ok:
  assumes "fixture_RunBlock fe b height (seqs, w) = (Ok r, seqs', w')"
  obtains built trackers ctxMuts w1 ora st1 st2 prb st3 where
    "fe_build fe b seqs = (Ok built, seqs')"
    "block_trackers fe height w = (trackers, ctxMuts, w1)"
    "block_stages fe height (block_txs b built) trackers w1 ora st1 st2 prb st3"
    "let input = block_input fe height (block_txs b built) trackers ctxMuts (take_snapshots trackers w1);
         (fs, st4) = compare_findings input ora prb st3
     in r = add_msg_keys (bl_Txs b) (length (block_txs b built)) (st_oracleObs st4)
          (add_conflicts (st_sink st4) (block_result height ora fs))"
proof -
  obtain built where b: "fe_build fe b seqs = (Ok built, seqs')"
    using assms by (auto simp: fixture_RunBlock_def Let_def split: prod.splits go.splits)
  obtain trackers ctxMuts w1 where t: "block_trackers fe height w = (trackers, ctxMuts, w1)"
    by (metis prod_cases3)
  let ?txs = "block_txs b built"
  let ?input = "block_input fe height ?txs trackers ctxMuts (take_snapshots trackers w1)"
  obtain res st4 where run: "Run ?input (start_state fe (length ?txs) trackers w1) = (res, st4)" by fastforce
  obtain r0 where r0: "res = Ok r0"
    and r: "r = add_msg_keys (bl_Txs b) (length ?txs) (st_oracleObs st4) (add_conflicts (st_sink st4) r0)"
    using assms run
    by (auto simp: fixture_RunBlock_def b t block_txs_def [symmetric] Let_def split: go.splits prod.splits)
  have io: "in_Oracle ?input = finalize Oracle (fe_Oracle fe) height ?txs"
      "in_Probe ?input = finalize Probe (fe_Probe fe) height ?txs"
      "post_oracle ?input = post_oracle_hook fe trackers (take_snapshots trackers w1)" "in_Height ?input = height"
    by (simp_all add: block_input_def post_oracle_def fun_eq_iff)
  obtain ora st1 prb st3 where s: "finalize Oracle (fe_Oracle fe) height ?txs
        (start_state fe (length ?txs) trackers w1) = (Ok ora, st1)"
      "finalize Probe (fe_Probe fe) height ?txs
        (post_oracle_hook fe trackers (take_snapshots trackers w1) st1) = (Ok prb, st3)"
      and e: "r0 = block_result height ora (fst (compare_findings ?input ora prb st3))"
        "st4 = snd (compare_findings ?input ora prb st3)"
    using run [unfolded r0 Run_Ok_iff io] by blast
  show thesis
    by (rule that [OF b t, of ora st1 _ prb st3]) (use s e r in \<open>auto simp: block_stages_def split: prod.splits\<close>)
qed

definition changed_trackers :: "'w MutationTracker list \<Rightarrow> 'w \<Rightarrow> 'w \<Rightarrow> 'w MutationTracker list" where
  "changed_trackers trackers w0 w1 = filter (\<lambda>t. tk_Snapshot t w0 \<noteq> tk_Snapshot t w1) trackers"

definition change_record :: "'w \<Rightarrow> 'w \<Rightarrow> 'w MutationTracker \<Rightarrow> MutationRecord" where
  "change_record w0 w1 t = \<lparr>mr_Tracker = tk_Name t, mr_Before = tk_Snapshot t w0, mr_After = tk_Snapshot t w1\<rparr>"

definition mutation_finding :: "int \<Rightarrow> MutationRecord \<Rightarrow> Finding" where
  "mutation_finding height m = NewFinding height DimOutOfKVStore 0 0
     (mr_Tracker m @ '':'' @ hex_encode (mr_Before m)) (mr_Tracker m @ '':'' @ hex_encode (mr_After m))"

lemma AddBlockMutation_empty: "ob_mutSets ob = [] \<Longrightarrow> fold AddBlockMutation ms ob = ob"
  by (induction ms) (auto simp: AddBlockMutation_def)

lemma diff_changed:
  "diff_snapshots ts (take_snapshots ts w0) w1 = map (change_record w0 w1) (changed_trackers ts w0 w1)"
  by (simp add: diff_take_snapshots changed_trackers_def change_record_def)

lemma mutations_of_hook:
  assumes "ob_wf ob"
  shows "mutations_of (fold AddBlockMutation ms ob) i =
    mutations_of ob i @ (if i = 0 \<and> ob_writeSets ob \<noteq> [] then ms else [])"
proof (cases "ob_mutSets ob = []")
  case True
  then show ?thesis using assms by (auto simp: AddBlockMutation_empty ob_wf_def)
next
  case False
  then have "ob_writeSets ob \<noteq> []" using assms by (auto simp: ob_wf_def)
  then show ?thesis
    using False by (auto simp: fold_AddBlockMutation mutations_of_def TxMutations_def go_nth_def nth_list_update)
qed

lemma mutations_of_outside: "ob_wf ob \<Longrightarrow> length (ob_writeSets ob) \<le> i \<Longrightarrow> mutations_of ob i = []"
  by (simp add: mutations_of_def TxMutations_def ob_wf_def)

lemma start_state_ob:
  "ob_wf (st_oracleObs (start_state fe n trackers w))"
  "length (ob_writeSets (st_oracleObs (start_state fe n trackers w))) = n"
  "\<not> st_conflictOn (start_state fe n trackers w)" "\<not> st_statsOn (start_state fe n trackers w)"
  "sink_records (st_sink (start_state fe n trackers w)) = []"
  "sink_stats (st_sink (start_state fe n trackers w)) = None"
  by (auto simp: start_state_def ob_wf_def NewBlockObserver_def AddTxSetter_def list_all_iff NewConflictSink_def
      split: option.split)

text \<open>What the stages leave in the oracle's observer and in the sink.\<close>

lemma stages:
  assumes "block_stages fe height txs trackers w1 ora st1 st2 prb st3"
  shows "mutations_of (st_oracleObs st3) i = mutations_of (st_oracleObs st1) i @
      (if i = 0 \<and> txs \<noteq> [] then map (change_record w1 (st_world st2)) (changed_trackers trackers w1 (st_world st2)) else [])"
    and "length txs \<le> i \<Longrightarrow> mutations_of (st_oracleObs st3) i = []"
    and "sink_records (st_sink st3) = (if fe_ConflictDetection fe \<and> fe_ConflictInstaller fe
      then conflicts_of (snd (ap_FinalizeBlock (fe_Probe fe) height txs (st_world st2))) else [])"
    and "sink_stats (st_sink st3) = latest None (if fe_StatsInstaller fe
      then stats_of (snd (ap_FinalizeBlock (fe_Probe fe) height txs (st_world st2))) else [])"
proof -
  note st = assms [unfolded block_stages_def]
  note ini = start_state_ob [of fe "length txs" trackers w1]
  have ora: "st_sink st1 = st_sink (start_state fe (length txs) trackers w1)" "ob_wf (st_oracleObs st1)"
      "length (ob_writeSets (st_oracleObs st1)) = length txs"
    using finalize_Oracle [OF st [THEN conjunct1] ini(3,4)] ini by (auto simp: ob_frame_def)
  have h: "st_oracleObs st2 = fold AddBlockMutation
        (map (change_record w1 (st_world st2)) (changed_trackers trackers w1 (st_world st2))) (st_oracleObs st1)"
      "st_sink st2 = st_sink st1" "st_conflictOn st2 = (fe_ConflictDetection fe \<and> fe_ConflictInstaller fe)"
      "st_statsOn st2 = fe_StatsInstaller fe"
    using st by (auto simp: post_oracle_hook_def Let_def diff_changed)
  have p: "st_oracleObs st3 = st_oracleObs st2" "sink_records (st_sink st3) = sink_records (st_sink st2) @
      (if st_conflictOn st2 then conflicts_of (snd (ap_FinalizeBlock (fe_Probe fe) height txs (st_world st2))) else [])"
      "sink_stats (st_sink st3) = latest (sink_stats (st_sink st2))
      (if st_statsOn st2 then stats_of (snd (ap_FinalizeBlock (fe_Probe fe) height txs (st_world st2))) else [])"
    using finalize_Probe [OF st [THEN conjunct2, THEN conjunct2]] by auto
  show m: "mutations_of (st_oracleObs st3) i = mutations_of (st_oracleObs st1) i @
      (if i = 0 \<and> txs \<noteq> [] then map (change_record w1 (st_world st2)) (changed_trackers trackers w1 (st_world st2)) else [])" for i
    unfolding p h mutations_of_hook [OF ora(2)] using ora(3) by (cases txs) auto
  show "mutations_of (st_oracleObs st3) i = []" if "length txs \<le> i"
    using that mutations_of_outside [OF ora(2), of i] ora(3) by (cases txs) (auto simp: m)
  show "sink_records (st_sink st3) = (if fe_ConflictDetection fe \<and> fe_ConflictInstaller fe
      then conflicts_of (snd (ap_FinalizeBlock (fe_Probe fe) height txs (st_world st2))) else [])"
    using p(2) h(2,3) ora(1) ini(5) by simp
  show "sink_stats (st_sink st3) = latest None (if fe_StatsInstaller fe
      then stats_of (snd (ap_FinalizeBlock (fe_Probe fe) height txs (st_world st2))) else [])"
    using p(3) h(2,4) ora(1) ini(6) by simp
qed

lemma add_result [simp]:
  "r_Verdict (add_msg_keys s n ob (add_conflicts k r)) = r_Verdict r"
  "r_Height (add_msg_keys s n ob (add_conflicts k r)) = r_Height r"
  "r_Findings (add_msg_keys s n ob (add_conflicts k r)) = r_Findings r"
  "r_HotKeys (add_msg_keys s n ob (add_conflicts k r)) = AggregateHotKeys (sink_records k)"
  "r_ExecutionRatio (add_msg_keys s n ob (add_conflicts k r)) =
     (case sink_stats k of None \<Rightarrow> r_ExecutionRatio r | Some x \<Rightarrow> Ratio x)"
  by (simp_all add: add_msg_keys_def add_conflicts_def Drain_def Let_def split: option.split)

lemma block_result_simps [simp]:
  "r_Height (block_result h ora fs) = h" "r_Findings (block_result h ora fs) = fs"
  "r_Verdict (block_result h ora fs) = Match \<longleftrightarrow> fs = []"
  by (simp_all add: block_result_def)

definition block_agrees ::
  "('w, 'k, 'c, 'm, 't) FixtureExecutor \<Rightarrow> bytes list \<Rightarrow> 'w MutationTracker list \<Rightarrow> ('w \<Rightarrow> BlockContextMutation list) option \<Rightarrow>
   'w \<Rightarrow> Response \<Rightarrow> 'w run_state \<Rightarrow> 'w run_state \<Rightarrow> Response \<Rightarrow> 'w run_state \<Rightarrow> bool" where
  "block_agrees fe txs trackers ctxMuts w1 ora st1 st2 prb st3 \<longleftrightarrow>
     rs_AppHash ora = rs_AppHash prb \<and>
     (\<forall>i < txCount ora prb. agree_tx (rs_TxResults ora ! i) (rs_TxResults prb ! i)) \<and>
     (\<forall>i < txCount ora prb. write_set_of (st_oracleObs st3) i = write_set_of (st_probeObs st3) i) \<and>
     (\<forall>i < length txs. mutations_of (st_oracleObs st1) i = []) \<and>
     (txs = [] \<or> (\<forall>t \<in> set trackers. tk_Snapshot t w1 = tk_Snapshot t (st_world st2))) \<and>
     (\<forall>f. ctxMuts = Some f \<longrightarrow> f (st_world st3) = []) \<and>
     (\<forall>drain set_tx. fe_NonDet fe = Some (drain, set_tx) \<longrightarrow> fst (drain (st_world st3)) = [])"

lemma same_block_stages:
  assumes "block_stages fe height txs trackers w1 ora st1 st2 prb st3"
  shows "same_block (block_input fe height txs trackers ctxMuts pre) ora prb st3 \<longleftrightarrow>
    block_agrees fe txs trackers ctxMuts w1 ora st1 st2 prb st3"
proof -
  let ?i = "block_input fe height txs trackers ctxMuts pre"
  have "(\<forall>i < max (txCount ora prb) (length txs). mutations_of (st_oracleObs st3) i = []) \<longleftrightarrow>
      (\<forall>i < length txs. mutations_of (st_oracleObs st3) i = [])"
    using stages(2) [OF assms] by (meson leI less_max_iff_disj)
  also have "\<dots> \<longleftrightarrow> (\<forall>i < length txs. mutations_of (st_oracleObs st1) i = []) \<and>
      (txs = [] \<or> (\<forall>t \<in> set trackers. tk_Snapshot t w1 = tk_Snapshot t (st_world st2)))"
    by (cases txs) (auto simp: stages(1) [OF assms] changed_trackers_def filter_empty_conv)
  finally have mu: "(\<forall>f. in_OracleMutations ?i = Some f \<longrightarrow> (\<forall>i < max (txCount ora prb) (in_TxCount ?i). f st3 i = []))
      \<longleftrightarrow> (\<forall>i < length txs. mutations_of (st_oracleObs st1) i = []) \<and>
      (txs = [] \<or> (\<forall>t \<in> set trackers. tk_Snapshot t w1 = tk_Snapshot t (st_world st2)))"
    by (simp add: block_input_def)
  have nd: "(\<forall>d. in_NonDetProvider ?i = Some d \<longrightarrow> fst (d st3) = []) \<longleftrightarrow>
      (\<forall>drain set_tx. fe_NonDet fe = Some (drain, set_tx) \<longrightarrow> fst (drain (st_world st3)) = [])"
    by (auto simp: block_input_def split: prod.splits)
  show ?thesis
    unfolding same_block_def block_agrees_def mu nd by (auto simp: block_input_def)
qed

lemma mutation_finding_in:
  assumes "m \<in> set (ms 0)" "0 < n"
  shows "mutation_finding h m \<in> set (mutation_findings h n (Some ms))"
  using assms by (auto simp: mutation_findings_def mutation_finding_def intro!: bexI [of _ 0])

lemma fixture_Ok_intro:
  assumes "fe_build fe b seqs = (Ok built, seqs')"
    "block_trackers fe height w = (trackers, ctxMuts, w1)"
    "block_stages fe height (block_txs b built) trackers w1 ora st1 st2 prb st3"
    "\<And>w. fst (commit_both (fe_Oracle fe) (fe_Probe fe) w) = Ok ()"
  shows "\<exists>r w'. fixture_RunBlock fe b height (seqs, w) = (Ok r, seqs', w')"
proof -
  let ?txs = "block_txs b built"
  let ?input = "block_input fe height ?txs trackers ctxMuts (take_snapshots trackers w1)"
  have "in_Oracle ?input (start_state fe (length ?txs) trackers w1) = (Ok ora, st1)"
      "in_Probe ?input (post_oracle ?input st1) = (Ok prb, st3)"
    using assms(3) by (auto simp: block_stages_def block_input_def post_oracle_def)
  then obtain r st4 where r: "Run ?input (start_state fe (length ?txs) trackers w1) = (Ok r, st4)"
    by (simp add: Run_Ok)
  let ?w2 = "case fe_PostRunBlock fe of None \<Rightarrow> st_world st4 | Some f \<Rightarrow> f (st_world st4)"
  obtain w3 where "commit_both (fe_Oracle fe) (fe_Probe fe) ?w2 = (Ok (), w3)"
    using assms(4) [of ?w2] by (metis eq_fst_iff)
  with r show ?thesis
    by (simp add: fixture_RunBlock_def assms(1,2) block_txs_def [symmetric] Let_def)
qed

text \<open>A block that \<open>RunBlock\<close> finishes, for both executors that compare an oracle with one probe.\<close>

lemma fixture_exact:
  assumes "fixture_RunBlock fe b height (seqs, w) = (Ok r, seqs', w')"
  shows "\<exists>built trackers ctxMuts w1 ora st1 st2 prb st3.
    fe_build fe b seqs = (Ok built, seqs') \<and>
    block_trackers fe height w = (trackers, ctxMuts, w1) \<and>
    block_stages fe height (block_txs b built) trackers w1 ora st1 st2 prb st3 \<and>
    r_Height r = height \<and> (r_Verdict r = Match \<longleftrightarrow> r_Findings r = []) \<and>
    (r_Verdict r = Match \<longleftrightarrow> block_agrees fe (block_txs b built) trackers ctxMuts w1 ora st1 st2 prb st3) \<and>
    (block_txs b built \<noteq> [] \<longrightarrow> (\<forall>t \<in> set (changed_trackers trackers w1 (st_world st2)).
       mutation_finding height (change_record w1 (st_world st2) t) \<in> set (r_Findings r)))"
proof -
  obtain built trackers ctxMuts w1 ora st1 st2 prb st3 where
      bt: "fe_build fe b seqs = (Ok built, seqs')"
      and t: "block_trackers fe height w = (trackers, ctxMuts, w1)"
      and s: "block_stages fe height (block_txs b built) trackers w1 ora st1 st2 prb st3"
      and r: "let input = block_input fe height (block_txs b built) trackers ctxMuts (take_snapshots trackers w1);
         (fs, st4) = compare_findings input ora prb st3
       in r = add_msg_keys (bl_Txs b) (length (block_txs b built)) (st_oracleObs st4)
          (add_conflicts (st_sink st4) (block_result height ora fs))"
    by (rule fixture_Ok [OF assms])
  let ?txs = "block_txs b built"
  let ?i = "block_input fe height ?txs trackers ctxMuts (take_snapshots trackers w1)"
  have rr: "r_Height r = height" "r_Findings r = fst (compare_findings ?i ora prb st3)"
      "r_Verdict r = Match \<longleftrightarrow> r_Findings r = []"
    using r by (auto simp: Let_def split: prod.splits)
  have in_r: "mutation_finding height (change_record w1 (st_world st2) t) \<in> set (r_Findings r)"
    if "?txs \<noteq> []" "t \<in> set (changed_trackers trackers w1 (st_world st2))" for t
  proof -
    have "change_record w1 (st_world st2) t \<in> set (mutations_of (st_oracleObs st3) 0)"
      using that stages(1) [OF s, of 0] by simp
    then have "mutation_finding height (change_record w1 (st_world st2) t) \<in>
        set (mutation_findings height (max (txCount ora prb) (length ?txs)) (Some (mutations_of (st_oracleObs st3))))"
      using that(1) by (intro mutation_finding_in) (auto simp: less_max_iff_disj)
    then show ?thesis
      unfolding rr(2) by (simp add: compare_findings_def Let_def block_input_def split: prod.split)
  qed
  show ?thesis
    using bt t s rr in_r compare_findings_Nil [of ?i ora prb st3] same_block_stages [OF s, of ctxMuts "take_snapshots trackers w1"]
    by metis
qed

text \<open>What such a block reports of the probe's run.\<close>

lemma fixture_observed:
  assumes "fixture_RunBlock fe b height (seqs, w) = (Ok r, seqs', w')"
  shows "\<exists>built trackers ctxMuts w1 ora st1 st2 prb st3.
    fe_build fe b seqs = (Ok built, seqs') \<and>
    block_trackers fe height w = (trackers, ctxMuts, w1) \<and>
    block_stages fe height (block_txs b built) trackers w1 ora st1 st2 prb st3 \<and>
    r_HotKeys r = AggregateHotKeys (if fe_ConflictDetection fe \<and> fe_ConflictInstaller fe
      then conflicts_of (snd (ap_FinalizeBlock (fe_Probe fe) height (block_txs b built) (st_world st2))) else []) \<and>
    r_ExecutionRatio r = (case latest None (if fe_StatsInstaller fe
      then stats_of (snd (ap_FinalizeBlock (fe_Probe fe) height (block_txs b built) (st_world st2))) else [])
      of None \<Rightarrow> 0 | Some x \<Rightarrow> Ratio x)"
proof -
  obtain built trackers ctxMuts w1 ora st1 st2 prb st3 where
      bt: "fe_build fe b seqs = (Ok built, seqs')"
      and t: "block_trackers fe height w = (trackers, ctxMuts, w1)"
      and s: "block_stages fe height (block_txs b built) trackers w1 ora st1 st2 prb st3"
      and r: "let input = block_input fe height (block_txs b built) trackers ctxMuts (take_snapshots trackers w1);
         (fs, st4) = compare_findings input ora prb st3
       in r = add_msg_keys (bl_Txs b) (length (block_txs b built)) (st_oracleObs st4)
          (add_conflicts (st_sink st4) (block_result height ora fs))"
    by (rule fixture_Ok [OF assms])
  let ?i = "block_input fe height (block_txs b built) trackers ctxMuts (take_snapshots trackers w1)"
  have "st_sink (snd (compare_findings ?i ora prb st3)) = st_sink st3"
    by (auto simp: compare_findings_def block_input_def Let_def split: prod.splits option.splits)
  then have "r_HotKeys r = AggregateHotKeys (sink_records (st_sink st3)) \<and>
      r_ExecutionRatio r = (case sink_stats (st_sink st3) of None \<Rightarrow> 0 | Some x \<Rightarrow> Ratio x)"
    using r by (auto simp: Let_def block_result_def split: prod.splits option.split)
  then show ?thesis using bt t s unfolding stages(3,4) [OF s] by blast
qed

section \<open>Properties\<close>

text \<open>C3. A block that \<open>RunBlock\<close> finishes: its transactions were built, the oracle ran first, from the initial state, then the hook,
  then the probe. The verdict is \<open>Match\<close> exactly when there is no finding, exactly when the two agree on
  the hash, on every transaction both report and on the write sets, the oracle's callbacks recorded no
  mutation, no tracker changed between the start of the block and the probe (unless the block is empty),
  no block-context mutation and no non-deterministic call was seen. Every tracker that did change has its
  own finding, at transaction 0, in a block that is not empty.\<close>

theorem fixture_block_exact:
  assumes "fixture_RunBlock fe b height (seqs, w) = (Ok r, seqs', w')"
  shows "\<exists>built trackers ctxMuts w1 ora st1 st2 prb st3.
    fe_build fe b seqs = (Ok built, seqs') \<and>
    block_trackers fe height w = (trackers, ctxMuts, w1) \<and>
    block_stages fe height (block_txs b built) trackers w1 ora st1 st2 prb st3 \<and>
    r_Height r = height \<and> (r_Verdict r = Match \<longleftrightarrow> r_Findings r = []) \<and>
    (r_Verdict r = Match \<longleftrightarrow> block_agrees fe (block_txs b built) trackers ctxMuts w1 ora st1 st2 prb st3) \<and>
    (block_txs b built \<noteq> [] \<longrightarrow> (\<forall>t \<in> set (changed_trackers trackers w1 (st_world st2)).
       mutation_finding height (change_record w1 (st_world st2) t) \<in> set (r_Findings r)))"
  by (rule fixture_exact [OF assms])

text \<open>C24. Hot keys and the execution ratio describe the probe's run alone: what the oracle reports is not
  observed. The hot keys are those of the conflicts the probe reported, none when conflict detection is off or no
  installer is registered; the ratio is that of the last statistics it reported, 0 when it reported none or no
  installer is registered.\<close>

theorem fixture_hot_keys_from_probe:
  assumes "fixture_RunBlock fe b height (seqs, w) = (Ok r, seqs', w')"
  shows "\<exists>built trackers ctxMuts w1 ora st1 st2 prb st3.
    fe_build fe b seqs = (Ok built, seqs') \<and>
    block_trackers fe height w = (trackers, ctxMuts, w1) \<and>
    block_stages fe height (block_txs b built) trackers w1 ora st1 st2 prb st3 \<and>
    r_HotKeys r = AggregateHotKeys (if fe_ConflictDetection fe \<and> fe_ConflictInstaller fe
      then conflicts_of (snd (ap_FinalizeBlock (fe_Probe fe) height (block_txs b built) (st_world st2))) else []) \<and>
    r_ExecutionRatio r = (case latest None (if fe_StatsInstaller fe
      then stats_of (snd (ap_FinalizeBlock (fe_Probe fe) height (block_txs b built) (st_world st2))) else [])
      of None \<Rightarrow> 0 | Some x \<Rightarrow> Ratio x)"
  by (rule fixture_observed [OF assms])

text \<open>C11. Signing: when all transactions of a block are built, every signer's sequence has advanced by
  the number of its transactions that have no raw builder, modulo \<open>2\<close>^\<open>64\<close>, and each of those
  transactions is signed, with the signer's key and account number, for the sequence its position gives.\<close>

theorem signing_sequences:
  assumes "build_txs lib keys nums raw builders specs seqs = (Ok txs, seqs')"
  shows "seqs' = advanced raw specs seqs \<and> length txs = length specs \<and>
    (\<forall>i < length specs. case raw (tx_Msg (specs ! i)) of
        Some rb \<Rightarrow> rb (specs ! i) keys = Ok (txs ! i)
      | None \<Rightarrow> signed_with lib keys nums builders (specs ! i)
                  (advanced raw (take i specs) seqs (tx_Signer (specs ! i))) (txs ! i))"
  by (rule build_txs_Ok [OF assms])

text \<open>A block that cannot be built does not run, and still consumes sequence numbers: the memory is
  unchanged, and the sequences are those after some prefix of the block's transactions.\<close>

theorem failed_build_consumes_sequences:
  assumes "fe_build fe b seqs = (Err e, seqs')"
  shows "fixture_RunBlock fe b height (seqs, w) = (Err e, seqs', w) \<and>
    (\<exists>n \<le> length (bl_Txs b). seqs' = advanced (fe_RawBuilders fe) (take n (bl_Txs b)) seqs)"
  using build_txs_prefix [of "bl_Txs b" "fe_Lib fe" "fe_Keys fe" "fe_AccountNums fe" "fe_RawBuilders fe"
      "mergedTxBuilders (fe_PackageBuilders fe) (fe_Builders fe)" seqs] assms
  by (simp add: fixture_RunBlock_def)

section \<open>Instances\<close>

text \<open>An executor over the world of a counter, with one tracker; the oracle's transaction advances the
  counter and writes a key, and both sides report conflicts.\<close>

definition example_lib :: "(nat, nat, nat, nat list) TxLib" where
  "example_lib = \<lparr>tl_ParseCoins = (\<lambda>s. Ok (length s)), tl_MsgSend = (\<lambda>a b c. a + b + c),
     tl_GenSigned = (\<lambda>ms gas num s k. Ok (unat s # k # ms)), tl_Encode = (\<lambda>t. Ok (map of_nat t))\<rparr>"

definition example_conflict :: "string \<Rightarrow> ConflictRecord" where
  "example_conflict k = \<lparr>cr_Store = ''bank'', cr_TxIndex = 0, cr_Key = [1], cr_Reason = k\<rparr>"

definition example_oracle :: "nat App" where
  "example_oracle = \<lparr>ap_FinalizeBlock = (\<lambda>h txs w. (Ok example_response,
       [AppObs (ObStart 0), AppObs (ObWrite ''bank'' [1] 0), AppConflict (example_conflict ''o''), AppObs (ObApp Suc),
        AppObs (ObEnd 0)])),
     ap_Commit = (\<lambda>w. (Ok (), w))\<rparr>"

definition example_probe :: "nat App" where
  "example_probe = \<lparr>ap_FinalizeBlock = (\<lambda>h txs w. (Ok example_response, [AppConflict (example_conflict ''p'')])),
     ap_Commit = (\<lambda>w. (Ok (), w))\<rparr>"

definition example_fe :: "(nat, nat, nat, nat, nat list) FixtureExecutor" where
  "example_fe = \<lparr>fe_Lib = example_lib, fe_Oracle = example_oracle, fe_Probe = example_probe,
     fe_Keys = [''alice'' \<mapsto> 1, ''bob'' \<mapsto> 2], fe_AccountNums = (\<lambda>_. 0),
     fe_Trackers = [\<lparr>tk_Name = ''bank'', tk_Snapshot = (\<lambda>w. [of_nat w]), tk_Setter = None\<rparr>],
     fe_RawBuilders = Map.empty, fe_PackageBuilders = Map.empty, fe_Builders = Map.empty,
     fe_ConflictDetection = True, fe_ConflictInstaller = True, fe_StatsInstaller = True, fe_BlockCtx = None, fe_PreProbeSetup = None, fe_PostRunBlock = None,
     fe_NonDet = None\<rparr>"

definition example_send :: "string \<Rightarrow> TxSpec" where
  "example_send to = \<lparr>tx_Signer = ''alice'', tx_Msg = ''bank-send'', tx_To = to, tx_Amount = ''1stake'',
     tx_Gas = 100, tx_Key = '''', tx_Value = 0, tx_Field = ''''\<rparr>"

definition example_block :: BlockSpec where
  "example_block = zero_block\<lparr>bl_Txs := [example_send ''bob'']\<rparr>"

lemmas example_defs = example_fe_def example_block_def example_send_def example_lib_def example_oracle_def
  example_probe_def zero_block_def

lemma example_build:
  "fe_build example_fe example_block (\<lambda>_. 0) =
   (Ok [[0, 1, 9]], (\<lambda>_. 0)(''alice'' := 1))"
  by (simp add: example_defs buildTx_def tx_msgs_def mergedTxBuilders_def Let_def)

lemma example_trackers: "block_trackers example_fe h w = (fe_Trackers example_fe, None, w)"
  by (simp add: block_trackers_def example_fe_def)

lemma example_txs: "block_txs example_block [[0, 1, 9]] = [[0, 1, 9]]"
  by (simp add: block_txs_def)

lemma example_oracle_run:
  "\<exists>st1. finalize Oracle example_oracle h [[0, 1, 9]] (start_state example_fe 1 (fe_Trackers example_fe) w) =
     (Ok example_response, st1) \<and> st_world st1 = Suc w"
  by (simp add: finalize_def example_oracle_def start_state_def example_fe_def NewBlockObserver_def OnTxStart_def
      OnKVWrite_def OnTxEnd_def go_nth_def go_update_def Let_def)

lemma example_probe_run:
  "\<exists>st3. finalize Probe example_probe h txs st = (Ok example_response, st3)"
  by (simp add: finalize_def example_probe_def)

lemma example_stages:
  assumes "block_stages example_fe h [[0, 1, 9]] (fe_Trackers example_fe) w ora st1 st2 prb st3"
  shows "st_world st2 = Suc w" "prb = example_response"
  using assms example_oracle_run [of h w] 
  by (auto simp: block_stages_def example_fe_def finalize_def example_probe_def post_oracle_hook_def Let_def)

lemma example_runs:
  "\<exists>r w'. fixture_RunBlock example_fe example_block 5 (\<lambda>_. 0, 0) = (Ok r, (\<lambda>_. 0)(''alice'' := 1), w')"
proof -
  obtain st1 where o: "finalize Oracle example_oracle 5 [[0, 1, 9]]
      (start_state example_fe 1 (fe_Trackers example_fe) 0) = (Ok example_response, st1)"
    using example_oracle_run by blast
  let ?st2 = "post_oracle_hook example_fe (fe_Trackers example_fe) (take_snapshots (fe_Trackers example_fe) 0) st1"
  obtain st3 where p: "finalize Probe example_probe 5 [[0, 1, 9]] ?st2 = (Ok example_response, st3)"
    using example_probe_run by blast
  have "block_stages example_fe 5 (block_txs example_block [[0, 1, 9]]) (fe_Trackers example_fe) 0
      example_response st1 ?st2 example_response st3"
    using o p by (simp add: block_stages_def example_txs example_fe_def)
  then show ?thesis
    by (rule fixture_Ok_intro [OF example_build example_trackers])
      (simp add: commit_both_def example_fe_def example_oracle_def example_probe_def)
qed

theorem fixture_block_exact_witness:
  "\<exists>r s w'. fixture_RunBlock example_fe example_block 5 (\<lambda>_. 0, 0) = (Ok r, s, w') \<and> r_Verdict r = Divergence \<and>
     mutation_finding 5 \<lparr>mr_Tracker = ''bank'', mr_Before = [0], mr_After = [1]\<rparr> \<in> set (r_Findings r)"
proof -
  obtain r w' where e: "fixture_RunBlock example_fe example_block 5 (\<lambda>_. 0, 0) = (Ok r, (\<lambda>_. 0)(''alice'' := 1), w')"
    using example_runs by blast
  obtain built trackers ctxMuts w1 ora prb and st1 st2 st3 :: "nat run_state" where
      b: "fe_build example_fe example_block (\<lambda>_. 0) = (Ok built, (\<lambda>_. 0)(''alice'' := 1))"
      and t: "block_trackers example_fe 5 0 = (trackers, ctxMuts, w1)"
      and st: "block_stages example_fe 5 (block_txs example_block built) trackers w1 ora st1 st2 prb st3"
      and v: "r_Verdict r = Match \<longleftrightarrow> r_Findings r = []"
      and fs: "block_txs example_block built \<noteq> [] \<longrightarrow> (\<forall>t \<in> set (changed_trackers trackers w1 (st_world st2)).
        mutation_finding 5 (change_record w1 (st_world st2) t) \<in> set (r_Findings r))"
    using fixture_block_exact [OF e] by blast
  have bu: "built = [[0, 1, 9]]" "trackers = fe_Trackers example_fe" "w1 = 0"
    using b t by (simp_all add: example_build example_trackers)
  have s: "block_stages example_fe 5 [[0, 1, 9]] (fe_Trackers example_fe) 0 ora st1 st2 prb st3"
    using st by (simp add: bu example_txs)
  have f: "\<forall>t \<in> set (changed_trackers (fe_Trackers example_fe) 0 (st_world st2)).
      mutation_finding 5 (change_record 0 (st_world st2) t) \<in> set (r_Findings r)"
    using fs by (simp add: bu example_txs)
  have "mutation_finding 5 \<lparr>mr_Tracker = ''bank'', mr_Before = [0], mr_After = [1]\<rparr> \<in> set (r_Findings r)"
    using f example_stages(1) [OF s] by (simp add: changed_trackers_def change_record_def example_fe_def)
  moreover from this have "r_Findings r \<noteq> []" by (cases "r_Findings r") simp_all
  then have "r_Verdict r = Divergence" using v by (cases "r_Verdict r") simp_all
  ultimately show ?thesis using e by blast
qed

theorem fixture_hot_keys_from_probe_witness:
  "\<exists>r s w'. fixture_RunBlock example_fe example_block 5 (\<lambda>_. 0, 0) = (Ok r, s, w') \<and>
     r_HotKeys r = AggregateHotKeys [example_conflict ''p'']"
proof -
  obtain r w' where e: "fixture_RunBlock example_fe example_block 5 (\<lambda>_. 0, 0) = (Ok r, (\<lambda>_. 0)(''alice'' := 1), w')"
    using example_runs by blast
  from fixture_hot_keys_from_probe [OF e] obtain txs and st2 :: "nat run_state" where
      "r_HotKeys r = AggregateHotKeys (if fe_ConflictDetection example_fe \<and> fe_ConflictInstaller example_fe
        then conflicts_of (snd (ap_FinalizeBlock (fe_Probe example_fe) 5 txs (st_world st2))) else [])"
    by blast
  then have "r_HotKeys r = AggregateHotKeys [example_conflict ''p'']"
    by (simp only: example_fe_def FixtureExecutor.simps example_probe_def App.simps conflicts_of_def) simp
  then show ?thesis using e by blast
qed

theorem signing_sequences_witness:
  "snd (build_txs example_lib [''alice'' \<mapsto> 1, ''bob'' \<mapsto> 2] (\<lambda>_. 0) Map.empty Map.empty
      [example_send ''bob'', example_send ''bob''] (\<lambda>_. 4)) ''alice'' = 6"
proof -
  let ?b = "build_txs example_lib [''alice'' \<mapsto> 1, ''bob'' \<mapsto> 2] (\<lambda>_. 0) Map.empty Map.empty
      [example_send ''bob'', example_send ''bob''] (\<lambda>_. 4)"
  have "?b = (Ok [[4, 1, 9], [5, 1, 9]], snd ?b)"
    by (simp add: example_send_def example_lib_def buildTx_def tx_msgs_def Let_def)
  from signing_sequences [OF this] show ?thesis
    by (simp add: advanced_def example_send_def)
qed

theorem failed_build_consumes_sequences_witness:
  "fixture_RunBlock example_fe (zero_block\<lparr>bl_Txs := [example_send ''bob'', example_send ''carol'']\<rparr>) 5 (\<lambda>_. 0, 0) =
     (Err (ErrWrap (build_error ''build tx'' (example_send ''carol'')) (ErrMsg (''unknown recipient '' @ quoted ''carol''))),
      (\<lambda>_. 0)(''alice'' := 1), 0)"
proof -
  let ?b = "zero_block\<lparr>bl_Txs := [example_send ''bob'', example_send ''carol'']\<rparr>"
  have "fe_build example_fe ?b (\<lambda>_. 0) =
     (Err (ErrWrap (build_error ''build tx'' (example_send ''carol'')) (ErrMsg (''unknown recipient '' @ quoted ''carol''))),
      (\<lambda>_. 0)(''alice'' := 1))"
    by (simp add: example_defs buildTx_def tx_msgs_def mergedTxBuilders_def Let_def)
  from failed_build_consumes_sequences [OF this] show ?thesis by blast
qed

end
