(* ===== verification/Canary_Module.thy ===== *)
theory Canary_Module
  imports Executors Canary_Msgs
begin

text \<open>
  \<open>x/simcanary/keeper/keeper.go\<close>, \<open>x/simcanary/handler_mapshared.go\<close>, \<open>handler_blockctx.go\<close>, the method
  handlers of \<open>x/simcanary/types/codec.go\<close> and \<open>run/executor_canary.go\<close>: the module that misbehaves on
  purpose. Its keeper holds a map outside the KV store, which a racing probe reads too early. The KV store
  is a map of bytes; the delay only shifts goroutines in time, which the interleavings of the second half
  of this theory cover. An \<open>int64\<close> is the word that holds it. One process-wide tracker of block-context fields is shared with the executor.
\<close>

section \<open>The keeper\<close>

record Keeper =
  kp_sharedMap :: "string \<Rightarrow> u64"
  kp_blockCtxWriter :: bool
  kp_tracker :: BlockContextTracker
  kp_SetValueDelay :: int
  kp_store :: "bytes \<rightharpoonup> bytes"

text \<open>The result of opening and writing the KV store is the SDK's; \<open>kv_set\<close> says which error it gives.\<close>

type_synonym kv_set = "bytes \<Rightarrow> bytes \<Rightarrow> unit go"

definition NewKeeper :: "(bytes \<rightharpoonup> bytes) \<Rightarrow> Keeper" where
  "NewKeeper ss = \<lparr>kp_sharedMap = (\<lambda>_. 0), kp_blockCtxWriter = False,
     kp_tracker = NewBlockContextTracker Map.empty, kp_SetValueDelay = 0, kp_store = ss\<rparr>"

definition SetMapValue :: "string \<Rightarrow> u64 \<Rightarrow> Keeper \<Rightarrow> Keeper" where
  "SetMapValue key value k = k\<lparr>kp_sharedMap := (kp_sharedMap k)(key := value)\<rparr>"

definition GetMapValue :: "string \<Rightarrow> Keeper \<Rightarrow> u64" where
  "GetMapValue key k = kp_sharedMap k key"

definition SetBlockContextWriter :: "Keeper \<Rightarrow> Keeper" where
  "SetBlockContextWriter k = k\<lparr>kp_blockCtxWriter := True\<rparr>"

definition WriteBlockCtxField :: "string \<Rightarrow> string \<Rightarrow> Keeper \<Rightarrow> Keeper" where
  "WriteBlockCtxField name value k =
     (if \<not> kp_blockCtxWriter k then k else k\<lparr>kp_tracker := WriteField name value (kp_tracker k)\<rparr>)"

definition ReadBlockCtxField :: "string \<Rightarrow> Keeper \<Rightarrow> string \<times> Keeper" where
  "ReadBlockCtxField name k =
     (if \<not> kp_blockCtxWriter k then ('''', k)
      else (case ReadField name (kp_tracker k) of (v, t) \<Rightarrow> (v, k\<lparr>kp_tracker := t\<rparr>)))"

text \<open>\<open>binary.BigEndian.PutUint64\<close>.\<close>

definition be64 :: "u64 \<Rightarrow> bytes" where
  "be64 w = map (\<lambda>i. ucast (drop_bit (8 * (7 - i)) w)) [0..<8]"

definition canary_key :: "string \<Rightarrow> bytes" where
  "canary_key key = bytes_of_string (''canary/'' @ key)"

definition WriteToStore :: "kv_set \<Rightarrow> string \<Rightarrow> u64 \<Rightarrow> Keeper \<Rightarrow> unit go \<times> Keeper" where
  "WriteToStore kv_set key value k =
     (let buf = be64 value in
      case kv_set (canary_key key) buf of
        Ok _ \<Rightarrow> (Ok (), k\<lparr>kp_store := (kp_store k)(canary_key key \<mapsto> buf)\<rparr>)
      | r \<Rightarrow> (r, k))"

section \<open>The message server\<close>

definition MapSet :: "MsgCanaryMapSet \<Rightarrow> Keeper \<Rightarrow> unit go \<times> Keeper" where
  "MapSet msg k = (Ok (), SetMapValue (ms_Key msg) (ms_Value msg) k)"

definition MapReadAndWrite ::
  "kv_set \<Rightarrow> MsgCanaryMapReadAndWrite \<Rightarrow> Keeper \<Rightarrow> MsgCanaryMapReadAndWriteResponse go \<times> Keeper" where
  "MapReadAndWrite kv_set msg k =
     (let val = GetMapValue (rw_Key msg) k in
      case WriteToStore kv_set (rw_Key msg) val k of
        (Ok _, k1) \<Rightarrow> (Ok \<lparr>rr_ObservedValue = val\<rparr>, k1)
      | (Err e, k1) \<Rightarrow> (Err e, k1)
      | (Panic p, k1) \<Rightarrow> (Panic p, k1))"

definition BlockContextSet :: "MsgCanaryBlockContextSet \<Rightarrow> Keeper \<Rightarrow> unit go \<times> Keeper" where
  "BlockContextSet msg k = (Ok (), WriteBlockCtxField (bs_Field msg) (bs_Value msg) k)"

definition BlockContextRead ::
  "MsgCanaryBlockContextRead \<Rightarrow> Keeper \<Rightarrow> MsgCanaryBlockContextReadResponse go \<times> Keeper" where
  "BlockContextRead msg k =
     (case ReadBlockCtxField (br_Field msg) k of (val, k1) \<Rightarrow> (Ok \<lparr>rs_Value = val\<rparr>, k1))"

text \<open>A response is one of four.\<close>

datatype canary_response =
  RespMapSet | RespMapReadAndWrite MsgCanaryMapReadAndWriteResponse
  | RespBlockContextSet | RespBlockContextRead MsgCanaryBlockContextReadResponse

datatype canary_msg =
  CMapSet MsgCanaryMapSet | CMapReadAndWrite MsgCanaryMapReadAndWrite
  | CBlockContextSet MsgCanaryBlockContextSet | CBlockContextRead MsgCanaryBlockContextRead

fun msg_server :: "kv_set \<Rightarrow> canary_msg \<Rightarrow> Keeper \<Rightarrow> canary_response go \<times> Keeper" where
  "msg_server kv_set (CMapSet m) k = (case MapSet m k of (r, k1) \<Rightarrow> (go_bind r (\<lambda>_. Ok RespMapSet), k1))"
| "msg_server kv_set (CMapReadAndWrite m) k =
     (case MapReadAndWrite kv_set m k of (r, k1) \<Rightarrow> (go_bind r (\<lambda>x. Ok (RespMapReadAndWrite x)), k1))"
| "msg_server kv_set (CBlockContextSet m) k =
     (case BlockContextSet m k of (r, k1) \<Rightarrow> (go_bind r (\<lambda>_. Ok RespBlockContextSet), k1))"
| "msg_server kv_set (CBlockContextRead m) k =
     (case BlockContextRead m k of (r, k1) \<Rightarrow> (go_bind r (\<lambda>x. Ok (RespBlockContextRead x)), k1))"

section \<open>Builders and hooks of the executor\<close>

text \<open>\<open>addr\<close> is the bech32 address of a key.\<close>

definition with_signer :: "TxSpec \<Rightarrow> (string \<rightharpoonup> 'k) \<Rightarrow> ('k \<Rightarrow> canary_msg) \<Rightarrow> canary_msg list go" where
  "with_signer spec keys mk =
     (case keys (tx_Signer spec) of
        None \<Rightarrow> Err (ErrMsg (''unknown signer '' @ quoted (tx_Signer spec)))
      | Some fromKey \<Rightarrow> Ok [mk fromKey])"

definition buildCanaryMapSet :: "('k \<Rightarrow> string) \<Rightarrow> TxSpec \<Rightarrow> (string \<rightharpoonup> 'k) \<Rightarrow> canary_msg list go" where
  "buildCanaryMapSet addr spec keys = with_signer spec keys (\<lambda>fromKey.
     CMapSet \<lparr>ms_Sender = addr fromKey, ms_Key = tx_Key spec, ms_Value = word_of_int (tx_Value spec)\<rparr>)"

definition buildCanaryMapReadAndWrite :: "('k \<Rightarrow> string) \<Rightarrow> TxSpec \<Rightarrow> (string \<rightharpoonup> 'k) \<Rightarrow> canary_msg list go" where
  "buildCanaryMapReadAndWrite addr spec keys = with_signer spec keys (\<lambda>fromKey.
     CMapReadAndWrite \<lparr>rw_Sender = addr fromKey, rw_Key = tx_Key spec\<rparr>)"

definition buildCanaryBlockContextSet :: "('k \<Rightarrow> string) \<Rightarrow> TxSpec \<Rightarrow> (string \<rightharpoonup> 'k) \<Rightarrow> canary_msg list go" where
  "buildCanaryBlockContextSet addr spec keys = with_signer spec keys (\<lambda>fromKey.
     CBlockContextSet \<lparr>bs_Sender = addr fromKey, bs_Field = tx_Field spec, bs_Value = tx_Key spec\<rparr>)"

definition buildCanaryBlockContextRead :: "('k \<Rightarrow> string) \<Rightarrow> TxSpec \<Rightarrow> (string \<rightharpoonup> 'k) \<Rightarrow> canary_msg list go" where
  "buildCanaryBlockContextRead addr spec keys = with_signer spec keys (\<lambda>fromKey.
     CBlockContextRead \<lparr>br_Sender = addr fromKey, br_Field = tx_Field spec\<rparr>)"

definition canary_builders :: "('k \<Rightarrow> string) \<Rightarrow> ('k, canary_msg) builders" where
  "canary_builders addr = [''canary-map-set'' \<mapsto> buildCanaryMapSet addr,
     ''canary-map-read-write'' \<mapsto> buildCanaryMapReadAndWrite addr,
     ''canary-ctx-write'' \<mapsto> buildCanaryBlockContextSet addr,
     ''canary-ctx-read'' \<mapsto> buildCanaryBlockContextRead addr]"

text \<open>The hooks of the executor, on the oracle's keeper if there is one.\<close>

definition canary_PreProbeSetup :: "Keeper \<Rightarrow> Keeper" where
  "canary_PreProbeSetup k = k\<lparr>kp_SetValueDelay := 50\<rparr>"

definition canary_PostRunBlock :: "Keeper \<Rightarrow> Keeper" where
  "canary_PostRunBlock k = k\<lparr>kp_SetValueDelay := 0\<rparr>"

definition canary_BlockCtxTracker :: "bool \<Rightarrow> int \<Rightarrow> Keeper \<Rightarrow>
   (Keeper MutationTracker \<times> (Keeper \<Rightarrow> BlockContextMutation list)) \<times> Keeper" where
  "canary_BlockCtxTracker has_keeper height k =
     (let k1 = k\<lparr>kp_tracker := bt_Reset [''height'' \<mapsto> itoa height] (kp_tracker k)\<rparr>;
          k2 = (if has_keeper then SetBlockContextWriter k1 else k1)
      in ((\<lparr>tk_Name = bt_TrackerName, tk_Snapshot = (\<lambda>_. bt_SnapshotOutOfKVStoreState),
            tk_Setter = Some (\<lambda>i k. k\<lparr>kp_tracker := bt_SetCurrentTx i (kp_tracker k)\<rparr>)\<rparr>,
           \<lambda>k. BlockContextMutations (kp_tracker k)), k2))"

section \<open>Interleavings\<close>

text \<open>The operations of a transaction that touch memory others can see: writing and reading the shared map,
  each under the keeper's mutex, and handing a value to the KV store. The parallel runner keeps the KV writes
  of a transaction apart and applies them in the order of the transactions, so a write is only noted here.
  A transaction is what it has still to do, the value it read last, and its KV write.\<close>

datatype action = Put string u64 | Get string | Store string

fun actions :: "canary_msg \<Rightarrow> action list" where
  "actions (CMapSet m) = [Put (ms_Key m) (ms_Value m)]"
| "actions (CMapReadAndWrite m) = [Get (rw_Key m), Store (rw_Key m)]"
| "actions (CBlockContextSet m) = []"
| "actions (CBlockContextRead m) = []"

record race_tx =
  rt_todo :: "action list"
  rt_val :: u64
  rt_write :: "(string \<times> u64) option"

record race =
  rc_map :: "string \<Rightarrow> u64"
  rc_txs :: "race_tx list"

inductive race_step :: "race \<Rightarrow> race \<Rightarrow> bool" where
  put: "i < length (rc_txs c) \<Longrightarrow> rt_todo (rc_txs c ! i) = Put k v # as \<Longrightarrow>
    race_step c (c\<lparr>rc_map := (rc_map c)(k := v), rc_txs := (rc_txs c)[i := (rc_txs c ! i)\<lparr>rt_todo := as\<rparr>]\<rparr>)"
| get: "i < length (rc_txs c) \<Longrightarrow> rt_todo (rc_txs c ! i) = Get k # as \<Longrightarrow>
    race_step c (c\<lparr>rc_txs := (rc_txs c)[i := (rc_txs c ! i)\<lparr>rt_todo := as, rt_val := rc_map c k\<rparr>]\<rparr>)"
| store: "i < length (rc_txs c) \<Longrightarrow> rt_todo (rc_txs c ! i) = Store k # as \<Longrightarrow>
    race_step c (c\<lparr>rc_txs := (rc_txs c)[i := (rc_txs c ! i)\<lparr>rt_todo := as,
      rt_write := Some (k, rt_val (rc_txs c ! i))\<rparr>]\<rparr>)"

definition race_start :: "(string \<Rightarrow> u64) \<Rightarrow> canary_msg list \<Rightarrow> race" where
  "race_start m msgs = \<lparr>rc_map = m, rc_txs = map (\<lambda>msg. \<lparr>rt_todo = actions msg, rt_val = 0, rt_write = None\<rparr>) msgs\<rparr>"

definition race_done :: "race \<Rightarrow> bool" where
  "race_done c \<longleftrightarrow> list_all (\<lambda>t. rt_todo t = []) (rc_txs c)"

text \<open>The KV store after the block: the writes in the order of the transactions.\<close>

definition apply_writes :: "race_tx list \<Rightarrow> (bytes \<rightharpoonup> bytes) \<Rightarrow> bytes \<rightharpoonup> bytes" where
  "apply_writes txs s = fold (\<lambda>t s. case rt_write t of None \<Rightarrow> s | Some (k, v) \<Rightarrow> s(canary_key k \<mapsto> be64 v)) txs s"

text \<open>The handlers one after the other, as the sequential oracle runs them.\<close>

fun run_handlers :: "canary_msg list \<Rightarrow> Keeper \<Rightarrow> Keeper" where
  "run_handlers [] k = k"
| "run_handlers (m # ms) k = run_handlers ms (snd (msg_server (\<lambda>_ _. Ok ()) m k))"

section \<open>Facts\<close>

inductive_cases race_stepE: "race_step c c'"

lemma race_step_length: "race_step c c' \<Longrightarrow> length (rc_txs c') = length (rc_txs c)"
  by (auto elim: race_stepE)

definition race_left :: "race \<Rightarrow> nat" where
  "race_left c = sum_list (map (\<lambda>t. length (rt_todo t)) (rc_txs c))"

lemma sum_list_update_less:
  "i < length xs \<Longrightarrow> f y < f (xs ! i) \<Longrightarrow> sum_list (map f (xs[i := y])) < (sum_list (map f xs) :: nat)"
  by (induction xs arbitrary: i) (auto split: nat.split simp: nth_Cons)

lemma race_step_less: "race_step c c' \<Longrightarrow> race_left c' < race_left c"
  by (erule race_stepE) (auto simp: race_left_def intro!: sum_list_update_less)

lemma race_progress: "\<not> race_done c \<Longrightarrow> \<exists>c'. race_step c c'"
proof -
  assume "\<not> race_done c"
  then obtain i where i: "i < length (rc_txs c)" and n: "rt_todo (rc_txs c ! i) \<noteq> []"
    by (auto simp: race_done_def list_all_length)
  then obtain a as where a: "rt_todo (rc_txs c ! i) = a # as" by (auto simp: neq_Nil_conv)
  show ?thesis
    by (cases a) (use i a in \<open>auto intro: race_step.intros\<close>)
qed

lemma race_terminates: "\<exists>c'. race_step\<^sup>*\<^sup>* c c' \<and> race_done c'"
proof (induction c rule: measure_induct_rule [of race_left])
  case (less c)
  show ?case
  proof (cases "race_done c")
    case True
    then show ?thesis by blast
  next
    case False
    then obtain c1 where s: "race_step c c1" using race_progress by blast
    then show ?thesis using less [OF race_step_less [OF s]] by (meson converse_rtranclp_into_rtranclp)
  qed
qed

lemma race_bounded: "(race_step ^^ n) c c' \<Longrightarrow> n + race_left c' \<le> race_left c"
proof (induction n arbitrary: c')
  case (Suc n)
  then obtain c1 where "(race_step ^^ n) c c1" "race_step c1 c'" by auto
  with Suc.IH [of c1] race_step_less [of c1 c'] show ?case by simp
qed simp

lemma race_done_no_step: "race_done c \<Longrightarrow> \<not> race_step c c'"
  by (auto simp: race_done_def list_all_length elim!: race_stepE)

text \<open>The values a key of the shared map can have while a block runs.\<close>

definition possible :: "(string \<Rightarrow> u64) \<Rightarrow> canary_msg list \<Rightarrow> string \<Rightarrow> u64 set" where
  "possible m msgs k = insert (m k) {v. \<exists>s. CMapSet \<lparr>ms_Sender = s, ms_Key = k, ms_Value = v\<rparr> \<in> set msgs}"

fun tx_ok :: "(string \<Rightarrow> u64 set) \<Rightarrow> canary_msg \<Rightarrow> race_tx \<Rightarrow> bool" where
  "tx_ok V (CMapSet m) t \<longleftrightarrow> rt_write t = None \<and> (rt_todo t = [Put (ms_Key m) (ms_Value m)] \<or> rt_todo t = [])"
| "tx_ok V (CMapReadAndWrite m) t \<longleftrightarrow>
     (rt_todo t = [Get (rw_Key m), Store (rw_Key m)] \<and> rt_write t = None) \<or>
     (rt_todo t = [Store (rw_Key m)] \<and> rt_write t = None \<and> rt_val t \<in> V (rw_Key m)) \<or>
     (rt_todo t = [] \<and> (\<exists>v \<in> V (rw_Key m). rt_write t = Some (rw_Key m, v)))"
| "tx_ok V (CBlockContextSet m) t \<longleftrightarrow> rt_write t = None \<and> rt_todo t = []"
| "tx_ok V (CBlockContextRead m) t \<longleftrightarrow> rt_write t = None \<and> rt_todo t = []"

definition race_inv :: "(string \<Rightarrow> u64) \<Rightarrow> canary_msg list \<Rightarrow> race \<Rightarrow> bool" where
  "race_inv m msgs c \<longleftrightarrow> list_all2 (tx_ok (possible m msgs)) msgs (rc_txs c) \<and>
     (\<forall>k. rc_map c k \<in> possible m msgs k)"

lemma race_inv_start: "race_inv m msgs (race_start m msgs)"
proof -
  have "tx_ok V msg \<lparr>rt_todo = actions msg, rt_val = 0, rt_write = None\<rparr>" for V msg
    by (cases msg) auto
  then show ?thesis
    by (simp add: race_inv_def race_start_def list_all2_conv_all_nth possible_def)
qed

lemma race_inv_step:
  assumes "race_step c c'" "race_inv m msgs c"
  shows "race_inv m msgs c'"
proof -
  note inv = assms(2) [unfolded race_inv_def list_all2_conv_all_nth]
  from assms(1) show ?thesis
  proof cases
    case (put i k v as)
    then have ok: "tx_ok (possible m msgs) (msgs ! i) (rc_txs c ! i)" and i: "i < length msgs" using inv by auto
    then obtain ms where ms: "msgs ! i = CMapSet ms" "ms_Key ms = k" "ms_Value ms = v" "as = []"
      using put(3) by (cases "msgs ! i") auto
    have "CMapSet ms \<in> set msgs" using ms(1) i by (metis nth_mem)
    then have "v \<in> possible m msgs k"
      using ms(2,3) by (cases ms) (auto simp: possible_def)
    then show ?thesis
      using inv put ok ms by (auto simp: race_inv_def list_all2_conv_all_nth nth_list_update)
  next
    case (get i k as)
    then have ok: "tx_ok (possible m msgs) (msgs ! i) (rc_txs c ! i)" using inv by auto
    then obtain r where "msgs ! i = CMapReadAndWrite r" "rw_Key r = k" "as = [Store k]"
      using get(3) by (cases "msgs ! i") auto
    then show ?thesis
      using inv get ok by (auto simp: race_inv_def list_all2_conv_all_nth nth_list_update)
  next
    case (store i k as)
    then have ok: "tx_ok (possible m msgs) (msgs ! i) (rc_txs c ! i)" using inv by auto
    then obtain r where "msgs ! i = CMapReadAndWrite r" "rw_Key r = k" "as = []"
      using store(3) by (cases "msgs ! i") auto
    then show ?thesis
      using inv store ok by (auto simp: race_inv_def list_all2_conv_all_nth nth_list_update)
  qed
qed

lemma race_inv_reachable: "race_step\<^sup>*\<^sup>* (race_start m msgs) c \<Longrightarrow> race_inv m msgs c"
  by (induction rule: rtranclp_induct) (auto intro: race_inv_start race_inv_step)

text \<open>The sequential run is one of the interleavings: each transaction in turn does all its actions.\<close>

definition fresh_tx :: "canary_msg \<Rightarrow> race_tx" where
  "fresh_tx msg = \<lparr>rt_todo = actions msg, rt_val = 0, rt_write = None\<rparr>"

lemma solo:
  "\<exists>t. race_step\<^sup>*\<^sup>* \<lparr>rc_map = kp_sharedMap k, rc_txs = ds @ fresh_tx msg # rest\<rparr>
         \<lparr>rc_map = kp_sharedMap (snd (msg_server (\<lambda>_ _. Ok ()) msg k)), rc_txs = ds @ t # rest\<rparr> \<and>
       rt_todo t = [] \<and> apply_writes [t] (kp_store k) = kp_store (snd (msg_server (\<lambda>_ _. Ok ()) msg k))"
proof (cases msg)
  case (CMapSet m)
  let ?c = "\<lparr>rc_map = kp_sharedMap k, rc_txs = ds @ fresh_tx msg # rest\<rparr>"
  have "race_step ?c \<lparr>rc_map = (kp_sharedMap k)(ms_Key m := ms_Value m),
      rc_txs = ds @ \<lparr>rt_todo = [], rt_val = 0, rt_write = None\<rparr> # rest\<rparr>"
    using race_step.put [of "length ds" ?c "ms_Key m" "ms_Value m" "[]"] by (simp add: fresh_tx_def CMapSet)
  then show ?thesis
    by (intro exI [of _ "\<lparr>rt_todo = [], rt_val = 0, rt_write = None\<rparr>"] conjI r_into_rtranclp)
      (simp_all add: CMapSet MapSet_def SetMapValue_def apply_writes_def)
next
  case (CMapReadAndWrite m)
  let ?v = "kp_sharedMap k (rw_Key m)"
  let ?t1 = "\<lparr>rt_todo = [Store (rw_Key m)], rt_val = ?v, rt_write = None\<rparr>"
  let ?t2 = "\<lparr>rt_todo = [], rt_val = ?v, rt_write = Some (rw_Key m, ?v)\<rparr>"
  let ?c = "\<lambda>t. \<lparr>rc_map = kp_sharedMap k, rc_txs = ds @ t # rest\<rparr>"
  have "race_step (?c (fresh_tx msg)) (?c ?t1)"
    using race_step.get [of "length ds" "?c (fresh_tx msg)" "rw_Key m" "[Store (rw_Key m)]"]
    by (simp add: fresh_tx_def CMapReadAndWrite)
  moreover have "race_step (?c ?t1) (?c ?t2)"
    using race_step.store [of "length ds" "?c ?t1" "rw_Key m" "[]"] by simp
  ultimately have "race_step\<^sup>*\<^sup>* (?c (fresh_tx msg)) (?c ?t2)" by (meson converse_rtranclp_into_rtranclp r_into_rtranclp)
  then show ?thesis
    by (intro exI [of _ ?t2] conjI)
      (simp_all add: CMapReadAndWrite MapReadAndWrite_def GetMapValue_def WriteToStore_def Let_def apply_writes_def)
next
  case (CBlockContextSet m)
  then show ?thesis
    by (intro exI [of _ "fresh_tx msg"])
      (simp add: fresh_tx_def BlockContextSet_def WriteBlockCtxField_def apply_writes_def)
next
  case (CBlockContextRead m)
  then show ?thesis
    by (intro exI [of _ "fresh_tx msg"])
      (simp add: fresh_tx_def BlockContextRead_def ReadBlockCtxField_def apply_writes_def split: prod.split)
qed

lemma apply_writes_append: "apply_writes (xs @ ys) s = apply_writes ys (apply_writes xs s)"
  by (simp add: apply_writes_def)

lemma sequential_run:
  "\<exists>ts. race_step\<^sup>*\<^sup>* \<lparr>rc_map = kp_sharedMap k, rc_txs = ds @ map fresh_tx msgs\<rparr>
         \<lparr>rc_map = kp_sharedMap (run_handlers msgs k), rc_txs = ds @ ts\<rparr> \<and>
       list_all (\<lambda>t. rt_todo t = []) ts \<and> apply_writes ts (kp_store k) = kp_store (run_handlers msgs k)"
proof (induction msgs arbitrary: k ds)
  case Nil
  then show ?case by (intro exI [of _ "[]"]) (simp add: apply_writes_def)
next
  case (Cons msg msgs)
  let ?k1 = "snd (msg_server (\<lambda>_ _. Ok ()) msg k)"
  obtain t where t: "race_step\<^sup>*\<^sup>* \<lparr>rc_map = kp_sharedMap k, rc_txs = ds @ fresh_tx msg # map fresh_tx msgs\<rparr>
         \<lparr>rc_map = kp_sharedMap ?k1, rc_txs = ds @ t # map fresh_tx msgs\<rparr>" "rt_todo t = []"
      "apply_writes [t] (kp_store k) = kp_store ?k1"
    using solo [of k ds msg "map fresh_tx msgs"] by blast
  obtain ts where ts: "race_step\<^sup>*\<^sup>* \<lparr>rc_map = kp_sharedMap ?k1, rc_txs = (ds @ [t]) @ map fresh_tx msgs\<rparr>
         \<lparr>rc_map = kp_sharedMap (run_handlers msgs ?k1), rc_txs = (ds @ [t]) @ ts\<rparr>"
      "list_all (\<lambda>t. rt_todo t = []) ts" "apply_writes ts (kp_store ?k1) = kp_store (run_handlers msgs ?k1)"
    using Cons.IH [of ?k1 "ds @ [t]"] by blast
  have "race_step\<^sup>*\<^sup>* \<lparr>rc_map = kp_sharedMap k, rc_txs = ds @ map fresh_tx (msg # msgs)\<rparr>
      \<lparr>rc_map = kp_sharedMap (run_handlers (msg # msgs) k), rc_txs = ds @ t # ts\<rparr>"
    using t(1) ts(1) by (simp add: rtranclp_trans)
  moreover have "apply_writes (t # ts) (kp_store k) = kp_store (run_handlers (msg # msgs) k)"
    using apply_writes_append [of "[t]" ts "kp_store k"] t(3) ts(3) by simp
  ultimately show ?case using t(2) ts(2) by (intro exI [of _ "t # ts"]) simp
qed

lemma race_start_fresh: "race_start m msgs = \<lparr>rc_map = m, rc_txs = map fresh_tx msgs\<rparr>"
  by (simp add: race_start_def fresh_tx_def fun_eq_iff)

definition outcomes :: "canary_msg list \<Rightarrow> Keeper \<Rightarrow> (bytes \<rightharpoonup> bytes) set" where
  "outcomes msgs k = {apply_writes (rc_txs c) (kp_store k) | c.
     race_step\<^sup>*\<^sup>* (race_start (kp_sharedMap k) msgs) c \<and> race_done c}"

lemma sequential_in_outcomes: "kp_store (run_handlers msgs k) \<in> outcomes msgs k"
proof -
  obtain ts where "race_step\<^sup>*\<^sup>* (race_start (kp_sharedMap k) msgs)
        \<lparr>rc_map = kp_sharedMap (run_handlers msgs k), rc_txs = ts\<rparr>" (is "race_step\<^sup>*\<^sup>* _ ?c")
      and "list_all (\<lambda>t. rt_todo t = []) ts" "apply_writes ts (kp_store k) = kp_store (run_handlers msgs k)"
    using sequential_run [of k "[]" msgs] by (auto simp: race_start_fresh)
  then show ?thesis
    unfolding outcomes_def by (intro CollectI exI [of _ ?c]) (simp add: race_done_def)
qed

lemma bit_be64:
  assumes "n < 64"
  shows "bit (be64 w ! (7 - n div 8)) (n mod 8) = bit w n"
proof -
  have i: "7 - n div 8 < 8" "7 - (7 - n div 8) = n div 8" using assms by (auto simp: less_mult_imp_div_less)
  have "n mod 8 < 8" by simp
  then show ?thesis
    using i by (simp add: be64_def bit_ucast_iff bit_drop_bit_eq)
qed

lemma be64_inj: "be64 a = be64 b \<longleftrightarrow> a = b"
proof
  assume e: "be64 a = be64 b"
  show "a = b"
  proof (rule bit_word_eqI)
    fix n assume "n < LENGTH(64)"
    then have "n < 64" by simp
    from bit_be64 [OF this, of a] bit_be64 [OF this, of b] show "bit a n = bit b n" by (simp add: e)
  qed
qed simp

lemma done_writes:
  assumes "race_inv m msgs c" "race_done c"
  shows "list_all2 (\<lambda>msg t. case msg of
      CMapReadAndWrite r \<Rightarrow> \<exists>v \<in> possible m msgs (rw_Key r). rt_write t = Some (rw_Key r, v)
    | _ \<Rightarrow> rt_write t = None) msgs (rc_txs c)"
proof -
  have "case msgs ! i of CMapReadAndWrite r \<Rightarrow> \<exists>v \<in> possible m msgs (rw_Key r). rt_write (rc_txs c ! i) = Some (rw_Key r, v)
      | _ \<Rightarrow> rt_write (rc_txs c ! i) = None" if "i < length msgs" for i
  proof -
    have "tx_ok (possible m msgs) (msgs ! i) (rc_txs c ! i)" "rt_todo (rc_txs c ! i) = []"
      using assms that by (auto simp: race_inv_def race_done_def list_all2_conv_all_nth list_all_length)
    then show ?thesis by (cases "msgs ! i") auto
  qed
  moreover have "length (rc_txs c) = length msgs"
    using assms(1) by (auto simp: race_inv_def list_all2_lengthD)
  ultimately show ?thesis by (simp add: list_all2_conv_all_nth)
qed

lemma apply_writes_cong:
  "map rt_write xs = map rt_write ys \<Longrightarrow> apply_writes xs s = apply_writes ys s"
proof (induction xs arbitrary: ys s)
  case (Cons x xs)
  then obtain y ys' where "ys = y # ys'" "rt_write x = rt_write y" "map rt_write xs = map rt_write ys'"
    by (cases ys) auto
  with Cons.IH [of ys'] show ?case by (simp add: apply_writes_def split: option.split)
qed simp

lemma outcomes_inv:
  "s \<in> outcomes msgs k \<longleftrightarrow> (\<exists>c. race_step\<^sup>*\<^sup>* (race_start (kp_sharedMap k) msgs) c \<and> race_done c \<and>
     race_inv (kp_sharedMap k) msgs c \<and> s = apply_writes (rc_txs c) (kp_store k))"
  using race_inv_reachable by (auto simp: outcomes_def)

text \<open>The schedule in which the reader runs before the writer.\<close>

lemma stale_schedule:
  "\<exists>c. race_step\<^sup>*\<^sup>* (race_start m [CMapSet ms, CMapReadAndWrite r]) c \<and> race_done c \<and>
     map rt_write (rc_txs c) = [None, Some (rw_Key r, m (rw_Key r))]"
proof -
  let ?t0 = "fresh_tx (CMapSet ms)"
  let ?v = "m (rw_Key r)"
  let ?t1 = "\<lparr>rt_todo = [Store (rw_Key r)], rt_val = ?v, rt_write = None\<rparr>"
  let ?t2 = "\<lparr>rt_todo = [], rt_val = ?v, rt_write = Some (rw_Key r, ?v)\<rparr>"
  let ?c = "\<lambda>t. \<lparr>rc_map = m, rc_txs = [?t0, t]\<rparr>"
  let ?d = "\<lparr>rc_map = m(ms_Key ms := ms_Value ms), rc_txs = [\<lparr>rt_todo = [], rt_val = 0, rt_write = None\<rparr>, ?t2]\<rparr>"
  have "race_step (?c (fresh_tx (CMapReadAndWrite r))) (?c ?t1)"
    using race_step.get [of 1 "?c (fresh_tx (CMapReadAndWrite r))" "rw_Key r" "[Store (rw_Key r)]"]
    by (simp add: fresh_tx_def)
  moreover have "race_step (?c ?t1) (?c ?t2)"
    using race_step.store [of 1 "?c ?t1" "rw_Key r" "[]"] by simp
  moreover have "race_step (?c ?t2) ?d"
    using race_step.put [of 0 "?c ?t2" "ms_Key ms" "ms_Value ms" "[]"] by (simp add: fresh_tx_def)
  ultimately have "race_step\<^sup>*\<^sup>* (?c (fresh_tx (CMapReadAndWrite r))) ?d"
    by (meson converse_rtranclp_into_rtranclp r_into_rtranclp)
  then show ?thesis
    by (intro exI [of _ ?d]) (simp add: race_start_fresh race_done_def)
qed

lemma pair_outcomes:
  fixes s s' key :: string and v :: u64 and k :: Keeper
  shows "outcomes [CMapSet \<lparr>ms_Sender = s, ms_Key = key, ms_Value = v\<rparr>, CMapReadAndWrite \<lparr>rw_Sender = s', rw_Key = key\<rparr>] k =
      {kp_store (run_handlers [CMapSet \<lparr>ms_Sender = s, ms_Key = key, ms_Value = v\<rparr>,
         CMapReadAndWrite \<lparr>rw_Sender = s', rw_Key = key\<rparr>] k),
       (kp_store k)(canary_key key \<mapsto> be64 (kp_sharedMap k key))} \<and>
    kp_store (run_handlers [CMapSet \<lparr>ms_Sender = s, ms_Key = key, ms_Value = v\<rparr>,
         CMapReadAndWrite \<lparr>rw_Sender = s', rw_Key = key\<rparr>] k) = (kp_store k)(canary_key key \<mapsto> be64 v) \<and>
    ((kp_store k)(canary_key key \<mapsto> be64 v) = (kp_store k)(canary_key key \<mapsto> be64 (kp_sharedMap k key)) \<longleftrightarrow>
       v = kp_sharedMap k key)"
proof -
  let ?ms = "\<lparr>ms_Sender = s, ms_Key = key, ms_Value = v\<rparr>" and ?r = "\<lparr>rw_Sender = s', rw_Key = key\<rparr>"
  let ?msgs = "[CMapSet ?ms, CMapReadAndWrite ?r]"
  let ?upd = "\<lambda>x. (kp_store k)(canary_key key \<mapsto> be64 x)"
  have seq: "kp_store (run_handlers ?msgs k) = ?upd v"
    by (simp add: MapSet_def MapReadAndWrite_def SetMapValue_def GetMapValue_def WriteToStore_def Let_def)
  have "x \<in> {?upd v, ?upd (kp_sharedMap k key)}" if "x \<in> outcomes ?msgs k" for x
  proof -
    obtain c where c: "race_inv (kp_sharedMap k) ?msgs c" "race_done c" "x = apply_writes (rc_txs c) (kp_store k)"
      using \<open>x \<in> outcomes ?msgs k\<close> unfolding outcomes_inv by blast
    obtain t0 t1 where t: "rc_txs c = [t0, t1]" "rt_write t0 = None"
        "\<exists>u \<in> possible (kp_sharedMap k) ?msgs key. rt_write t1 = Some (key, u)"
      using done_writes [OF c(1,2)] by (auto simp: list_all2_Cons1)
    moreover have "possible (kp_sharedMap k) ?msgs key = {kp_sharedMap k key, v}" by (auto simp: possible_def)
    ultimately show ?thesis using c(3) by (auto simp: apply_writes_def)
  qed
  moreover have "?upd v \<in> outcomes ?msgs k" using sequential_in_outcomes [of ?msgs k] by (simp only: seq)
  moreover have "?upd (kp_sharedMap k key) \<in> outcomes ?msgs k"
  proof -
    obtain c where c: "race_step\<^sup>*\<^sup>* (race_start (kp_sharedMap k) ?msgs) c" "race_done c"
        "map rt_write (rc_txs c) = [None, Some (key, kp_sharedMap k key)]"
      using stale_schedule [of "kp_sharedMap k" ?ms ?r] by auto
    then have "apply_writes (rc_txs c) (kp_store k) = ?upd (kp_sharedMap k key)"
      by (auto simp: apply_writes_def)
    then show ?thesis unfolding outcomes_def using c(1,2) by (intro CollectI exI [of _ c]) simp
  qed
  ultimately have "outcomes ?msgs k = {?upd v, ?upd (kp_sharedMap k key)}" by blast
  moreover have "?upd v = ?upd u \<longleftrightarrow> v = u" for u
    by (metis be64_inj fun_upd_same option.inject)
  ultimately show ?thesis using seq by simp
qed

section \<open>Properties\<close>





section \<open>Instances\<close>

definition canary_pair :: "canary_msg list" where
  "canary_pair = [CMapSet \<lparr>ms_Sender = ''a'', ms_Key = ''x'', ms_Value = 5\<rparr>,
     CMapReadAndWrite \<lparr>rw_Sender = ''b'', rw_Key = ''x''\<rparr>]"

definition canary_response_of :: "(bytes \<rightharpoonup> bytes) \<Rightarrow> Response" where
  "canary_response_of s = \<lparr>rs_AppHash = (case s (canary_key ''x'') of Some b \<Rightarrow> b | None \<Rightarrow> []), rs_TxResults = []\<rparr>"

definition canary_input :: "(bytes \<rightharpoonup> bytes) \<Rightarrow> (bytes \<rightharpoonup> bytes) \<Rightarrow> unit Input" where
  "canary_input s t = \<lparr>in_Oracle = (\<lambda>w. (Ok (canary_response_of s), w)), in_Probe = (\<lambda>w. (Ok (canary_response_of t), w)),
     in_Height = 1, in_TxCount = 2, in_OracleWriteSets = None, in_ProbeWriteSets = None, in_OracleMutations = None,
     in_BlockContextMutations = None, in_NonDetProvider = None, in_PostOracleHook = None\<rparr>"

lemma canary_pair_outcomes:
  "outcomes canary_pair (NewKeeper Map.empty) = {[canary_key ''x'' \<mapsto> be64 5], [canary_key ''x'' \<mapsto> be64 0]}"
  "kp_store (run_handlers canary_pair (NewKeeper Map.empty)) = [canary_key ''x'' \<mapsto> be64 5]"
  using pair_outcomes [of "''a''" "''x''" 5 "''b''" "NewKeeper Map.empty"] by (simp_all add: canary_pair_def NewKeeper_def)




end
