(* ===== verification/Descriptor.thy ===== *)
theory Descriptor
  imports Canary_Module
begin

text \<open>
  \<open>x/simcanary/types/file_simcanary_tx.go\<close>: the protobuf file descriptor that the canary module registers,
  as the data \<open>buildFileDescriptor\<close> builds, and the standard proto3 encoding that a descriptor prescribes.
  The protobuf encoder of the descriptor and gzip are arguments. Also the gRPC service of \<open>codec.go\<close>, with its
  handlers, and the coverage entries that \<open>run/coverage.go\<close> and \<open>run/executor_canary.go\<close> register at start-up.
\<close>

section \<open>Descriptors\<close>

datatype FieldType = TYPE_STRING | TYPE_INT64

record FieldDescriptor =
  fl_Name :: string
  fl_Number :: int
  fl_Type :: FieldType
  fl_JsonName :: string

text \<open>Message options: the names of the signer fields. Every field has the label \<open>LABEL_OPTIONAL\<close>; the
  service option is the Cosmos extension that marks a message service.\<close>

record MessageDescriptor =
  ds_Name :: string
  ds_Fields :: "FieldDescriptor list"
  ds_Signer :: "string list option"

record MethodDescriptor =
  mt_Name :: string
  mt_InputType :: string
  mt_OutputType :: string

record FileDescriptor =
  fd_Name :: string
  fd_Package :: string
  fd_Syntax :: string
  fd_Dependency :: "string list"
  fd_MessageType :: "MessageDescriptor list"
  fd_Service :: string
  fd_ServiceOption :: bool
  fd_Methods :: "MethodDescriptor list"

definition fieldString :: "int \<Rightarrow> string \<Rightarrow> FieldDescriptor" where
  "fieldString num name = \<lparr>fl_Name = name, fl_Number = num, fl_Type = TYPE_STRING, fl_JsonName = name\<rparr>"

definition fieldInt64 :: "int \<Rightarrow> string \<Rightarrow> FieldDescriptor" where
  "fieldInt64 num name = \<lparr>fl_Name = name, fl_Number = num, fl_Type = TYPE_INT64, fl_JsonName = name\<rparr>"

definition msgDescriptor :: "string \<Rightarrow> FieldDescriptor list \<Rightarrow> MessageDescriptor" where
  "msgDescriptor name fs = \<lparr>ds_Name = name, ds_Fields = fs, ds_Signer = None\<rparr>"

definition msgDescriptorWithOpts :: "string \<Rightarrow> string list \<Rightarrow> FieldDescriptor list \<Rightarrow> MessageDescriptor" where
  "msgDescriptorWithOpts name signer fs = \<lparr>ds_Name = name, ds_Fields = fs, ds_Signer = Some signer\<rparr>"

definition signerOpts :: "string list" where
  "signerOpts = [''sender'']"

definition service_method :: "string \<Rightarrow> string \<Rightarrow> string \<Rightarrow> MethodDescriptor" where
  "service_method name input out = \<lparr>mt_Name = name, mt_InputType = input, mt_OutputType = out\<rparr>"

definition canary_file :: FileDescriptor where
  "canary_file = \<lparr>fd_Name = ''simcanary/v1/tx.proto'', fd_Package = ''simcanary.v1'', fd_Syntax = ''proto3'',
     fd_Dependency = [''cosmos/msg/v1/msg.proto''],
     fd_MessageType = [
       msgDescriptorWithOpts ''MsgCanaryMapSet'' signerOpts
         [fieldString 1 ''sender'', fieldString 2 ''key'', fieldInt64 3 ''value''],
       msgDescriptor ''MsgCanaryMapSetResponse'' [],
       msgDescriptorWithOpts ''MsgCanaryMapReadAndWrite'' signerOpts [fieldString 1 ''sender'', fieldString 2 ''key''],
       msgDescriptor ''MsgCanaryMapReadAndWriteResponse'' [fieldInt64 1 ''observed_value''],
       msgDescriptorWithOpts ''MsgCanaryBlockContextSet'' signerOpts
         [fieldString 1 ''sender'', fieldString 2 ''field'', fieldString 3 ''value''],
       msgDescriptor ''MsgCanaryBlockContextSetResponse'' [],
       msgDescriptorWithOpts ''MsgCanaryBlockContextRead'' signerOpts [fieldString 1 ''sender'', fieldString 2 ''field''],
       msgDescriptor ''MsgCanaryBlockContextReadResponse'' [fieldString 1 ''value'']],
     fd_Service = ''Msg'', fd_ServiceOption = True,
     fd_Methods = [
       service_method ''MapSet'' ''.simcanary.v1.MsgCanaryMapSet'' ''.simcanary.v1.MsgCanaryMapSetResponse'',
       service_method ''MapReadAndWrite'' ''.simcanary.v1.MsgCanaryMapReadAndWrite''
         ''.simcanary.v1.MsgCanaryMapReadAndWriteResponse'',
       service_method ''BlockContextSet'' ''.simcanary.v1.MsgCanaryBlockContextSet''
         ''.simcanary.v1.MsgCanaryBlockContextSetResponse'',
       service_method ''BlockContextRead'' ''.simcanary.v1.MsgCanaryBlockContextRead''
         ''.simcanary.v1.MsgCanaryBlockContextReadResponse'']\<rparr>"

text \<open>\<open>marshal\<close> is \<open>proto2.Marshal\<close>, \<open>gzip\<close> the compressed stream; an error of either is a panic.\<close>

definition buildFileDescriptor :: "(FileDescriptor \<Rightarrow> bytes go) \<Rightarrow> (bytes \<Rightarrow> bytes go) \<Rightarrow> bytes go" where
  "buildFileDescriptor marshal gzip =
     (case marshal canary_file of
        Ok raw \<Rightarrow> (case gzip raw of Ok buf \<Rightarrow> Ok buf | Err e \<Rightarrow> Panic ''gzip'' | Panic p \<Rightarrow> Panic p)
      | Err e \<Rightarrow> Panic ''marshal''
      | Panic p \<Rightarrow> Panic p)"

section \<open>The encoding a descriptor prescribes\<close>

text \<open>The proto3 encoding: fields in order, default values omitted, each with the tag of its number and wire
  type; varints least significant group first.\<close>

datatype field_value = VString string | VInt u64

definition wire_type :: "FieldType \<Rightarrow> int" where
  "wire_type t = (case t of TYPE_STRING \<Rightarrow> 2 | TYPE_INT64 \<Rightarrow> 0)"

definition proto_tag :: "FieldDescriptor \<Rightarrow> bytes" where
  "proto_tag f = put_uvarint (word_of_int (8 * fl_Number f + wire_type (fl_Type f)))"

definition proto_field :: "FieldDescriptor \<Rightarrow> field_value \<Rightarrow> bytes" where
  "proto_field f v =
     (case v of
        VString s \<Rightarrow> if s = [] then [] else proto_tag f @ put_uvarint (word_of_nat (length s)) @ bytes_of_string s
      | VInt n \<Rightarrow> if n = 0 then [] else proto_tag f @ put_uvarint n)"

definition message_fields :: "string \<Rightarrow> FieldDescriptor list" where
  "message_fields name = (case find (\<lambda>d. ds_Name d = name) (fd_MessageType canary_file) of
     Some d \<Rightarrow> ds_Fields d | None \<Rightarrow> [])"

definition proto_message :: "string \<Rightarrow> field_value list \<Rightarrow> bytes" where
  "proto_message name vs = concat (map2 proto_field (message_fields name) vs)"

text \<open>The values whose varints have one group only.\<close>

definition small :: "field_value \<Rightarrow> bool" where
  "small v = (case v of VString s \<Rightarrow> (word_of_nat (length s) :: u64) < 0x80 | VInt n \<Rightarrow> n < 0x80)"

lemma rev_put_uvarint: "rev (put_uvarint v) = put_uvarint v \<longleftrightarrow> v < 0x80"
proof (cases "v < 0x80")
  case False
  then obtain cs l where cs: "put_uvarint v = cs @ [l]" "cs \<noteq> []" "\<forall>b \<in> set cs. \<not> b < 0x80" "l < 0x80"
    by (rule put_uvarint_big)
  then obtain b bs where "cs = b # bs" by (cases cs) auto
  then show ?thesis using cs False by auto
qed (simp add: put_uvarint_small)

definition image_of :: "byte \<Rightarrow> field_value \<Rightarrow> bytes" where
  "image_of tag v = (case v of VString s \<Rightarrow> bytes_field_image tag (bytes_of_string s) | VInt n \<Rightarrow> varint_field_image tag n)"

lemma image_of_conforms:
  assumes "proto_tag f = [tag]"
  shows "length (image_of tag v) = length (proto_field f v)" "image_of tag v = proto_field f v \<longleftrightarrow> small v"
proof -
  have z: "small (VString [])" "small (VInt 0)" by (simp_all add: small_def)
  show "length (image_of tag v) = length (proto_field f v)"
    by (cases v) (simp_all add: image_of_def proto_field_def assms bytes_field_image_def varint_field_image_def)
  show "image_of tag v = proto_field f v \<longleftrightarrow> small v"
    using z by (cases v)
      (auto simp: image_of_def proto_field_def assms bytes_field_image_def varint_field_image_def small_def rev_put_uvarint)
qed

text \<open>Images of equal length concatenate to the same bytes only if they are the same.\<close>

lemma images_conform:
  assumes "list_all2 (\<lambda>f tag. proto_tag f = [tag]) fs tags" "length vs = length fs"
  shows "concat (map2 image_of tags vs) = concat (map2 proto_field fs vs) \<longleftrightarrow> list_all small vs"
  using assms
proof (induction fs tags arbitrary: vs rule: list_all2_induct)
  case (Cons f fs tag tags)
  then obtain v vs' where "vs = v # vs'" "length vs' = length fs" by (cases vs) auto
  then show ?case using Cons image_of_conforms [OF Cons.hyps(1)] by simp
qed simp

section \<open>The service\<close>

text \<open>The service of \<open>codec.go\<close>. The types of the four requests, by the method that takes them.\<close>

fun method_of :: "canary_msg \<Rightarrow> string" where
  "method_of (CMapSet m) = ''MapSet''"
| "method_of (CMapReadAndWrite m) = ''MapReadAndWrite''"
| "method_of (CBlockContextSet m) = ''BlockContextSet''"
| "method_of (CBlockContextRead m) = ''BlockContextRead''"

definition full_method :: "string \<Rightarrow> string" where
  "full_method name = ''/simcanary.v1.Msg/'' @ name"

text \<open>What a handler passes to an interceptor: it asserts the type of the request that the interceptor hands back.\<close>

definition typed_server :: "kv_set \<Rightarrow> string \<Rightarrow> canary_msg \<Rightarrow> Keeper \<Rightarrow> canary_response go \<times> Keeper" where
  "typed_server kv_set name req k =
     (if method_of req = name then msg_server kv_set req k else (Panic ''interface conversion'', k))"

type_synonym interceptor =
  "string \<Rightarrow> canary_msg \<Rightarrow> (canary_msg \<Rightarrow> Keeper \<Rightarrow> canary_response go \<times> Keeper) \<Rightarrow> Keeper \<Rightarrow> canary_response go \<times> Keeper"

text \<open>The four handlers differ in the type of the new message, which decides the method and its full name.
  \<open>dec\<close> decodes the request into the new message; \<open>None\<close> means that it does not return.\<close>

type_synonym request_decoder = "canary_msg \<Rightarrow> canary_msg go option"

definition Msg_Handler ::
  "kv_set \<Rightarrow> canary_msg \<Rightarrow> request_decoder \<Rightarrow> interceptor option \<Rightarrow> Keeper \<Rightarrow> (canary_response go \<times> Keeper) option" where
  "Msg_Handler kv_set new_msg dec interceptor k =
     map_option (\<lambda>decoded. case decoded of
         Err e \<Rightarrow> (Err e, k)
       | Panic p \<Rightarrow> (Panic p, k)
       | Ok m \<Rightarrow> (case interceptor of None \<Rightarrow> msg_server kv_set m k
                 | Some call \<Rightarrow> call (full_method (method_of new_msg)) m (typed_server kv_set (method_of new_msg)) k))
       (dec new_msg)"

definition Msg_serviceDesc ::
  "kv_set \<Rightarrow> (string \<times> (request_decoder \<Rightarrow> interceptor option \<Rightarrow> Keeper \<Rightarrow> (canary_response go \<times> Keeper) option)) list" where
  "Msg_serviceDesc kv_set =
     [(''MapSet'', Msg_Handler kv_set (CMapSet MapSet_zero)),
      (''MapReadAndWrite'', Msg_Handler kv_set (CMapReadAndWrite MapReadAndWrite_zero)),
      (''BlockContextSet'', Msg_Handler kv_set (CBlockContextSet BlockContextSet_zero)),
      (''BlockContextRead'', Msg_Handler kv_set (CBlockContextRead BlockContextRead_zero))]"

text \<open>What the canary part of \<open>run/executor_canary.go\<close> and \<open>run/coverage.go\<close> register for coverage.\<close>

definition canary_entry :: "string \<Rightarrow> string \<Rightarrow> string \<Rightarrow> Entry" where
  "canary_entry key msg fn = \<lparr>en_Key = key, en_Module = ''simcanary'', en_MsgType = msg, en_HandlerFn = fn\<rparr>"

definition canary_entries :: "Entry list" where
  "canary_entries = [canary_entry ''canary-map-set'' ''MsgCanaryMapSet'' ''MapSet'',
     canary_entry ''canary-map-read-write'' ''MsgCanaryMapReadAndWrite'' ''MapReadAndWrite'',
     canary_entry ''canary-ctx-write'' ''MsgCanaryBlockContextSet'' ''BlockContextSet'',
     canary_entry ''canary-ctx-read'' ''MsgCanaryBlockContextRead'' ''BlockContextRead'']"

definition bank_send_entry :: Entry where
  "bank_send_entry = \<lparr>en_Key = ''bank-send'', en_Module = ''bank'', en_MsgType = ''MsgSend'', en_HandlerFn = ''Send''\<rparr>"

definition initial_registry :: registry where
  "initial_registry = foldl (\<lambda>reg e. Register (en_Key e) e reg) [] (bank_send_entry # canary_entries)"

section \<open>Properties\<close>

lemma canary_tags:
  "list_all2 (\<lambda>f tag. proto_tag f = [tag]) (message_fields ''MsgCanaryMapSet'') [0x0a, 0x12, 0x18]"
  "list_all2 (\<lambda>f tag. proto_tag f = [tag]) (message_fields ''MsgCanaryMapReadAndWrite'') [0x0a, 0x12]"
  "list_all2 (\<lambda>f tag. proto_tag f = [tag]) (message_fields ''MsgCanaryMapReadAndWriteResponse'') [0x08]"
  "list_all2 (\<lambda>f tag. proto_tag f = [tag]) (message_fields ''MsgCanaryBlockContextSet'') [0x0a, 0x12, 0x1a]"
  "list_all2 (\<lambda>f tag. proto_tag f = [tag]) (message_fields ''MsgCanaryBlockContextRead'') [0x0a, 0x12]"
  "list_all2 (\<lambda>f tag. proto_tag f = [tag]) (message_fields ''MsgCanaryBlockContextReadResponse'') [0x0a]"
  by (simp_all add: message_fields_def canary_file_def msgDescriptor_def msgDescriptorWithOpts_def fieldString_def
      fieldInt64_def proto_tag_def wire_type_def put_uvarint_small)

lemma conforms:
  assumes "list_all2 (\<lambda>f tag. proto_tag f = [tag]) (message_fields name) tags" "length vs = length tags"
    and "marshalled = Ok (concat (map2 image_of tags vs))"
  shows "marshalled = Ok (proto_message name vs) \<longleftrightarrow> list_all small vs"
  using images_conform [OF assms(1), of vs] list_all2_lengthD [OF assms(1)] assms(2,3) by (simp add: proto_message_def)

text \<open>C15. The hand-written marshallers against the registered descriptor: \<open>Marshal\<close> of each message writes the
  proto3 encoding that the descriptor prescribes, with its field numbers, wire types and order, exactly when
  every number and every string length in the message is below 128; otherwise it writes other bytes.\<close>

theorem canary_wire_conforms:
  "(MapSet_Marshal m1 = Ok (proto_message ''MsgCanaryMapSet'' [VString (ms_Sender m1), VString (ms_Key m1), VInt (ms_Value m1)]) \<longleftrightarrow>
      list_all small [VString (ms_Sender m1), VString (ms_Key m1), VInt (ms_Value m1)]) \<and>
   (MapReadAndWrite_Marshal m2 = Ok (proto_message ''MsgCanaryMapReadAndWrite'' [VString (rw_Sender m2), VString (rw_Key m2)]) \<longleftrightarrow>
      list_all small [VString (rw_Sender m2), VString (rw_Key m2)]) \<and>
   (MapReadAndWriteResponse_Marshal m3 = Ok (proto_message ''MsgCanaryMapReadAndWriteResponse'' [VInt (rr_ObservedValue m3)]) \<longleftrightarrow>
      small (VInt (rr_ObservedValue m3))) \<and>
   (BlockContextSet_Marshal m4 = Ok (proto_message ''MsgCanaryBlockContextSet''
        [VString (bs_Sender m4), VString (bs_Field m4), VString (bs_Value m4)]) \<longleftrightarrow>
      list_all small [VString (bs_Sender m4), VString (bs_Field m4), VString (bs_Value m4)]) \<and>
   (BlockContextRead_Marshal m5 = Ok (proto_message ''MsgCanaryBlockContextRead'' [VString (br_Sender m5), VString (br_Field m5)]) \<longleftrightarrow>
      list_all small [VString (br_Sender m5), VString (br_Field m5)]) \<and>
   (BlockContextReadResponse_Marshal m6 = Ok (proto_message ''MsgCanaryBlockContextReadResponse'' [VString (rs_Value m6)]) \<longleftrightarrow>
      small (VString (rs_Value m6)))"
proof (intro conjI)
  show "MapReadAndWriteResponse_Marshal m3 = Ok (proto_message ''MsgCanaryMapReadAndWriteResponse'' [VInt (rr_ObservedValue m3)]) \<longleftrightarrow>
      small (VInt (rr_ObservedValue m3))"
    using conforms [OF canary_tags(3), of "[VInt (rr_ObservedValue m3)]"]
    by (simp add: MapReadAndWriteResponse_Marshal_def map_rw_response_msg.marshal_ok MapReadAndWriteResponse_image_def image_of_def)
  show "BlockContextReadResponse_Marshal m6 = Ok (proto_message ''MsgCanaryBlockContextReadResponse'' [VString (rs_Value m6)]) \<longleftrightarrow>
      small (VString (rs_Value m6))"
    using conforms [OF canary_tags(6), of "[VString (rs_Value m6)]"]
    by (simp add: BlockContextReadResponse_Marshal_def ctx_read_response_msg.marshal_ok BlockContextReadResponse_image_def image_of_def)
qed (rule conforms [OF canary_tags(1)] conforms [OF canary_tags(2)] conforms [OF canary_tags(4)] conforms [OF canary_tags(5)];
  simp add: MapSet_Marshal_def map_set_msg.marshal_ok MapSet_image_def image_of_def
    MapReadAndWrite_Marshal_def map_rw_msg.marshal_ok MapReadAndWrite_image_def
    BlockContextSet_Marshal_def ctx_set_msg.marshal_ok BlockContextSet_image_def
    BlockContextRead_Marshal_def ctx_read_msg.marshal_ok BlockContextRead_image_def)+

text \<open>The service's methods take and return messages of the file, and every message with a signer field declares it.\<close>

lemma canary_descriptor_closed:
  "list_all (\<lambda>m. list_all (\<lambda>t. list_ex (\<lambda>d. t = ''.'' @ fd_Package canary_file @ ''.'' @ ds_Name d) (fd_MessageType canary_file))
     [mt_InputType m, mt_OutputType m]) (fd_Methods canary_file) \<and>
   list_all (\<lambda>d. case ds_Signer d of None \<Rightarrow> True | Some ss \<Rightarrow> list_all (\<lambda>s. list_ex (\<lambda>f. fl_Name f = s) (ds_Fields d)) ss)
     (fd_MessageType canary_file)"
  by code_simp

text \<open>The methods of the message types, by type: \<open>Marshal\<close>, \<open>Unmarshal\<close>, and the bounds under which they are
  inverse to each other.\<close>

fun Marshal_msg :: "canary_msg \<Rightarrow> bytes go" where
  "Marshal_msg (CMapSet m) = MapSet_Marshal m"
| "Marshal_msg (CMapReadAndWrite m) = MapReadAndWrite_Marshal m"
| "Marshal_msg (CBlockContextSet m) = BlockContextSet_Marshal m"
| "Marshal_msg (CBlockContextRead m) = BlockContextRead_Marshal m"

fun Unmarshal_msg :: "bytes \<Rightarrow> request_decoder" where
  "Unmarshal_msg d (CMapSet m) = map_option (\<lambda>r. go_bind r (\<lambda>m. Ok (CMapSet m))) (MapSet_Unmarshal d m)"
| "Unmarshal_msg d (CMapReadAndWrite m) =
     map_option (\<lambda>r. go_bind r (\<lambda>m. Ok (CMapReadAndWrite m))) (MapReadAndWrite_Unmarshal d m)"
| "Unmarshal_msg d (CBlockContextSet m) =
     map_option (\<lambda>r. go_bind r (\<lambda>m. Ok (CBlockContextSet m))) (BlockContextSet_Unmarshal d m)"
| "Unmarshal_msg d (CBlockContextRead m) =
     map_option (\<lambda>r. go_bind r (\<lambda>m. Ok (CBlockContextRead m))) (BlockContextRead_Unmarshal d m)"

fun msg_wf :: "canary_msg \<Rightarrow> bool" where
  "msg_wf (CMapSet m) = MapSet_wf m"
| "msg_wf (CMapReadAndWrite m) = MapReadAndWrite_wf m"
| "msg_wf (CBlockContextSet m) = BlockContextSet_wf m"
| "msg_wf (CBlockContextRead m) = BlockContextRead_wf m"

lemma handler_decodes:
  assumes "msg_wf m"
  shows "\<exists>d new_msg. Marshal_msg m = Ok d \<and> Unmarshal_msg d new_msg = Some (Ok m) \<and>
    method_of new_msg = method_of m \<and>
    map_of (Msg_serviceDesc kv_set) (method_of m) = Some (Msg_Handler kv_set new_msg)"
proof (cases m)
  case (CMapSet x)
  then show ?thesis using map_set_codec.roundtrip [of x] assms
    by (auto simp: Msg_serviceDesc_def MapSet_Marshal_def intro!: exI [of _ "CMapSet MapSet_zero"])
next
  case (CMapReadAndWrite x)
  then show ?thesis using map_rw_codec.roundtrip [of x] assms
    by (auto simp: Msg_serviceDesc_def MapReadAndWrite_Marshal_def intro!: exI [of _ "CMapReadAndWrite MapReadAndWrite_zero"])
next
  case (CBlockContextSet x)
  then show ?thesis using ctx_set_codec.roundtrip [of x] assms
    by (auto simp: Msg_serviceDesc_def BlockContextSet_Marshal_def intro!: exI [of _ "CBlockContextSet BlockContextSet_zero"])
next
  case (CBlockContextRead x)
  then show ?thesis using ctx_read_codec.roundtrip [of x] assms
    by (auto simp: Msg_serviceDesc_def BlockContextRead_Marshal_def intro!: exI [of _ "CBlockContextRead BlockContextRead_zero"])
qed

text \<open>C16. A canary message over the wire: marshalled and given to the handler that the service descriptor names
  for it, a message whose lengths and values are below 128 is decoded and executed by the message server, directly
  or through the interceptor, which is told the method's full name. These names are, in order, those of the methods
  of the registered file descriptor.\<close>

theorem canary_call_roundtrip:
  assumes "msg_wf m"
  shows "(\<exists>d handler. Marshal_msg m = Ok d \<and> map_of (Msg_serviceDesc kv_set) (method_of m) = Some handler \<and>
      handler (Unmarshal_msg d) None k = Some (msg_server kv_set m k) \<and>
      handler (Unmarshal_msg d) (Some call) k =
        Some (call (full_method (method_of m)) m (typed_server kv_set (method_of m)) k)) \<and>
    map (\<lambda>(name, handler). full_method name) (Msg_serviceDesc kv_set) =
      map (\<lambda>d. ''/'' @ fd_Package canary_file @ ''.'' @ fd_Service canary_file @ ''/'' @ mt_Name d) (fd_Methods canary_file)"
proof
  obtain d new_msg where "Marshal_msg m = Ok d" "Unmarshal_msg d new_msg = Some (Ok m)" "method_of new_msg = method_of m"
      "map_of (Msg_serviceDesc kv_set) (method_of m) = Some (Msg_Handler kv_set new_msg)"
    using handler_decodes [OF assms] by blast
  then show "\<exists>d handler. Marshal_msg m = Ok d \<and> map_of (Msg_serviceDesc kv_set) (method_of m) = Some handler \<and>
      handler (Unmarshal_msg d) None k = Some (msg_server kv_set m k) \<and>
      handler (Unmarshal_msg d) (Some call) k =
        Some (call (full_method (method_of m)) m (typed_server kv_set (method_of m)) k)"
    by (auto simp: Msg_Handler_def)
qed (simp add: canary_file_def Msg_serviceDesc_def service_method_def full_method_def)

theorem canary_call_roundtrip_witness:
  "\<forall>kv_set k. \<exists>d handler. MapSet_Marshal \<lparr>ms_Sender = ''alice'', ms_Key = ''k'', ms_Value = 42\<rparr> = Ok d \<and>
    map_of (Msg_serviceDesc kv_set) ''MapSet'' = Some handler \<and>
    handler (Unmarshal_msg d) None k = Some (Ok RespMapSet, SetMapValue ''k'' 42 k)"
proof (intro allI)
  fix kv_set k
  let ?m = "CMapSet \<lparr>ms_Sender = ''alice'', ms_Key = ''k'', ms_Value = 42\<rparr>"
  have "msg_wf ?m" by (simp add: MapSet_wf_def short_def)
  from canary_call_roundtrip [OF this, of kv_set k "\<lambda>name m next. next m"] show "\<exists>d handler.
      MapSet_Marshal \<lparr>ms_Sender = ''alice'', ms_Key = ''k'', ms_Value = 42\<rparr> = Ok d \<and>
      map_of (Msg_serviceDesc kv_set) ''MapSet'' = Some handler \<and>
      handler (Unmarshal_msg d) None k = Some (Ok RespMapSet, SetMapValue ''k'' 42 k)"
    by (auto simp: MapSet_def)
qed

text \<open>Each registered canary type has a builder, and its handler is a method of the service that takes its message.\<close>

lemma canary_registry_consistent:
  "registry_ok initial_registry"
  "list_all (\<lambda>e. canary_builders addr (en_Key e) \<noteq> None \<and>
     list_ex (\<lambda>d. mt_Name d = en_HandlerFn e \<and> mt_InputType d = ''.simcanary.v1.'' @ en_MsgType e) (fd_Methods canary_file)) canary_entries"
  by (simp_all add: registry_ok_def initial_registry_def canary_entries_def canary_entry_def bank_send_entry_def Register_def
      canary_builders_def canary_file_def service_method_def)

end
