(* ===== verification/Report.thy ===== *)
theory Report
  imports Compare_Run Coverage
begin

text \<open>
  \<open>report/cli.go\<close>, \<open>report/json.go\<close>, \<open>report/markdown.go\<close>, \<open>report/reporter.go\<close>: the summary of
  a run with its exit code, and the three reporters. A writer is the list of the strings written so far
  and a function that says which calls of \<open>Write\<close> fail. Printing a ratio with \<open>%.2f\<close> (\<open>fmt2\<close>),
  \<open>math.Log10\<close> (\<open>log10\<close>, its integer part) and the JSON encoder are arguments.
\<close>

section \<open>Outcomes and summary\<close>

record BlockOutcome =
  bo_Index :: int
  bo_Total :: int
  bo_FixtureName :: string
  bo_IsCanary :: bool
  bo_Verdict :: Verdict
  bo_Findings :: "Finding list"
  bo_OracleTxCodes :: "u32 list"
  bo_HotKeys :: "HotKeyStat list"
  bo_ExecutionRatio :: rat

record Summary =
  sm_TotalBlocks :: int
  sm_OKCount :: nat
  sm_DivergenceCount :: nat
  sm_CanaryExpected :: nat
  sm_CanaryMissed :: nat
  sm_ReporterErrors :: nat
  sm_Coverage :: Coverage_Report
  sm_StatePatterns :: "StatePatternEntry list"
  sm_HotKeyBlocks :: nat
  sm_MaxExecRatio :: rat

definition ExitCode :: "Summary \<Rightarrow> bool \<Rightarrow> int" where
  "ExitCode s failOnDivergence =
     (if 0 < sm_CanaryMissed s then 1
      else if failOnDivergence \<and> 0 < sm_DivergenceCount s then 1
      else 0)"

text \<open>The reporter interface, over a state \<open>'r\<close>.\<close>

record 'r Reporter =
  rp_Header :: "string \<Rightarrow> int \<Rightarrow> int \<Rightarrow> 'r \<Rightarrow> 'r"
  rp_Block :: "BlockOutcome \<Rightarrow> 'r \<Rightarrow> 'r"
  rp_Footer :: "Summary \<Rightarrow> bool \<Rightarrow> 'r \<Rightarrow> 'r"
  rp_Errors :: "'r \<Rightarrow> nat"

definition nl :: string where
  "nl = [CHR 0x0A]"

fun verdict_string :: "Verdict \<Rightarrow> string" where
  "verdict_string Match = ''MATCH''"
| "verdict_string Divergence = ''DIVERGENCE''"

definition pad_left :: "nat \<Rightarrow> string \<Rightarrow> string" where
  "pad_left w s = replicate (w - length s) (CHR '' '') @ s"

definition pad_right :: "nat \<Rightarrow> string \<Rightarrow> string" where
  "pad_right w s = s @ replicate (w - length s) (CHR '' '')"

section \<open>The CLI reporter\<close>

record CLIReporter =
  cli_out :: "string list"
  cli_calls :: nat
  cli_fails :: "nat \<Rightarrow> bool"
  cli_errs :: nat

definition NewCLI :: "(nat \<Rightarrow> bool) \<Rightarrow> CLIReporter" where
  "NewCLI fails = \<lparr>cli_out = [], cli_calls = 0, cli_fails = fails, cli_errs = 0\<rparr>"

definition cli_write :: "string \<Rightarrow> CLIReporter \<Rightarrow> CLIReporter" where
  "cli_write s r =
     (if cli_fails r (cli_calls r) then r\<lparr>cli_calls := Suc (cli_calls r), cli_errs := Suc (cli_errs r)\<rparr>
      else r\<lparr>cli_calls := Suc (cli_calls r), cli_out := cli_out r @ [s]\<rparr>)"

definition truncHash :: "string \<Rightarrow> string" where
  "truncHash hex0 =
     (let hex = (if take 2 hex0 = ''0x'' then drop 2 hex0 else hex0)
      in if length hex \<le> 10 then ''0x'' @ hex else ''0x'' @ take 10 hex @ ''...'')"

definition detailsFor :: "Dimension \<Rightarrow> string" where
  "detailsFor d =
     (if d = DimAppHash then ''post-block app hash mismatch''
      else if d = DimErrorCode then ''per-tx error code mismatch''
      else if d = DimWriteSet then ''per-tx write set mismatch''
      else dim_string d @ '' mismatch'')"

definition digitWidth :: "(int \<Rightarrow> int) \<Rightarrow> int \<Rightarrow> int" where
  "digitWidth log10 n = (if n \<le> 0 then 1 else log10 n + 1)"

definition formatRatio :: "(rat \<Rightarrow> string) \<Rightarrow> rat \<Rightarrow> string" where
  "formatRatio fmt2 ratio = (if ratio = 0 then ''n/a'' else fmt2 ratio)"

definition formatTxIndices :: "int list \<Rightarrow> string" where
  "formatTxIndices txs =
     ''['' @ join '','' (map itoa (take 8 txs)) @
     (if 8 < length txs then '','' @ ellipsis @ ''('' @ nat_digits (length txs) @ '' total)'' else '''') @ '']''"

definition cli_finding_lines :: "Finding \<Rightarrow> string list" where
  "cli_finding_lines f =
     (let pad = replicate 13 (CHR '' '') in
      [pad @ ''dimension  : '' @ dim_string (f_Dimension f) @ nl,
       pad @ ''oracle     : '' @ truncHash (f_Oracle f) @ nl,
       pad @ ''candidate '' @ itoa (f_ProbeIndex f) @ '': '' @ truncHash (f_Probe f) @ nl,
       pad @ ''details    : '' @ detailsFor (f_Dimension f) @ nl])"

definition cli_perf_lines :: "(rat \<Rightarrow> string) \<Rightarrow> BlockOutcome \<Rightarrow> string list" where
  "cli_perf_lines fmt2 o1 =
     (if 0 < bo_ExecutionRatio o1 then [''  exec-ratio '' @ fmt2 (bo_ExecutionRatio o1) @ nl] else []) @
     map (\<lambda>hk. ''  hot key '' @ hk_Store hk @ ''/'' @ truncHash (hk_Key hk) @ ''  conflicts='' @
            nat_digits (hk_Conflicts hk) @ ''  txs='' @ formatTxIndices (hk_Txs hk) @ nl) (bo_HotKeys o1)"

text \<open>The strings \<open>Block\<close> writes, one per call of \<open>write\<close>.\<close>

definition cli_block_lines :: "(rat \<Rightarrow> string) \<Rightarrow> (int \<Rightarrow> int) \<Rightarrow> BlockOutcome \<Rightarrow> string list" where
  "cli_block_lines fmt2 log10 o1 =
     (let w = digitWidth log10 (bo_Total o1);
          prefix = ''['' @ pad_left (nat w) (itoa (bo_Index o1)) @ ''/'' @ itoa (bo_Total o1) @ '']''
      in (if bo_IsCanary o1 \<and> bo_Verdict o1 = Match
          then (prefix @ '' CANARY MISSED '' @ bo_FixtureName o1 @ nl) #
               map (\<lambda>(i, code). ''  oracle tx['' @ nat_digits i @ '']: code='' @ nat_digits (unat code) @ nl)
                 (filter (\<lambda>(i, code). code \<noteq> 0) (List.enumerate 0 (bo_OracleTxCodes o1)))
          else if bo_Verdict o1 = Match then [prefix @ '' ok '' @ bo_FixtureName o1 @ nl]
          else (prefix @ '' DIVERGENCE '' @ bo_FixtureName o1 @ nl) #
               concat (map cli_finding_lines (bo_Findings o1))) @
         cli_perf_lines fmt2 o1)"

definition cli_coverage_lines :: "Coverage_Report \<Rightarrow> StatePatternEntry list \<Rightarrow> string list" where
  "cli_coverage_lines cov patterns =
     (let total = length (cov_Covered cov) + length (cov_Uncovered cov);
          cols = (\<lambda>e. pad_right 14 (en_Module e) @ '' '' @ pad_right 26 (en_MsgType e) @ '' '' @
                        pad_right 16 (en_HandlerFn e))
      in if total = 0 then []
         else (''Coverage  registered='' @ nat_digits total @ ''  covered='' @ nat_digits (length (cov_Covered cov)) @
                 ''  uncovered='' @ nat_digits (length (cov_Uncovered cov)) @ nl) #
              map (\<lambda>s. ''  '' @ cols (es_Entry s) @ '' '' @ nat_digits (es_Count s) @ '' tx'' @
                     (let n = DistinctCount patterns (en_Key (es_Entry s))
                      in if 0 < n then ''  '' @ nat_digits n @ '' state patterns'' else '''') @ nl)
                (cov_Covered cov) @
              map (\<lambda>e. ''! '' @ cols e @ '' 0 tx'' @ nl) (cov_Uncovered cov))"

definition cli_footer_lines :: "(rat \<Rightarrow> string) \<Rightarrow> Summary \<Rightarrow> bool \<Rightarrow> string list" where
  "cli_footer_lines fmt2 s failOnDivergence =
     [nl @ ''Summary'' @ nl @ ''  '' @ itoa (sm_TotalBlocks s) @ '' blocks run / '' @ nat_digits (sm_OKCount s) @
        '' ok / '' @ nat_digits (sm_DivergenceCount s) @ '' divergence ('' @ nat_digits (sm_CanaryExpected s) @
        '' canary expected) / '' @ nat_digits (sm_CanaryMissed s) @ '' canary missed'' @ nl] @
     (if 0 < sm_HotKeyBlocks s \<or> 0 < sm_MaxExecRatio s
      then [''Perf  max-exec-ratio='' @ formatRatio fmt2 (sm_MaxExecRatio s) @ ''  hot-key-blocks='' @
              nat_digits (sm_HotKeyBlocks s) @ ''  (report-only)'' @ nl] else []) @
     cli_coverage_lines (sm_Coverage s) (sm_StatePatterns s) @
     [''Exit: '' @ itoa (ExitCode s failOnDivergence) @ nl]"

definition cli_Reporter :: "(rat \<Rightarrow> string) \<Rightarrow> (int \<Rightarrow> int) \<Rightarrow> CLIReporter Reporter" where
  "cli_Reporter fmt2 log10 =
     \<lparr>rp_Header = (\<lambda>corpus blocks probes. cli_write (''Harness  corpus='' @ corpus @ ''  blocks='' @ itoa blocks @
         ''  probes='' @ itoa probes @ nl @ nl)),
      rp_Block = (\<lambda>o1 r. fold cli_write (cli_block_lines fmt2 log10 o1) r),
      rp_Footer = (\<lambda>s failOnDivergence r. fold cli_write (cli_footer_lines fmt2 s failOnDivergence) r),
      rp_Errors = cli_errs\<rparr>"

section \<open>The JSON reporter\<close>

record jsonFinding =
  jf_ID :: string
  jf_Height :: int
  jf_TxIndex :: int
  jf_ProbeIndex :: int
  jf_Dimension :: string
  jf_Oracle :: string
  jf_Probe :: string

record jsonHotKey =
  jh_Store :: string
  jh_Key :: string
  jh_Conflicts :: nat
  jh_Txs :: "int list"

record jsonBlock =
  jb_Index :: int
  jb_Fixture :: string
  jb_IsCanary :: bool
  jb_Verdict :: string
  jb_Findings :: "jsonFinding list"
  jb_HotKeys :: "jsonHotKey list"
  jb_ExecutionRatio :: rat

record jsonRunSummary =
  js_TotalBlocks :: int
  js_OK :: nat
  js_Divergences :: nat
  js_CanaryExpected :: nat
  js_CanaryMissed :: nat
  js_HotKeyBlocks :: nat
  js_MaxExecRatio :: rat
  js_ExitCode :: int

record jsonRunReport =
  jr_SchemaVersion :: int
  jr_Corpus :: string
  jr_Probes :: int
  jr_Summary :: jsonRunSummary
  jr_Blocks :: "jsonBlock list"

record JSONReporter =
  json_out :: "string list"
  json_corpus :: string
  json_probes :: int
  json_blocks :: "jsonBlock list"

definition NewJSON :: JSONReporter where
  "NewJSON = \<lparr>json_out = [], json_corpus = '''', json_probes = 0, json_blocks = []\<rparr>"

definition json_finding :: "Finding \<Rightarrow> jsonFinding" where
  "json_finding f = \<lparr>jf_ID = f_ID f, jf_Height = f_Height f, jf_TxIndex = f_TxIndex f,
     jf_ProbeIndex = f_ProbeIndex f, jf_Dimension = dim_string (f_Dimension f),
     jf_Oracle = f_Oracle f, jf_Probe = f_Probe f\<rparr>"

definition json_block :: "BlockOutcome \<Rightarrow> jsonBlock" where
  "json_block o1 = \<lparr>jb_Index = bo_Index o1, jb_Fixture = bo_FixtureName o1, jb_IsCanary = bo_IsCanary o1,
     jb_Verdict = verdict_string (bo_Verdict o1), jb_Findings = map json_finding (bo_Findings o1),
     jb_HotKeys = map (\<lambda>hk. \<lparr>jh_Store = hk_Store hk, jh_Key = hk_Key hk, jh_Conflicts = hk_Conflicts hk,
        jh_Txs = hk_Txs hk\<rparr>) (bo_HotKeys o1),
     jb_ExecutionRatio = bo_ExecutionRatio o1\<rparr>"

definition json_doc :: "JSONReporter \<Rightarrow> Summary \<Rightarrow> bool \<Rightarrow> jsonRunReport" where
  "json_doc r s failOnDivergence = \<lparr>jr_SchemaVersion = 1, jr_Corpus = json_corpus r, jr_Probes = json_probes r,
     jr_Summary = \<lparr>js_TotalBlocks = sm_TotalBlocks s, js_OK = sm_OKCount s, js_Divergences = sm_DivergenceCount s,
        js_CanaryExpected = sm_CanaryExpected s, js_CanaryMissed = sm_CanaryMissed s,
        js_HotKeyBlocks = sm_HotKeyBlocks s, js_MaxExecRatio = sm_MaxExecRatio s,
        js_ExitCode = ExitCode s failOnDivergence\<rparr>,
     jr_Blocks = json_blocks r\<rparr>"

definition json_Reporter :: "(jsonRunReport \<Rightarrow> string) \<Rightarrow> JSONReporter Reporter" where
  "json_Reporter encode =
     \<lparr>rp_Header = (\<lambda>corpus _ probes r. r\<lparr>json_corpus := corpus, json_probes := probes\<rparr>),
      rp_Block = (\<lambda>o1 r. r\<lparr>json_blocks := json_blocks r @ [json_block o1]\<rparr>),
      rp_Footer = (\<lambda>s failOnDivergence r. r\<lparr>json_out := json_out r @ [encode (json_doc r s failOnDivergence)]\<rparr>),
      rp_Errors = (\<lambda>_. 0)\<rparr>"

section \<open>The Markdown reporter\<close>

record MarkdownReporter =
  md_out :: "string list"
  md_corpus :: string
  md_probes :: int
  md_blocks :: "BlockOutcome list"

definition NewMarkdown :: MarkdownReporter where
  "NewMarkdown = \<lparr>md_out = [], md_corpus = '''', md_probes = 0, md_blocks = []\<rparr>"

definition reproRunCommand :: "string \<Rightarrow> int \<Rightarrow> bool \<Rightarrow> string" where
  "reproRunCommand corpus probes failOnDiv =
     ''blockstm-sim run'' @
     (if corpus \<noteq> ''fixtures'' then '' --corpus '' @ corpus else '''') @
     (if probes \<noteq> 1 then '' --probes '' @ itoa probes else '''') @
     (if failOnDiv then '' --fail-on-divergence'' else '''')"

definition md_missed :: "BlockOutcome list \<Rightarrow> BlockOutcome list" where
  "md_missed bs = filter (\<lambda>b. bo_IsCanary b \<and> bo_Verdict b = Match) bs"

definition md_div :: "BlockOutcome list \<Rightarrow> BlockOutcome list" where
  "md_div bs = filter (\<lambda>b. \<not> (bo_IsCanary b \<and> bo_Verdict b = Match) \<and> bo_Verdict b = Divergence) bs"

definition md_perf :: "BlockOutcome list \<Rightarrow> BlockOutcome list" where
  "md_perf bs = filter (\<lambda>b. bo_HotKeys b \<noteq> []) bs"

definition md_summary_lines :: "(rat \<Rightarrow> string) \<Rightarrow> MarkdownReporter \<Rightarrow> Summary \<Rightarrow> string list" where
  "md_summary_lines fmt2 r s =
     [''# BlockSTM Sim '' @ [CHR 0xE2, CHR 0x80, CHR 0x94] @ '' Run Report'' @ nl @ nl,
      ''**Corpus:** '' @ md_corpus r @ ''  **Probes:** '' @ itoa (md_probes r) @ nl @ nl,
      ''## Summary'' @ nl @ nl,
      ''| Metric | Count |'' @ nl @ ''|--------|-------|'' @ nl,
      ''| Total Blocks | '' @ itoa (sm_TotalBlocks s) @ '' |'' @ nl,
      ''| OK | '' @ nat_digits (sm_OKCount s) @ '' |'' @ nl,
      ''| Divergences | '' @ nat_digits (sm_DivergenceCount s) @ '' |'' @ nl,
      ''| Canary Expected | '' @ nat_digits (sm_CanaryExpected s) @ '' |'' @ nl,
      ''| Canary Missed | '' @ nat_digits (sm_CanaryMissed s) @ '' |'' @ nl] @
     (if 0 < sm_MaxExecRatio s then [''| Max Execution Ratio | '' @ fmt2 (sm_MaxExecRatio s) @ '' |'' @ nl] else []) @
     [nl]"

definition md_div_lines :: "BlockOutcome list \<Rightarrow> string list" where
  "md_div_lines bs =
     (if bs = [] then []
      else (''## Divergences'' @ nl @ nl) # concat (map (\<lambda>b.
        [''### '' @ bo_FixtureName b @ nl @ nl,
         ''| ID | Height | Tx | Probe | Dimension |'' @ nl @ ''|----|--------|----|-------|-----------|'' @ nl] @
        map (\<lambda>f. ''| `'' @ f_ID f @ ''` | '' @ itoa (f_Height f) @ '' | '' @ itoa (f_TxIndex f) @ '' | '' @
               itoa (f_ProbeIndex f) @ '' | '' @ dim_string (f_Dimension f) @ '' |'' @ nl) (bo_Findings b) @ [nl]) bs))"

definition md_missed_lines :: "BlockOutcome list \<Rightarrow> string list" where
  "md_missed_lines bs =
     (if bs = [] then []
      else (''## Missed Canaries'' @ nl @ nl) # map (\<lambda>b. ''- '' @ bo_FixtureName b @ nl) bs @ [nl])"

definition md_perf_lines :: "(rat \<Rightarrow> string) \<Rightarrow> Summary \<Rightarrow> BlockOutcome list \<Rightarrow> string list" where
  "md_perf_lines fmt2 s bs =
     (if bs = [] then []
      else [''## Hot Conflict Keys'' @ nl @ nl,
            ''Max execution ratio: **'' @ formatRatio fmt2 (sm_MaxExecRatio s) @ ''** '' @
              [CHR 0xE2, CHR 0x80, CHR 0x94] @ '' blocks with hot keys: '' @ nat_digits (sm_HotKeyBlocks s) @ nl @ nl] @
           concat (map (\<lambda>b.
             [''### '' @ bo_FixtureName b @ nl @ nl] @
             (if 0 < bo_ExecutionRatio b
              then [''Execution ratio: **'' @ fmt2 (bo_ExecutionRatio b) @ ''**'' @ nl @ nl] else []) @
             [''| Store | Key | Conflicts | Distinct Txs |'' @ nl @ ''|-------|-----|-----------|--------------|'' @ nl] @
             map (\<lambda>hk. ''| '' @ hk_Store hk @ '' | `'' @ hk_Key hk @ ''` | '' @ nat_digits (hk_Conflicts hk) @
                    '' | '' @ nat_digits (length (hk_Txs hk)) @ '' |'' @ nl) (bo_HotKeys b) @ [nl]) bs))"

definition md_footer_lines :: "(rat \<Rightarrow> string) \<Rightarrow> MarkdownReporter \<Rightarrow> Summary \<Rightarrow> bool \<Rightarrow> string list" where
  "md_footer_lines fmt2 r s failOnDivergence =
     md_summary_lines fmt2 r s @ md_div_lines (md_div (md_blocks r)) @
     md_missed_lines (md_missed (md_blocks r)) @ md_perf_lines fmt2 s (md_perf (md_blocks r)) @
     [''## Reproduce'' @ nl @ nl @ ''```sh'' @ nl @
        reproRunCommand (md_corpus r) (md_probes r) failOnDivergence @ nl @ ''```'' @ nl]"

definition md_Reporter :: "(rat \<Rightarrow> string) \<Rightarrow> MarkdownReporter Reporter" where
  "md_Reporter fmt2 =
     \<lparr>rp_Header = (\<lambda>corpus _ probes r. r\<lparr>md_corpus := corpus, md_probes := probes\<rparr>),
      rp_Block = (\<lambda>o1 r. r\<lparr>md_blocks := md_blocks r @ [o1]\<rparr>),
      rp_Footer = (\<lambda>s failOnDivergence r. r\<lparr>md_out := md_out r @ md_footer_lines fmt2 r s failOnDivergence\<rparr>),
      rp_Errors = (\<lambda>_. 0)\<rparr>"

section \<open>Reporters that collect\<close>

text \<open>The contract of a reporter that keeps what it is told: after the blocks of a run it holds the header
  and one record per block, in order, and it reports no error.\<close>

locale collecting_reporter =
  fixes rep :: "'r Reporter" and held :: "'r \<Rightarrow> 'b list" and entry :: "BlockOutcome \<Rightarrow> 'b"
  assumes block_held: "held (rp_Block rep b r) = held r @ [entry b]"
    and header_held: "held (rp_Header rep corpus n probes r) = held r"
    and no_errors: "rp_Errors rep r = 0"
begin

lemma blocks_held: "held (fold (rp_Block rep) bs (rp_Header rep corpus n probes r)) = held r @ map entry bs"
proof -
  have "held (fold (rp_Block rep) bs s) = held s @ map entry bs" for s
    by (induction bs arbitrary: s) (simp_all add: block_held)
  then show ?thesis by (simp add: header_held)
qed

end

interpretation json_rep: collecting_reporter "json_Reporter encode" json_blocks json_block
  by unfold_locales (simp_all add: json_Reporter_def)

interpretation md_rep: collecting_reporter "md_Reporter fmt2" md_blocks "\<lambda>b. b"
  by unfold_locales (simp_all add: md_Reporter_def)

section \<open>Facts\<close>

lemma cli_fold_calls: "cli_calls (fold cli_write ss r) = cli_calls r + length ss"
  by (induction ss arbitrary: r) (auto simp: cli_write_def)

lemma cli_fold_fails [simp]: "cli_fails (fold cli_write ss r) = cli_fails r"
  by (induction ss arbitrary: r) (auto simp: cli_write_def)

lemma cli_fold_ok:
  "(\<And>i. \<not> cli_fails r i) \<Longrightarrow> cli_out (fold cli_write ss r) = cli_out r @ ss \<and> cli_errs (fold cli_write ss r) = cli_errs r"
  by (induction ss arbitrary: r) (auto simp: cli_write_def)

lemma cli_fold_errs:
  "cli_errs (fold cli_write ss r) = cli_errs r + length (filter (cli_fails r) [cli_calls r..<cli_calls r + length ss]) \<and>
   cli_out (fold cli_write ss r) = cli_out r @
     map snd (filter (\<lambda>(i, s). \<not> cli_fails r i) (List.enumerate (cli_calls r) ss))"
proof (induction ss arbitrary: r)
  case (Cons s ss)
  have "[cli_calls r..<cli_calls r + length (s # ss)] = cli_calls r # [Suc (cli_calls r)..<Suc (cli_calls r) + length ss]"
    using upt_conv_Cons [of "cli_calls r" "cli_calls r + length (s # ss)"] by simp
  then show ?case
    using Cons.IH [of "cli_write s r"] by (auto simp: cli_write_def)
qed simp

section \<open>Properties\<close>

text \<open>The JSON report holds the whole run: after the header, the blocks and the footer, the document
  written is the encoding of a report that has the corpus and probes of the header, one entry per block in
  the order of the run with every finding and hot key of it, the counts of the summary and its exit code.\<close>

theorem json_report_complete:
  "\<exists>doc. json_out (rp_Footer (json_Reporter encode) s failOn
      (fold (rp_Block (json_Reporter encode)) bs (rp_Header (json_Reporter encode) corpus n probes NewJSON))) = [encode doc] \<and>
    jr_Corpus doc = corpus \<and> jr_Probes doc = probes \<and> jr_Blocks doc = map json_block bs \<and>
    map (\<lambda>b. map jf_ID (jb_Findings b)) (jr_Blocks doc) = map (\<lambda>b. map f_ID (bo_Findings b)) bs \<and>
    js_Divergences (jr_Summary doc) = sm_DivergenceCount s \<and> js_ExitCode (jr_Summary doc) = ExitCode s failOn"
proof -
  let ?rep = "json_Reporter encode" and ?start = "rp_Header (json_Reporter encode) corpus n probes NewJSON"
  let ?r = "fold (rp_Block ?rep) bs ?start"
  have kept: "json_out (fold (rp_Block ?rep) bs r) = json_out r \<and> json_corpus (fold (rp_Block ?rep) bs r) = json_corpus r \<and>
      json_probes (fold (rp_Block ?rep) bs r) = json_probes r" for r
    by (induction bs arbitrary: r) (auto simp: json_Reporter_def)
  have blocks: "json_blocks ?r = map json_block bs"
    using json_rep.blocks_held [where encode = encode] by (simp add: NewJSON_def)
  have "map (\<lambda>b. map jf_ID (jb_Findings b)) (map json_block bs) = map (\<lambda>b. map f_ID (bo_Findings b)) bs"
    by (simp add: json_block_def json_finding_def comp_def)
  then show ?thesis
    using kept [of ?start] blocks
    by (intro exI [of _ "json_doc ?r s failOn"])
      (simp add: json_doc_def, simp add: json_Reporter_def NewJSON_def json_doc_def)
qed

text \<open>The CLI reporter counts its write errors and drops only what failed: after any writes,
  \<open>Errors\<close> is the number of calls the writer refused, and the output is what the other calls wrote, in
  order.\<close>

theorem cli_errors_counted:
  "cli_errs (fold cli_write ss (NewCLI fails)) = length (filter fails [0..<length ss]) \<and>
   cli_out (fold cli_write ss (NewCLI fails)) = map snd (filter (\<lambda>(i, s). \<not> fails i) (List.enumerate 0 ss))"
  using cli_fold_errs [of ss "NewCLI fails"] by (simp add: NewCLI_def)

end
