(* ===== verification/Harness.thy ===== *)
theory Harness
  imports Report Corpus "HOL-Library.Sublist"
begin

text \<open>
  \<open>run/harness.go\<close>: the loop over corpora and blocks that drives an executor, feeds the coverage
  trackers and the reporter, counts the outcomes and returns the exit code. Executor and reporter are the
  interfaces of the code, over states \<open>'e\<close> and \<open>'r\<close>; the optional interfaces are \<open>option\<close> fields. What
  is written to \<open>errOut\<close> is a list of lines.
\<close>

record 'e Executor =
  ex_Init :: "GenesisSpec \<Rightarrow> 'e \<Rightarrow> unit go \<times> 'e"
  ex_RunBlock :: "BlockSpec \<Rightarrow> int \<Rightarrow> 'e \<Rightarrow> Result go \<times> 'e"
  ex_Close :: "'e \<Rightarrow> 'e"
  ex_SetConflictDetection :: "(bool \<Rightarrow> 'e \<Rightarrow> 'e) option"
  ex_InitFromState :: "(string \<Rightarrow> RangeMeta \<Rightarrow> 'e \<Rightarrow> unit go \<times> 'e) option"

record Config =
  cf_CorpusDir :: string
  cf_Probes :: int
  cf_FailOnDivergence :: bool
  cf_HotKeyMinTxs :: int

fun err_string :: "go_error \<Rightarrow> string" where
  "err_string (ErrMsg s) = s"
| "err_string (ErrWrap s e) = s @ '': '' @ err_string e"
| "err_string ErrUnexpectedEOF = ''unexpected EOF''"

record ('e, 'r) harness =
  hs_exec :: 'e
  hs_rep :: 'r
  hs_errOut :: "string list"
  hs_tracker :: Tracker
  hs_patterns :: patterns
  hs_ok :: nat
  hs_div :: nat
  hs_expected :: nat
  hs_missed :: nat
  hs_blockNum :: int
  hs_hotKeyBlocks :: nat
  hs_maxExecRatio :: rat

definition log_err :: "string \<Rightarrow> ('e, 'r) harness \<Rightarrow> ('e, 'r) harness" where
  "log_err s st = st\<lparr>hs_errOut := hs_errOut st @ [s]\<rparr>"

definition reported_hot_keys :: "Config \<Rightarrow> HotKeyStat list \<Rightarrow> HotKeyStat list" where
  "reported_hot_keys cfg hks =
     (if 0 < cf_HotKeyMinTxs cfg then filter (\<lambda>hk. cf_HotKeyMinTxs cfg \<le> int (length (hk_Txs hk))) hks else [])"

definition block_outcome :: "Config \<Rightarrow> int \<Rightarrow> string \<Rightarrow> bool \<Rightarrow> int \<Rightarrow> Result \<Rightarrow> BlockOutcome" where
  "block_outcome cfg tot name isCanary index r =
     \<lparr>bo_Index = index, bo_Total = tot, bo_FixtureName = name, bo_IsCanary = isCanary,
      bo_Verdict = r_Verdict r, bo_Findings = r_Findings r, bo_OracleTxCodes = r_OracleTxCodes r,
      bo_HotKeys = reported_hot_keys cfg (r_HotKeys r), bo_ExecutionRatio = r_ExecutionRatio r\<rparr>"

text \<open>The counters, after an outcome.\<close>

definition count_outcome :: "BlockOutcome \<Rightarrow> ('e, 'r) harness \<Rightarrow> ('e, 'r) harness" where
  "count_outcome b st =
     (let st1 = st\<lparr>hs_hotKeyBlocks := (if bo_HotKeys b \<noteq> [] then Suc (hs_hotKeyBlocks st) else hs_hotKeyBlocks st),
                   hs_maxExecRatio := (if hs_maxExecRatio st < bo_ExecutionRatio b then bo_ExecutionRatio b
                                       else hs_maxExecRatio st)\<rparr>
      in if bo_IsCanary b \<and> bo_Verdict b = Divergence then st1\<lparr>hs_expected := Suc (hs_expected st1)\<rparr>
         else if bo_IsCanary b \<and> bo_Verdict b = Match then st1\<lparr>hs_missed := Suc (hs_missed st1)\<rparr>
         else if bo_Verdict b = Match then st1\<lparr>hs_ok := Suc (hs_ok st1)\<rparr>
         else if bo_Verdict b = Divergence then st1\<lparr>hs_div := Suc (hs_div st1)\<rparr>
         else st1)"

text \<open>The body of the block loop; \<open>height\<close> is the local height before the block.\<close>

definition h_block ::
  "Config \<Rightarrow> 'e Executor \<Rightarrow> 'r Reporter \<Rightarrow> int \<Rightarrow> string \<Rightarrow> bool \<Rightarrow> BlockSpec \<Rightarrow> int \<Rightarrow>
   ('e, 'r) harness \<Rightarrow> ('e, 'r) harness go" where
  "h_block cfg ex rep tot name isCanary b height st =
     (let st1 = st\<lparr>hs_blockNum := hs_blockNum st + 1\<rparr>;
          effectiveHeight = (if 0 < bl_Height b then bl_Height b else height + 1)
      in case ex_RunBlock ex b effectiveHeight (hs_exec st1) of
           (Panic p, _) \<Rightarrow> Panic p
         | (Err e, ex') \<Rightarrow> Ok (log_err (''run block '' @ itoa effectiveHeight @ '' of '' @ name @ '': '' @ err_string e)
             (st1\<lparr>hs_exec := ex'\<rparr>))
         | (Ok r, ex') \<Rightarrow>
             (let b' = block_outcome cfg tot name isCanary (hs_blockNum st1) r
              in Ok (count_outcome b'
                   (st1\<lparr>hs_exec := ex',
                        hs_tracker := tracker_RecordBlock (hs_tracker st1) (r_MsgKeys r),
                        hs_patterns := pattern_RecordBlock (hs_patterns st1) (r_MsgKeys r) (r_TxWriteSets r),
                        hs_rep := rp_Block rep b' (hs_rep st1)\<rparr>))))"

fun h_iter ::
  "Config \<Rightarrow> 'e Executor \<Rightarrow> 'r Reporter \<Rightarrow> int \<Rightarrow> string \<Rightarrow> bool \<Rightarrow> blocks_iter \<Rightarrow> int \<Rightarrow>
   ('e, 'r) harness \<Rightarrow> ('e, 'r) harness go" where
  "h_iter cfg ex rep tot name isCanary IterEnd height st = Ok st"
| "h_iter cfg ex rep tot name isCanary (IterErr e) height st =
     Ok (log_err (''iter fixture '' @ name @ '': '' @ err_string e) st)"
| "h_iter cfg ex rep tot name isCanary (IterPanic p) height st = Panic p"
| "h_iter cfg ex rep tot name isCanary (IterBlock b it) height st =
     go_bind (h_block cfg ex rep tot name isCanary b height st)
       (h_iter cfg ex rep tot name isCanary it (height + 1))"

text \<open>The initialisation of a store: \<open>Ok None\<close> when the executor is ready, \<open>Ok (Some msg)\<close> when the
  store is skipped with a message.\<close>

definition h_init :: "'e Executor \<Rightarrow> CorpusStore \<Rightarrow> 'e \<Rightarrow> string option go \<times> 'e" where
  "h_init ex store e =
     (if cs_SnapshotDir store \<noteq> ''''
      then (case ex_InitFromState ex of
              None \<Rightarrow> (Ok (Some (''executor does not support state-based init for '' @ cs_Name store)), e)
            | Some ini \<Rightarrow> (case ini (cs_SnapshotDir store) (cs_Meta store) e of
                (Ok _, e') \<Rightarrow> (Ok None, e')
              | (Err er, e') \<Rightarrow> (Ok (Some (''init from state '' @ cs_Name store @ '': '' @ err_string er)), e')
              | (Panic p, e') \<Rightarrow> (Panic p, e')))
      else (case ex_Init ex (cs_Genesis store) e of
              (Ok _, e') \<Rightarrow> (Ok None, e')
            | (Err er, e') \<Rightarrow> (Ok (Some (''init fixture '' @ cs_Name store @ '': '' @ err_string er)), e')
            | (Panic p, e') \<Rightarrow> (Panic p, e')))"

definition h_store ::
  "Config \<Rightarrow> 'e Executor \<Rightarrow> 'r Reporter \<Rightarrow> int \<Rightarrow> CorpusStore \<Rightarrow> ('e, 'r) harness \<Rightarrow> ('e, 'r) harness go" where
  "h_store cfg ex rep tot store st =
     (case h_init ex store (hs_exec st) of
        (Panic p, _) \<Rightarrow> Panic p
      | (Err e, _) \<Rightarrow> Err e
      | (Ok (Some msg), e) \<Rightarrow>
          Ok (log_err msg (st\<lparr>hs_exec := e, hs_blockNum := hs_blockNum st + cs_BlockCount store\<rparr>))
      | (Ok None, e) \<Rightarrow>
          go_bind (h_iter cfg ex rep tot (cs_Name store) (cs_IsCanary store) (cs_Iter store (\<lambda>_. None)) 0
                     (st\<lparr>hs_exec := e\<rparr>))
            (\<lambda>st'. Ok (st'\<lparr>hs_exec := ex_Close ex (hs_exec st')\<rparr>)))"

definition total_blocks :: "CorpusStore list \<Rightarrow> int" where
  "total_blocks stores = foldl (\<lambda>t s. t + cs_BlockCount s) 0 stores"

definition h_start :: "Config \<Rightarrow> 'e Executor \<Rightarrow> 'r Reporter \<Rightarrow> CorpusStore list \<Rightarrow> 'e \<Rightarrow> 'r \<Rightarrow> ('e, 'r) harness" where
  "h_start cfg ex rep stores e r =
     \<lparr>hs_exec = (case ex_SetConflictDetection ex of None \<Rightarrow> e | Some f \<Rightarrow> f (0 < cf_HotKeyMinTxs cfg) e),
      hs_rep = rp_Header rep (cf_CorpusDir cfg) (total_blocks stores) (cf_Probes cfg) r,
      hs_errOut = [], hs_tracker = NewTracker, hs_patterns = NewStatePatternTracker, hs_ok = 0, hs_div = 0,
      hs_expected = 0, hs_missed = 0, hs_blockNum = 0, hs_hotKeyBlocks = 0, hs_maxExecRatio = 0\<rparr>"

definition h_summary :: "registry \<Rightarrow> 'r Reporter \<Rightarrow> CorpusStore list \<Rightarrow> ('e, 'r) harness \<Rightarrow> Summary" where
  "h_summary reg rep stores st =
     \<lparr>sm_TotalBlocks = total_blocks stores, sm_OKCount = hs_ok st, sm_DivergenceCount = hs_div st,
      sm_CanaryExpected = hs_expected st, sm_CanaryMissed = hs_missed st,
      sm_ReporterErrors = rp_Errors rep (hs_rep st), sm_Coverage = tracker_Report reg (hs_tracker st),
      sm_StatePatterns = pattern_Report (hs_patterns st), sm_HotKeyBlocks = hs_hotKeyBlocks st,
      sm_MaxExecRatio = hs_maxExecRatio st\<rparr>"

text \<open>The hints are eight fixed lines; the model keeps their first.\<close>

definition canary_warning :: string where
  "canary_warning = ''WARN: all canary blocks missed''"

definition RunHarness ::
  "Config \<Rightarrow> 'e Executor \<Rightarrow> CorpusStore list \<Rightarrow> 'r Reporter \<Rightarrow> registry \<Rightarrow> 'e \<Rightarrow> 'r \<Rightarrow>
   (int \<times> ('e, 'r) harness) go" where
  "RunHarness cfg ex stores rep reg e r =
     go_bind (go_fold (h_store cfg ex rep (total_blocks stores)) stores (h_start cfg ex rep stores e r)) (\<lambda>st.
       let st1 = (if 0 < hs_missed st \<and> hs_expected st = 0 then log_err canary_warning st else st);
           summary = h_summary reg rep stores st1
       in Ok (ExitCode summary (cf_FailOnDivergence cfg),
              st1\<lparr>hs_rep := rp_Footer rep summary (cf_FailOnDivergence cfg) (hs_rep st1)\<rparr>))"

section \<open>The invariant of the loops\<close>

text \<open>The reporter got exactly the outcomes \<open>outs\<close>, and the counters count them.\<close>

definition h_inv :: "'r Reporter \<Rightarrow> 'r \<Rightarrow> BlockOutcome list \<Rightarrow> ('e, 'r) harness \<Rightarrow> bool" where
  "h_inv rep r1 outs st \<longleftrightarrow>
     hs_rep st = fold (rp_Block rep) outs r1 \<and>
     hs_ok st = length (filter (\<lambda>b. \<not> bo_IsCanary b \<and> bo_Verdict b = Match) outs) \<and>
     hs_div st = length (filter (\<lambda>b. \<not> bo_IsCanary b \<and> bo_Verdict b = Divergence) outs) \<and>
     hs_expected st = length (filter (\<lambda>b. bo_IsCanary b \<and> bo_Verdict b = Divergence) outs) \<and>
     hs_missed st = length (filter (\<lambda>b. bo_IsCanary b \<and> bo_Verdict b = Match) outs) \<and>
     hs_hotKeyBlocks st = length (filter (\<lambda>b. bo_HotKeys b \<noteq> []) outs) \<and>
     sorted_wrt (<) (map bo_Index outs @ [hs_blockNum st + 1])"

lemma log_err_inv [simp]: "h_inv rep r1 outs (log_err s st) \<longleftrightarrow> h_inv rep r1 outs st"
  by (simp add: h_inv_def log_err_def)

lemma log_err_exec [simp]: "hs_exec (log_err s st) = hs_exec st"
  by (simp add: log_err_def)

lemma log_err_num [simp]: "hs_blockNum (log_err s st) = hs_blockNum st"
  by (simp add: log_err_def)

lemma h_inv_later:
  "h_inv rep r1 outs st \<Longrightarrow> 0 \<le> n \<Longrightarrow> h_inv rep r1 outs (st\<lparr>hs_exec := e, hs_blockNum := hs_blockNum st + n\<rparr>)"
  by (auto simp: h_inv_def sorted_wrt_append)

lemma h_inv_exec: "h_inv rep r1 outs st \<Longrightarrow> h_inv rep r1 outs (st\<lparr>hs_exec := e\<rparr>)"
  by (simp add: h_inv_def)

lemma count_outcome_inv:
  assumes "h_inv rep r1 outs st" "bo_Index b = hs_blockNum st + 1"
  shows "h_inv rep r1 (outs @ [b]) (count_outcome b
    (st\<lparr>hs_blockNum := hs_blockNum st + 1, hs_exec := e, hs_tracker := t, hs_patterns := p,
       hs_rep := rp_Block rep b (hs_rep st)\<rparr>))"
  using assms
  by (cases "bo_Verdict b"; cases "bo_IsCanary b")
    (auto simp: h_inv_def count_outcome_def Let_def sorted_wrt_append)

lemma count_outcome_num [simp]: "hs_blockNum (count_outcome b st) = hs_blockNum st"
  by (simp add: count_outcome_def Let_def)

lemma count_outcome_exec: "hs_exec (count_outcome b st) = hs_exec st"
  by (simp add: count_outcome_def Let_def)

lemma count_outcome_err [simp]: "hs_errOut (count_outcome b st) = hs_errOut st"
  by (simp add: count_outcome_def Let_def)

text \<open>What a run makes the executor do, without the reporting: the blocks it runs, each with its store, its
  height, the executor's state before and the result. A block that fails does not end its store's loop; a
  store whose initialisation fails runs none.\<close>

type_synonym 'e block_run = "CorpusStore \<times> BlockSpec \<times> int \<times> 'e \<times> Result go"

definition effective_height :: "BlockSpec \<Rightarrow> int \<Rightarrow> int" where
  "effective_height b position = (if 0 < bl_Height b then bl_Height b else position + 1)"

fun block_runs :: "'e Executor \<Rightarrow> CorpusStore \<Rightarrow> int \<Rightarrow> BlockSpec list \<Rightarrow> 'e \<Rightarrow> 'e block_run list \<times> 'e" where
  "block_runs ex s i [] e = ([], e)"
| "block_runs ex s i (b # bs) e =
     (case ex_RunBlock ex b (effective_height b i) e of (r, e1) \<Rightarrow>
        (case block_runs ex s (i + 1) bs e1 of (rs, e2) \<Rightarrow> ((s, b, effective_height b i, e, r) # rs, e2)))"

definition store_run :: "'e Executor \<Rightarrow> CorpusStore \<Rightarrow> 'e \<Rightarrow> 'e block_run list \<times> 'e" where
  "store_run ex s e =
     (case h_init ex s e of
        (Ok None, e1) \<Rightarrow> (case block_runs ex s 0 (iter_blocks (cs_Iter s (\<lambda>_. None))) e1 of (rs, e2) \<Rightarrow> (rs, ex_Close ex e2))
      | (_, e1) \<Rightarrow> ([], e1))"

fun harness_runs :: "'e Executor \<Rightarrow> CorpusStore list \<Rightarrow> 'e \<Rightarrow> 'e block_run list" where
  "harness_runs ex [] e = []"
| "harness_runs ex (s # stores) e = (case store_run ex s e of (rs, e1) \<Rightarrow> rs @ harness_runs ex stores e1)"

text \<open>The executor's state when the loop starts.\<close>

definition harness_start :: "Config \<Rightarrow> 'e Executor \<Rightarrow> 'e \<Rightarrow> 'e" where
  "harness_start cfg ex e = (case ex_SetConflictDetection ex of None \<Rightarrow> e | Some f \<Rightarrow> f (0 < cf_HotKeyMinTxs cfg) e)"

definition run_ok :: "'e block_run \<Rightarrow> bool" where
  "run_ok = (\<lambda>(s, b, h, e, r). case r of Ok x \<Rightarrow> True | _ \<Rightarrow> False)"

definition run_block :: "'e block_run \<Rightarrow> CorpusStore \<times> BlockSpec" where
  "run_block = (\<lambda>(s, b, h, e, r). (s, b))"

text \<open>The outcome that is reported for a block that ran.\<close>

definition outcome_of :: "Config \<Rightarrow> int \<Rightarrow> 'e block_run \<Rightarrow> BlockOutcome \<Rightarrow> bool" where
  "outcome_of cfg tot = (\<lambda>(s, b, h, e, r) o1. \<exists>x. r = Ok x \<and>
     o1 = block_outcome cfg tot (cs_Name s) (cs_IsCanary s) (bo_Index o1) x)"

definition outcomes_of :: "Config \<Rightarrow> int \<Rightarrow> 'e block_run list \<Rightarrow> BlockOutcome list \<Rightarrow> bool" where
  "outcomes_of cfg tot runs outs \<longleftrightarrow> list_all2 (outcome_of cfg tot) (filter run_ok runs) outs"

lemma outcomes_of_append:
  "outcomes_of cfg tot rs outs \<Longrightarrow> outcomes_of cfg tot rs' outs' \<Longrightarrow> outcomes_of cfg tot (rs @ rs') (outs @ outs')"
  by (simp add: outcomes_of_def list_all2_appendI)

lemma outcomes_of_Nil [simp]: "outcomes_of cfg tot [] outs \<longleftrightarrow> outs = []"
  by (simp add: outcomes_of_def)

lemma h_block_inv:
  assumes "h_block cfg ex rep tot (cs_Name s) (cs_IsCanary s) b height st = Ok st'" "h_inv rep r1 outs st"
    and "ex_RunBlock ex b (effective_height b height) (hs_exec st) = (res, e)"
  shows "\<exists>new. h_inv rep r1 (outs @ new) st' \<and> hs_blockNum st' = hs_blockNum st + 1 \<and> hs_exec st' = e \<and>
    outcomes_of cfg tot [(s, b, effective_height b height, hs_exec st, res)] new \<and>
    (hs_errOut st' = [] \<longrightarrow> hs_errOut st = [] \<and> (\<exists>x. res = Ok x))"
proof -
  note r = assms(3) [unfolded effective_height_def]
  let ?h = "if 0 < bl_Height b then bl_Height b else height + 1"
  show ?thesis
  proof (cases res)
    case (Ok x)
    let ?o = "block_outcome cfg tot (cs_Name s) (cs_IsCanary s) (hs_blockNum st + 1) x"
    have "bo_Index ?o = hs_blockNum st + 1" by (simp add: block_outcome_def)
    from count_outcome_inv [OF assms(2) this] assms(1) r Ok
    have "h_inv rep r1 (outs @ [?o]) st' \<and> hs_blockNum st' = hs_blockNum st + 1 \<and> hs_errOut st' = hs_errOut st \<and>
        hs_exec st' = e"
      by (auto simp: h_block_def Let_def count_outcome_exec)
    moreover have "outcomes_of cfg tot [(s, b, effective_height b height, hs_exec st, res)] [?o]"
      using Ok by (simp add: outcomes_of_def run_ok_def outcome_of_def block_outcome_def)
    ultimately show ?thesis using Ok by (intro exI [of _ "[?o]"]) auto
  next
    case (Err er)
    have inv: "h_inv rep r1 outs (st\<lparr>hs_blockNum := hs_blockNum st + 1, hs_exec := e\<rparr>)"
      using assms(2) by (auto simp: h_inv_def sorted_wrt_append)
    have st': "st' = log_err (''run block '' @ itoa ?h @ '' of '' @ cs_Name s @ '': '' @ err_string er)
        (st\<lparr>hs_blockNum := hs_blockNum st + 1, hs_exec := e\<rparr>)"
      using assms(1) r Err by (simp add: h_block_def Let_def)
    then have "hs_errOut st' \<noteq> []" "hs_exec st' = e" by (simp_all add: log_err_def)
    moreover have "outcomes_of cfg tot [(s, b, effective_height b height, hs_exec st, res)] []"
      using Err by (simp add: outcomes_of_def run_ok_def)
    moreover have "h_inv rep r1 outs st'" "hs_blockNum st' = hs_blockNum st + 1" using inv by (simp_all add: st')
    ultimately show ?thesis by (intro exI [of _ "[]"]) simp
  qed (use assms(1) r in \<open>simp add: h_block_def Let_def\<close>)
qed

lemma h_iter_inv:
  assumes "h_iter cfg ex rep tot (cs_Name s) (cs_IsCanary s) it height st = Ok st'" "h_inv rep r1 outs st"
    and "block_runs ex s height (iter_blocks it) (hs_exec st) = (rs, e)"
  shows "\<exists>new. h_inv rep r1 (outs @ new) st' \<and> hs_blockNum st' = hs_blockNum st + int (length (iter_blocks it)) \<and>
    hs_exec st' = e \<and> outcomes_of cfg tot rs new \<and> (hs_errOut st' = [] \<longrightarrow> hs_errOut st = [] \<and> list_all run_ok rs)"
  using assms
proof (induction it arbitrary: height st outs rs e)
  case (IterBlock b it)
  then obtain st1 where 1: "h_block cfg ex rep tot (cs_Name s) (cs_IsCanary s) b height st = Ok st1"
      "h_iter cfg ex rep tot (cs_Name s) (cs_IsCanary s) it (height + 1) st1 = Ok st'"
    by (auto simp: go_bind_eq_Ok)
  obtain res e1 where r: "ex_RunBlock ex b (effective_height b height) (hs_exec st) = (res, e1)" by fastforce
  obtain rs1 where rs: "block_runs ex s (height + 1) (iter_blocks it) e1 = (rs1, e)"
      "rs = (s, b, effective_height b height, hs_exec st, res) # rs1"
    using IterBlock.prems(3) r by (auto split: prod.splits)
  obtain new where new: "h_inv rep r1 (outs @ new) st1" "hs_blockNum st1 = hs_blockNum st + 1" "hs_exec st1 = e1"
      "outcomes_of cfg tot [(s, b, effective_height b height, hs_exec st, res)] new"
      "hs_errOut st1 = [] \<longrightarrow> hs_errOut st = [] \<and> (\<exists>x. res = Ok x)"
    using h_block_inv [OF 1(1) IterBlock.prems(2) r] by blast
  obtain new' where new': "h_inv rep r1 ((outs @ new) @ new') st'"
      "hs_blockNum st' = hs_blockNum st1 + int (length (iter_blocks it))" "hs_exec st' = e" "outcomes_of cfg tot rs1 new'"
      "hs_errOut st' = [] \<longrightarrow> hs_errOut st1 = [] \<and> list_all run_ok rs1"
    using IterBlock.IH [OF 1(2) new(1)] rs(1) new(3) by blast
  show ?case
    using new new' outcomes_of_append [OF new(4) new'(4)] rs(2)
    by (intro exI [of _ "new @ new'"]) (auto simp: run_ok_def)
next
  case (IterErr er)
  then have st': "st' = log_err (''iter fixture '' @ cs_Name s @ '': '' @ err_string er) st" by simp
  then show ?case using IterErr.prems(2,3) by (intro exI [of _ "[]"]) (auto simp: log_err_def h_inv_def)
qed (auto intro!: exI [of _ "[]"])

definition store_ok :: "CorpusStore \<Rightarrow> bool" where
  "store_ok s \<longleftrightarrow> (\<forall>ctx. int (length (iter_blocks (cs_Iter s ctx))) \<le> cs_BlockCount s)"

context corpus_store
begin

lemma corpus_store_ok: "ok a \<Longrightarrow> store_ok (store a)"
  by (simp add: store_ok_def yields_le)

end

text \<open>The blocks of the stores, in order, each with its store.\<close>

definition store_blocks :: "CorpusStore \<Rightarrow> (CorpusStore \<times> BlockSpec) list" where
  "store_blocks s = map (Pair s) (iter_blocks (cs_Iter s (\<lambda>_. None)))"

text \<open>A run of a store is one of its blocks', after its initialisation.\<close>

lemma store_run_member:
  assumes "store_run ex s e = (rs, e')" "c \<in> set rs"
  obtains e1 where "h_init ex s e = (Ok None, e1)" "c \<in> set (fst (block_runs ex s 0 (iter_blocks (cs_Iter s (\<lambda>_. None))) e1))"
proof -
  obtain res e1 where i: "h_init ex s e = (res, e1)" by fastforce
  have "res = Ok None"
    using assms i by (cases res) (auto simp: store_run_def split: option.splits)
  moreover have "c \<in> set (fst (block_runs ex s 0 (iter_blocks (cs_Iter s (\<lambda>_. None))) e1))"
    using assms i calculation by (auto simp: store_run_def split: prod.splits)
  ultimately show thesis using i that by blast
qed

lemma block_runs_blocks: "map run_block (fst (block_runs ex s i bs e)) = map (Pair s) bs"
proof (induction bs arbitrary: i e)
  case (Cons b bs)
  obtain r e1 where r: "ex_RunBlock ex b (effective_height b i) e = (r, e1)" by fastforce
  obtain rs e2 where rs: "block_runs ex s (i + 1) bs e1 = (rs, e2)" by fastforce
  show ?case using Cons.IH [of "i + 1" e1] r rs by (simp add: run_block_def)
qed simp

lemma h_store_inv:
  assumes "h_store cfg ex rep tot s st = Ok st'" "h_inv rep r1 outs st" "store_ok s"
    and "store_run ex s (hs_exec st) = (rs, e')"
  shows "\<exists>new. h_inv rep r1 (outs @ new) st' \<and> hs_blockNum st' \<le> hs_blockNum st + cs_BlockCount s \<and> hs_exec st' = e' \<and>
    outcomes_of cfg tot rs new \<and>
    (hs_errOut st' = [] \<longrightarrow> hs_errOut st = [] \<and> list_all run_ok rs \<and> map run_block rs = store_blocks s)"
proof -
  have count: "0 \<le> cs_BlockCount s" and yields: "int (length (iter_blocks (cs_Iter s (\<lambda>_. None)))) \<le> cs_BlockCount s"
    using assms(3) by (auto simp: store_ok_def intro: order_trans [OF of_nat_0_le_iff])
  obtain res e where i: "h_init ex s (hs_exec st) = (res, e)" by (cases "h_init ex s (hs_exec st)")
  show ?thesis
  proof (cases res)
    case (Ok m)
    show ?thesis
    proof (cases m)
      case (Some msg)
      then have "st' = log_err msg (st\<lparr>hs_exec := e, hs_blockNum := hs_blockNum st + cs_BlockCount s\<rparr>)"
        using assms(1) i Ok by (simp add: h_store_def)
      moreover have "rs = []" "e' = e" using assms(4) i Ok Some by (simp_all add: store_run_def)
      ultimately show ?thesis
        using h_inv_later [OF assms(2) count, of e] by (intro exI [of _ "[]"]) (simp add: log_err_def h_inv_def)
    next
      case None
      let ?bs = "iter_blocks (cs_Iter s (\<lambda>_. None))"
      obtain st1 where st1: "h_iter cfg ex rep tot (cs_Name s) (cs_IsCanary s) (cs_Iter s (\<lambda>_. None)) 0
            (st\<lparr>hs_exec := e\<rparr>) = Ok st1" "st' = st1\<lparr>hs_exec := ex_Close ex (hs_exec st1)\<rparr>"
        using assms(1) i Ok None by (auto simp: h_store_def go_bind_eq_Ok)
      obtain e2 where run: "block_runs ex s 0 ?bs e = (rs, e2)" "e' = ex_Close ex e2"
        using assms(4) i Ok None by (auto simp: store_run_def split: prod.splits)
      have run': "block_runs ex s 0 ?bs (hs_exec (st\<lparr>hs_exec := e\<rparr>)) = (rs, e2)" using run(1) by simp
      obtain new where new: "h_inv rep r1 (outs @ new) st1" "hs_blockNum st1 = hs_blockNum st + int (length ?bs)"
          "hs_exec st1 = e2" "outcomes_of cfg tot rs new" "hs_errOut st1 = [] \<longrightarrow> hs_errOut st = [] \<and> list_all run_ok rs"
        using h_iter_inv [OF st1(1) h_inv_exec [OF assms(2)] run'] by auto
      have "map run_block rs = store_blocks s"
        using block_runs_blocks [of ex s 0 ?bs e] run(1) by (simp add: store_blocks_def)
      then show ?thesis
        using yields st1(2) new run(2) h_inv_exec by (intro exI [of _ new]) simp
    qed
  qed (use assms(1) i in \<open>simp_all add: h_store_def\<close>)
qed

lemma h_stores_inv:
  assumes "go_fold (h_store cfg ex rep tot) stores st = Ok st'" "h_inv rep r1 outs st" "list_all store_ok stores"
  shows "\<exists>new. h_inv rep r1 (outs @ new) st' \<and>
    hs_blockNum st' \<le> hs_blockNum st + sum_list (map cs_BlockCount stores) \<and>
    outcomes_of cfg tot (harness_runs ex stores (hs_exec st)) new \<and>
    (hs_errOut st' = [] \<longrightarrow> hs_errOut st = [] \<and> list_all run_ok (harness_runs ex stores (hs_exec st)) \<and>
       map run_block (harness_runs ex stores (hs_exec st)) = concat (map store_blocks stores))"
  using assms
proof (induction stores arbitrary: st outs)
  case Nil
  then show ?case by (intro exI [of _ "[]"]) simp
next
  case (Cons s stores)
  then obtain st1 where 1: "h_store cfg ex rep tot s st = Ok st1" "go_fold (h_store cfg ex rep tot) stores st1 = Ok st'"
    by (auto simp: go_bind_eq_Ok)
  have ok: "store_ok s" "list_all store_ok stores" using Cons.prems(3) by auto
  obtain rs e1 where r: "store_run ex s (hs_exec st) = (rs, e1)" by fastforce
  obtain new where new: "h_inv rep r1 (outs @ new) st1" "hs_blockNum st1 \<le> hs_blockNum st + cs_BlockCount s"
      "hs_exec st1 = e1" "outcomes_of cfg tot rs new"
      "hs_errOut st1 = [] \<longrightarrow> hs_errOut st = [] \<and> list_all run_ok rs \<and> map run_block rs = store_blocks s"
    using h_store_inv [OF 1(1) Cons.prems(2) ok(1) r] by blast
  obtain new' where new': "h_inv rep r1 ((outs @ new) @ new') st'"
      "hs_blockNum st' \<le> hs_blockNum st1 + sum_list (map cs_BlockCount stores)"
      "outcomes_of cfg tot (harness_runs ex stores e1) new'"
      "hs_errOut st' = [] \<longrightarrow> hs_errOut st1 = [] \<and> list_all run_ok (harness_runs ex stores e1) \<and>
       map run_block (harness_runs ex stores e1) = concat (map store_blocks stores)"
    using Cons.IH [OF 1(2) new(1) ok(2)] unfolding new(3) by blast
  show ?case
    using new new' outcomes_of_append [OF new(4) new'(3)] r by (intro exI [of _ "new @ new'"]) auto
qed

text \<open>What the results of the runs add up to: the coverage trackers and the largest execution ratio.\<close>

definition results :: "'e block_run list \<Rightarrow> Result list" where
  "results runs = concat (map (\<lambda>(s, b, h, e, r). case r of Ok x \<Rightarrow> [x] | _ \<Rightarrow> []) runs)"

definition coverage_of :: "Result list \<Rightarrow> Tracker" where
  "coverage_of rs = foldl (\<lambda>t r. tracker_RecordBlock t (r_MsgKeys r)) NewTracker rs"

definition patterns_of :: "Result list \<Rightarrow> patterns" where
  "patterns_of rs = foldl (\<lambda>p r. pattern_RecordBlock p (r_MsgKeys r) (r_TxWriteSets r)) NewStatePatternTracker rs"

definition max_ratio :: "Result list \<Rightarrow> rat" where
  "max_ratio rs = foldl (\<lambda>m r. max m (r_ExecutionRatio r)) 0 rs"

definition h_acc :: "Result list \<Rightarrow> ('e, 'r) harness \<Rightarrow> bool" where
  "h_acc rs st \<longleftrightarrow> hs_tracker st = coverage_of rs \<and> hs_patterns st = patterns_of rs \<and> hs_maxExecRatio st = max_ratio rs"

lemma results_append [simp]: "results (rs @ rs') = results rs @ results rs'"
  by (simp add: results_def)

lemma results_Nil [simp]: "results [] = []"
  by (simp add: results_def)

lemma log_err_acc [simp]: "h_acc rs (log_err s st) \<longleftrightarrow> h_acc rs st"
  by (simp add: h_acc_def log_err_def)

lemma h_acc_simps [simp]:
  "h_acc rs (st\<lparr>hs_exec := e\<rparr>) \<longleftrightarrow> h_acc rs st" "h_acc rs (st\<lparr>hs_blockNum := n\<rparr>) \<longleftrightarrow> h_acc rs st"
  by (simp_all add: h_acc_def)

lemma h_block_acc:
  assumes "h_block cfg ex rep tot name can b height st = Ok st'" "h_acc rs st"
    and "ex_RunBlock ex b (effective_height b height) (hs_exec st) = (res, e)"
  shows "h_acc (rs @ results [(s, b, h, e1, res)]) st' \<and> hs_exec st' = e"
  using assms
  by (cases res)
    (auto simp: h_block_def effective_height_def Let_def results_def h_acc_def count_outcome_def block_outcome_def
      coverage_of_def patterns_of_def max_ratio_def log_err_def split: if_splits)

lemma h_iter_acc:
  assumes "h_iter cfg ex rep tot name can it height st = Ok st'" "h_acc rs st"
    and "block_runs ex s height (iter_blocks it) (hs_exec st) = (runs, e)"
  shows "h_acc (rs @ results runs) st' \<and> hs_exec st' = e"
  using assms
proof (induction it arbitrary: height st rs runs e)
  case (IterBlock b it)
  then obtain st1 where 1: "h_block cfg ex rep tot name can b height st = Ok st1"
      "h_iter cfg ex rep tot name can it (height + 1) st1 = Ok st'"
    by (auto simp: go_bind_eq_Ok)
  obtain res e1 where r: "ex_RunBlock ex b (effective_height b height) (hs_exec st) = (res, e1)" by fastforce
  obtain runs1 where rs: "block_runs ex s (height + 1) (iter_blocks it) e1 = (runs1, e)"
      "runs = [(s, b, effective_height b height, hs_exec st, res)] @ runs1"
    using IterBlock.prems(3) r by (auto split: prod.splits)
  note b = h_block_acc [OF 1(1) IterBlock.prems(2) r, of s "effective_height b height" "hs_exec st"]
  have "block_runs ex s (height + 1) (iter_blocks it) (hs_exec st1) = (runs1, e)" using rs(1) b by simp
  from IterBlock.IH [OF 1(2) b [THEN conjunct1] this] show ?case by (simp only: rs(2) results_append append_assoc)
qed auto

lemma h_store_acc:
  assumes "h_store cfg ex rep tot s st = Ok st'" "h_acc rs st" "store_run ex s (hs_exec st) = (runs, e')"
  shows "h_acc (rs @ results runs) st' \<and> hs_exec st' = e'"
proof -
  obtain res e where i: "h_init ex s (hs_exec st) = (res, e)" by (cases "h_init ex s (hs_exec st)")
  show ?thesis
  proof (cases "res = Ok None")
    case True
    then obtain st1 where st1: "h_iter cfg ex rep tot (cs_Name s) (cs_IsCanary s) (cs_Iter s (\<lambda>_. None)) 0
          (st\<lparr>hs_exec := e\<rparr>) = Ok st1" "st' = st1\<lparr>hs_exec := ex_Close ex (hs_exec st1)\<rparr>"
      using assms(1) i by (auto simp: h_store_def go_bind_eq_Ok)
    obtain e2 where run: "block_runs ex s 0 (iter_blocks (cs_Iter s (\<lambda>_. None))) (hs_exec (st\<lparr>hs_exec := e\<rparr>)) = (runs, e2)"
        "e' = ex_Close ex e2"
      using assms(3) i True by (auto simp: store_run_def split: prod.splits)
    show ?thesis using h_iter_acc [OF st1(1) _ run(1), of rs] assms(2) st1(2) run(2) by simp
  next
    case False
    then show ?thesis
      using assms i by (cases res) (auto simp: h_store_def store_run_def log_err_def h_acc_def split: option.splits)
  qed
qed

lemma h_stores_acc:
  assumes "go_fold (h_store cfg ex rep tot) stores st = Ok st'" "h_acc rs st"
  shows "h_acc (rs @ results (harness_runs ex stores (hs_exec st))) st'"
  using assms
proof (induction stores arbitrary: st rs)
  case (Cons s stores)
  then obtain st1 where 1: "h_store cfg ex rep tot s st = Ok st1" "go_fold (h_store cfg ex rep tot) stores st1 = Ok st'"
    by (auto simp: go_bind_eq_Ok)
  obtain runs e1 where r: "store_run ex s (hs_exec st) = (runs, e1)" by fastforce
  note a = h_store_acc [OF 1(1) Cons.prems(2) r]
  show ?case using Cons.IH [OF 1(2) a [THEN conjunct1]] a r by simp
qed simp

lemma h_start_acc: "h_acc [] (h_start cfg ex rep stores e r)"
  by (simp add: h_acc_def h_start_def coverage_of_def patterns_of_def max_ratio_def)

text \<open>What an outcome that ran carries over from its block's store.\<close>

lemma outcomes_of_total: "outcomes_of cfg tot runs outs \<Longrightarrow> list_all (\<lambda>o1. bo_Total o1 = tot) outs"
  unfolding outcomes_of_def
proof (induction rule: list_all2_induct)
  case (Cons c cs o1 outs)
  obtain s b h e r where "c = (s, b, h, e, r)" by (cases c)
  then obtain x where "o1 = block_outcome cfg tot (cs_Name s) (cs_IsCanary s) (bo_Index o1) x"
    using Cons.hyps(1) by (auto simp: outcome_of_def)
  then have "bo_Total o1 = tot" by (metis BlockOutcome.select_convs(2) block_outcome_def)
  then show ?case using Cons.IH by simp
qed simp

lemma total_blocks_sum: "total_blocks stores = sum_list (map cs_BlockCount stores)"
proof -
  have "foldl (\<lambda>t s. t + cs_BlockCount s) c stores = c + sum_list (map cs_BlockCount stores)" for c
    by (induction stores arbitrary: c) simp_all
  then show ?thesis by (simp add: total_blocks_def)
qed

lemma h_start_inv: "h_inv rep (hs_rep (h_start cfg ex rep stores e r)) [] (h_start cfg ex rep stores e r)"
  by (simp add: h_inv_def h_start_def)

section \<open>Properties\<close>

definition count_where :: "(BlockOutcome \<Rightarrow> bool) \<Rightarrow> BlockOutcome list \<Rightarrow> nat" where
  "count_where P outs = length (filter P outs)"

lemma harness_outcomes:
  assumes "RunHarness cfg ex stores rep reg e r = Ok (code, st)" "list_all store_ok stores"
  shows "\<exists>outs sm.
    hs_rep st = rp_Footer rep sm (cf_FailOnDivergence cfg) (fold (rp_Block rep) outs
      (rp_Header rep (cf_CorpusDir cfg) (total_blocks stores) (cf_Probes cfg) r)) \<and>
    sorted_wrt (<) (map bo_Index outs) \<and>
    list_all (\<lambda>b. bo_Index b \<le> total_blocks stores \<and> bo_Total b = total_blocks stores) outs \<and>
    outcomes_of cfg (total_blocks stores) (harness_runs ex stores (harness_start cfg ex e)) outs \<and>
    (hs_errOut st \<noteq> [] \<or> list_all run_ok (harness_runs ex stores (harness_start cfg ex e)) \<and>
       map run_block (harness_runs ex stores (harness_start cfg ex e)) = concat (map store_blocks stores)) \<and>
    sm_TotalBlocks sm = total_blocks stores \<and>
    sm_OKCount sm = count_where (\<lambda>b. \<not> bo_IsCanary b \<and> bo_Verdict b = Match) outs \<and>
    sm_DivergenceCount sm = count_where (\<lambda>b. \<not> bo_IsCanary b \<and> bo_Verdict b = Divergence) outs \<and>
    sm_CanaryExpected sm = count_where (\<lambda>b. bo_IsCanary b \<and> bo_Verdict b = Divergence) outs \<and>
    sm_CanaryMissed sm = count_where (\<lambda>b. bo_IsCanary b \<and> bo_Verdict b = Match) outs \<and>
    sm_HotKeyBlocks sm = count_where (\<lambda>b. bo_HotKeys b \<noteq> []) outs \<and>
    (let rs = results (harness_runs ex stores (harness_start cfg ex e)) in
       sm_Coverage sm = tracker_Report reg (coverage_of rs) \<and> sm_StatePatterns sm = pattern_Report (patterns_of rs) \<and>
       sm_MaxExecRatio sm = max_ratio rs) \<and>
    code = (if list_ex (\<lambda>b. bo_IsCanary b \<and> bo_Verdict b = Match) outs \<or>
               cf_FailOnDivergence cfg \<and> list_ex (\<lambda>b. \<not> bo_IsCanary b \<and> bo_Verdict b = Divergence) outs
            then 1 else 0)"
proof -
  let ?st0 = "h_start cfg ex rep stores e r"
  obtain st1 where st1: "go_fold (h_store cfg ex rep (total_blocks stores)) stores ?st0 = Ok st1"
    using assms(1) by (auto simp: RunHarness_def go_bind_eq_Ok)
  obtain outs where outs: "h_inv rep (hs_rep ?st0) outs st1" "hs_blockNum st1 \<le> total_blocks stores"
      "outcomes_of cfg (total_blocks stores) (harness_runs ex stores (harness_start cfg ex e)) outs"
      "hs_errOut st1 = [] \<longrightarrow> list_all run_ok (harness_runs ex stores (harness_start cfg ex e)) \<and>
         map run_block (harness_runs ex stores (harness_start cfg ex e)) = concat (map store_blocks stores)"
    using h_stores_inv [OF st1 h_start_inv assms(2)] by (auto simp: total_blocks_sum h_start_def harness_start_def)
  define st2 where "st2 = (if 0 < hs_missed st1 \<and> hs_expected st1 = 0 then log_err canary_warning st1 else st1)"
  define sm where "sm = h_summary reg rep stores st2"
  have inv2: "h_inv rep (hs_rep ?st0) outs st2" using outs(1) by (simp add: st2_def)
  have num: "hs_blockNum st2 \<le> total_blocks stores" using outs(2) by (simp add: st2_def)
  have run: "code = ExitCode sm (cf_FailOnDivergence cfg)"
      "hs_rep st = rp_Footer rep sm (cf_FailOnDivergence cfg) (hs_rep st2)"
    using assms(1) st1 by (auto simp: RunHarness_def Let_def sm_def st2_def)
  have sm: "sm_OKCount sm = hs_ok st2" "sm_DivergenceCount sm = hs_div st2" "sm_CanaryExpected sm = hs_expected st2"
      "sm_CanaryMissed sm = hs_missed st2" "sm_TotalBlocks sm = total_blocks stores"
      "sm_HotKeyBlocks sm = hs_hotKeyBlocks st2" "sm_Coverage sm = tracker_Report reg (hs_tracker st2)"
      "sm_StatePatterns sm = pattern_Report (hs_patterns st2)" "sm_MaxExecRatio sm = hs_maxExecRatio st2"
    by (simp_all add: sm_def h_summary_def)
  have acc: "h_acc (results (harness_runs ex stores (harness_start cfg ex e))) st2"
    using h_stores_acc [OF st1 h_start_acc] by (simp add: st2_def h_start_def harness_start_def)
  have err: "hs_errOut st \<noteq> [] \<or> list_all run_ok (harness_runs ex stores (harness_start cfg ex e)) \<and>
       map run_block (harness_runs ex stores (harness_start cfg ex e)) = concat (map store_blocks stores)"
    using assms(1) st1 outs(4) by (auto simp: RunHarness_def Let_def log_err_def split: if_splits)
  have total: "list_all (\<lambda>o1. bo_Total o1 = total_blocks stores) outs" by (rule outcomes_of_total [OF outs(3)])
  have pos: "filter P outs = [] \<longleftrightarrow> \<not> list_ex P outs" for P
    by (auto simp: list_ex_iff filter_empty_conv)
  have "list_all (\<lambda>b. bo_Index b \<le> total_blocks stores) outs"
    using inv2 num by (auto simp: h_inv_def sorted_wrt_append list_all_iff)
  then show ?thesis
    using inv2 total run sm outs(3) err acc
    by (intro exI [of _ outs] exI [of _ sm] conjI)
      (simp_all add: h_acc_def h_inv_def count_where_def ExitCode_def pos sorted_wrt_append list_all_iff h_start_def)
qed

text \<open>C4. The run is accounted for: when \<open>RunHarness\<close> returns, there is a list of outcomes that is
  exactly what the reporter was given between header and footer, in order and with strictly increasing
  positions of at most the announced total. They are the outcomes, in order, of the blocks whose run succeeded
  in the sequence of runs that \<open>harness_runs\<close> describes; unless a line was logged every block of every store ran
  in that sequence and succeeded. The counts of the summary count them, its coverage and its largest ratio come
  from the results of these runs, and the exit
  code is 1 exactly when a canary outcome was a match or, if asked, another outcome was a divergence.\<close>

theorem harness_accounts:
  assumes "RunHarness cfg ex stores rep reg e r = Ok (code, st)" "list_all store_ok stores"
  shows "\<exists>outs sm.
    hs_rep st = rp_Footer rep sm (cf_FailOnDivergence cfg) (fold (rp_Block rep) outs
      (rp_Header rep (cf_CorpusDir cfg) (total_blocks stores) (cf_Probes cfg) r)) \<and>
    sorted_wrt (<) (map bo_Index outs) \<and>
    list_all (\<lambda>b. bo_Index b \<le> total_blocks stores \<and> bo_Total b = total_blocks stores) outs \<and>
    outcomes_of cfg (total_blocks stores) (harness_runs ex stores (harness_start cfg ex e)) outs \<and>
    (hs_errOut st \<noteq> [] \<or> list_all run_ok (harness_runs ex stores (harness_start cfg ex e)) \<and>
       map run_block (harness_runs ex stores (harness_start cfg ex e)) = concat (map store_blocks stores)) \<and>
    sm_TotalBlocks sm = total_blocks stores \<and>
    sm_OKCount sm = count_where (\<lambda>b. \<not> bo_IsCanary b \<and> bo_Verdict b = Match) outs \<and>
    sm_DivergenceCount sm = count_where (\<lambda>b. \<not> bo_IsCanary b \<and> bo_Verdict b = Divergence) outs \<and>
    sm_CanaryExpected sm = count_where (\<lambda>b. bo_IsCanary b \<and> bo_Verdict b = Divergence) outs \<and>
    sm_CanaryMissed sm = count_where (\<lambda>b. bo_IsCanary b \<and> bo_Verdict b = Match) outs \<and>
    sm_HotKeyBlocks sm = count_where (\<lambda>b. bo_HotKeys b \<noteq> []) outs \<and>
    (let rs = results (harness_runs ex stores (harness_start cfg ex e)) in
       sm_Coverage sm = tracker_Report reg (coverage_of rs) \<and> sm_StatePatterns sm = pattern_Report (patterns_of rs) \<and>
       sm_MaxExecRatio sm = max_ratio rs) \<and>
    code = (if list_ex (\<lambda>b. bo_IsCanary b \<and> bo_Verdict b = Match) outs \<or>
               cf_FailOnDivergence cfg \<and> list_ex (\<lambda>b. \<not> bo_IsCanary b \<and> bo_Verdict b = Divergence) outs
            then 1 else 0)"
  by (rule harness_outcomes [OF assms])

definition demo_executor :: "nat Executor" where
  "demo_executor = \<lparr>ex_Init = (\<lambda>g n. (Ok (), n)),
     ex_RunBlock = (\<lambda>b h n. (Ok (block_result h example_response
        (if n = 0 then [] else [NewFinding h DimGas 0 0 ''1'' ''2''])), Suc n)),
     ex_Close = (\<lambda>n. n), ex_SetConflictDetection = None, ex_InitFromState = None\<rparr>"

definition demo_config :: Config where
  "demo_config = \<lparr>cf_CorpusDir = ''fixtures'', cf_Probes = 1, cf_FailOnDivergence = True, cf_HotKeyMinTxs = 0\<rparr>"

definition demo_store :: CorpusStore where
  "demo_store = NewFixtureCorpus \<lparr>fx_Name = ''f'', fx_Description = '''', fx_Kind = '''',
     fx_Genesis = \<lparr>gs_Accounts = []\<rparr>, fx_Blocks = [zero_block, zero_block]\<rparr>"

theorem harness_accounts_witness:
  "\<exists>code st outs. RunHarness demo_config demo_executor [demo_store] (json_Reporter (\<lambda>_. '''')) [] 0 NewJSON =
       Ok (code, st) \<and> json_blocks (hs_rep st) = map json_block outs \<and> sorted_wrt (<) (map bo_Index outs)"
proof -
  let ?rep = "json_Reporter (\<lambda>_. '''')"
  have ok: "list_all store_ok [demo_store]"
    using fixture_corpus.corpus_store_ok by (simp add: demo_store_def)
  have "\<exists>code st. RunHarness demo_config demo_executor [demo_store] ?rep [] 0 NewJSON = Ok (code, st)"
    by (simp add: RunHarness_def h_store_def h_init_def demo_store_def NewFixtureCorpus_def demo_executor_def
        h_start_def h_block_def Let_def)
  then obtain code st where run: "RunHarness demo_config demo_executor [demo_store] ?rep [] 0 NewJSON = Ok (code, st)"
    by blast
  have foot: "json_blocks (rp_Footer ?rep sm b r) = json_blocks r" for sm b r
    by (simp add: json_Reporter_def)
  have blocks: "json_blocks (fold (rp_Block ?rep) outs (rp_Header ?rep c n p NewJSON)) = map json_block outs"
    for outs c n p
    using json_rep.blocks_held [of "\<lambda>_. ''''" outs c n p NewJSON] by (simp add: NewJSON_def)
  show ?thesis
    using harness_accounts [OF run ok] run foot blocks by metis
qed

fun iter_no_panic :: "blocks_iter \<Rightarrow> bool" where
  "iter_no_panic (IterPanic p) = False"
| "iter_no_panic (IterBlock b it) = iter_no_panic it"
| "iter_no_panic _ = True"

definition executor_no_panic :: "'e Executor \<Rightarrow> bool" where
  "executor_no_panic ex \<longleftrightarrow>
     (\<forall>g e. no_panic (fst (ex_Init ex g e))) \<and> (\<forall>b h e. no_panic (fst (ex_RunBlock ex b h e))) \<and>
     (\<forall>f d m e. ex_InitFromState ex = Some f \<longrightarrow> no_panic (fst (f d m e)))"

lemma no_panic_cases: "no_panic r \<longleftrightarrow> (\<exists>x. r = Ok x) \<or> (\<exists>e. r = Err e)"
  by (cases r) auto

lemma h_block_returns: "executor_no_panic ex \<Longrightarrow> \<exists>st'. h_block cfg ex rep tot name can b height st = Ok st'"
  unfolding executor_no_panic_def no_panic_cases h_block_def Let_def
  by (auto split: prod.split go.split) (metis fst_conv go.distinct(3,5))+

lemma h_iter_returns:
  "executor_no_panic ex \<Longrightarrow> iter_no_panic it \<Longrightarrow> \<exists>st'. h_iter cfg ex rep tot name can it height st = Ok st'"
proof (induction it arbitrary: height st)
  case (IterBlock b it)
  obtain st1 where "h_block cfg ex rep tot name can b height st = Ok st1"
    using h_block_returns [OF IterBlock.prems(1)] by blast
  then show ?case using IterBlock by simp
qed auto

lemma h_init_returns: "executor_no_panic ex \<Longrightarrow> \<exists>m. fst (h_init ex s e) = Ok m"
  unfolding executor_no_panic_def no_panic_cases h_init_def
  by (auto split: prod.split go.split option.split) (metis fst_conv go.distinct(3,5))+

lemma h_store_returns:
  assumes "executor_no_panic ex" "iter_no_panic (cs_Iter s (\<lambda>_. None))"
  shows "\<exists>st'. h_store cfg ex rep tot s st = Ok st'"
proof -
  obtain m e where i: "h_init ex s (hs_exec st) = (Ok m, e)"
    using h_init_returns [OF assms(1)] by (metis prod.collapse)
  obtain st1 where "h_iter cfg ex rep tot (cs_Name s) (cs_IsCanary s) (cs_Iter s (\<lambda>_. None)) 0 (st\<lparr>hs_exec := e\<rparr>) = Ok st1"
    using h_iter_returns [OF assms] by blast
  with i show ?thesis by (cases m) (auto simp: h_store_def)
qed

lemma RunHarness_returns:
  assumes "executor_no_panic ex" "list_all (\<lambda>s. iter_no_panic (cs_Iter s (\<lambda>_. None))) stores"
  shows "\<exists>code st. RunHarness cfg ex stores rep reg e r = Ok (code, st) \<and> (code = 0 \<or> code = 1)"
proof -
  have "\<exists>st'. go_fold (h_store cfg ex rep tot) stores st = Ok st'" for tot st
    using assms(2)
  proof (induction stores arbitrary: st)
    case (Cons s stores)
    obtain st1 where "h_store cfg ex rep tot s st = Ok st1"
      using h_store_returns [OF assms(1)] Cons.prems by fastforce
    with Cons show ?case by simp
  qed simp
  then obtain st' where "go_fold (h_store cfg ex rep (total_blocks stores)) stores (h_start cfg ex rep stores e r) = Ok st'"
    by blast
  then show ?thesis by (simp add: RunHarness_def Let_def ExitCode_def)
qed



text \<open>A run in which nothing could run succeeds: if every initialisation fails, no block is run or
  reported, each store leaves one line on the error output, and the exit code is 0 even with
  \<open>FailOnDivergence\<close>.\<close>

theorem harness_setup_failures_exit_zero:
  assumes "\<forall>g e. \<exists>err e'. ex_Init ex g e = (Err err, e')" "ex_InitFromState ex = None"
  shows "\<exists>st sm. RunHarness cfg ex stores rep reg e r = Ok (0, st) \<and> length (hs_errOut st) = length stores \<and>
    hs_rep st = rp_Footer rep sm (cf_FailOnDivergence cfg)
      (rp_Header rep (cf_CorpusDir cfg) (total_blocks stores) (cf_Probes cfg) r) \<and>
    sm_OKCount sm = 0 \<and> sm_DivergenceCount sm = 0"
proof -
  have store: "\<exists>st'. h_store cfg ex rep tot s st = Ok st' \<and> hs_rep st' = hs_rep st \<and> hs_missed st' = hs_missed st \<and>
      hs_div st' = hs_div st \<and> hs_ok st' = hs_ok st \<and> length (hs_errOut st') = Suc (length (hs_errOut st))" for tot s st
  proof -
    obtain msg e' where "h_init ex s (hs_exec st) = (Ok (Some msg), e')"
    proof (cases "cs_SnapshotDir s = ''''")
      case True
      obtain err e' where "ex_Init ex (cs_Genesis s) (hs_exec st) = (Err err, e')" using assms(1) by blast
      then show ?thesis using True that by (simp add: h_init_def)
    next
      case False
      then show ?thesis using assms(2) that by (simp add: h_init_def)
    qed
    then show ?thesis by (simp add: h_store_def log_err_def)
  qed
  have "\<exists>st'. go_fold (h_store cfg ex rep tot) stores st = Ok st' \<and> hs_rep st' = hs_rep st \<and>
      hs_missed st' = hs_missed st \<and> hs_div st' = hs_div st \<and> hs_ok st' = hs_ok st \<and>
      length (hs_errOut st') = length stores + length (hs_errOut st)" for tot st
  proof (induction stores arbitrary: st)
    case (Cons s stores)
    obtain st1 where st1: "h_store cfg ex rep tot s st = Ok st1" "hs_rep st1 = hs_rep st" "hs_missed st1 = hs_missed st"
        "hs_div st1 = hs_div st" "hs_ok st1 = hs_ok st" "length (hs_errOut st1) = Suc (length (hs_errOut st))"
      using store by blast
    from Cons [of st1] st1 show ?case by auto
  qed simp
  from this [of "total_blocks stores" "h_start cfg ex rep stores e r"]
  obtain st' where st': "go_fold (h_store cfg ex rep (total_blocks stores)) stores (h_start cfg ex rep stores e r) = Ok st'"
      "hs_rep st' = rp_Header rep (cf_CorpusDir cfg) (total_blocks stores) (cf_Probes cfg) r"
      "hs_missed st' = 0" "hs_div st' = 0" "hs_ok st' = 0" "length (hs_errOut st') = length stores"
    by (auto simp: h_start_def)
  then show ?thesis
    by (intro exI [of _ "st'\<lparr>hs_rep := rp_Footer rep (h_summary reg rep stores st') (cf_FailOnDivergence cfg) (hs_rep st')\<rparr>"]
        exI [of _ "h_summary reg rep stores st'"])
      (simp add: RunHarness_def Let_def ExitCode_def h_summary_def)
qed

theorem harness_setup_failures_exit_zero_witness:
  "\<exists>st. RunHarness demo_config (demo_executor\<lparr>ex_Init := (\<lambda>g n. (Err (ErrMsg ''setup''), n))\<rparr>) [demo_store]
     (json_Reporter (\<lambda>_. '''')) [] 0 NewJSON = Ok (0, st) \<and> length (hs_errOut st) = 1"
proof -
  let ?ex = "demo_executor\<lparr>ex_Init := (\<lambda>g n. (Err (ErrMsg ''setup''), n))\<rparr>"
  have "\<forall>g e. \<exists>err e'. ex_Init ?ex g e = (Err err, e')" "ex_InitFromState ?ex = None"
    by (simp_all add: demo_executor_def)
  from harness_setup_failures_exit_zero [OF this, of demo_config "[demo_store]" "json_Reporter (\<lambda>_. '''')" "[]" 0 NewJSON]
  show ?thesis by auto
qed

end
