(* ===== verification/Tracker_Reflect.thy ===== *)
theory Tracker_Reflect
  imports Observer Sha256
begin

text \<open>
  \<open>tracker/tracker.go\<close>, \<open>tracker/filter.go\<close>: the snapshot of a keeper's fields outside the KV store,
  taken by reflection. A Go value is the datatype \<open>gval\<close>, a pointer holds an address of a heap, so that
  aliasing and cycles are those of the program; what a reflected field says of its type is \<open>FieldInfo\<close>.
  The depth limit is the recursion parameter: a call at depth \<open>d\<close> has \<open>9 - d\<close> levels left. Printing a
  map key with \<open>%v\<close> is the argument \<open>fmtv\<close>. Every struct becomes addressable in the code, so every
  field is accessible.
\<close>

section \<open>What is skipped\<close>

definition has_prefix :: "string \<Rightarrow> string \<Rightarrow> bool" where
  "has_prefix p s \<longleftrightarrow> take (length p) s = p"

definition denyTrackerPrefixes :: "string list" where
  "denyTrackerPrefixes = [''cosmossdk.io/x/upgrade'']"

definition ShouldSkipTracker :: "string \<Rightarrow> bool" where
  "ShouldSkipTracker name \<longleftrightarrow> list_ex (\<lambda>p. has_prefix p name) denyTrackerPrefixes"

definition denyPkgPrefixes :: "string list" where
  "denyPkgPrefixes =
    [''cosmossdk.io/core/store'', ''cosmossdk.io/collections'', ''cosmossdk.io/schema'', ''cosmossdk.io/log'',
     ''cosmossdk.io/depinject'', ''github.com/cosmos/cosmos-sdk/codec'', ''github.com/cosmos/cosmos-sdk/baseapp'',
     ''github.com/cosmos/cosmos-sdk/runtime'', ''github.com/cosmos/cosmos-sdk/types/module'',
     ''github.com/cosmos/cosmos-sdk/client'', ''github.com/cosmos/cosmos-sdk/server'',
     ''github.com/cometbft/cometbft'', ''github.com/tendermint'', ''github.com/gogo/protobuf'',
     ''google.golang.org/grpc'', ''google.golang.org/protobuf'']"

text \<open>Kind and package of a field's type, its pointers stripped.\<close>

datatype gkind = KFunc | KChan | KUnsafePointer | KInterface | KOther

record FieldInfo =
  fi_Name :: string
  fi_Kind :: gkind
  fi_PkgPath :: string

definition shouldSkipField :: "FieldInfo \<Rightarrow> bool" where
  "shouldSkipField f \<longleftrightarrow>
     (case fi_Kind f of
        KOther \<Rightarrow> list_ex (\<lambda>p. has_prefix p (fi_PkgPath f)) denyPkgPrefixes
      | _ \<Rightarrow> True)"

section \<open>Values and snapshots\<close>

text \<open>\<open>VStruct\<close> says whether the type is one of the lock types; nil maps and slices are \<open>None\<close>;
  \<open>VOther\<close> is any value of the kinds the switch has no case for (floats, arrays, complex numbers,
  interfaces, functions, channels), with its content.\<close>

datatype gval =
    VPtr "nat option"
  | VStruct bool "(FieldInfo \<times> gval) list"
  | VMap "(gval \<times> gval) list option"
  | VSlice "gval list option"
  | VInt int
  | VUint u64
  | VBool bool
  | VString string
  | VOther int

type_synonym heap = "nat \<Rightarrow> gval"

record snap_state =
  sn_buf :: bytes
  sn_visited :: "nat list"
  sn_warned :: bool

definition emit :: "bytes \<Rightarrow> snap_state \<Rightarrow> snap_state" where
  "emit bs st = st\<lparr>sn_buf := sn_buf st @ bs\<rparr>"

definition writeUint64 :: "u64 \<Rightarrow> snap_state \<Rightarrow> snap_state" where
  "writeUint64 v = emit (be_bytes 8 (uint v))"

definition snapshotStruct ::
  "(gval \<Rightarrow> snap_state \<Rightarrow> snap_state) \<Rightarrow> bool \<Rightarrow> (FieldInfo \<times> gval) list \<Rightarrow> snap_state \<Rightarrow> snap_state" where
  "snapshotStruct snap lock flds st =
     (if lock then st
      else fold (\<lambda>(f, v) st.
             if shouldSkipField f then st
             else snap v (emit (bytes_of_string (''['' @ fi_Name f @ '']'')) st)) flds st)"

text \<open>The keys are printed and sorted; of keys that print alike the last of the iteration is looked up
  for each of them.\<close>

definition snapshotMap ::
  "(gval \<Rightarrow> string) \<Rightarrow> (gval \<Rightarrow> snap_state \<Rightarrow> snap_state) \<Rightarrow> (gval \<times> gval) list \<Rightarrow> snap_state \<Rightarrow> snap_state" where
  "snapshotMap fmtv snap kvs st =
     (let strs = map (\<lambda>(k, _). fmtv k) kvs;
          valByStr = map_of (rev (map (\<lambda>(k, v). (fmtv k, v)) kvs))
      in fold (\<lambda>s st. emit (bytes_of_string ''}'')
                (snap (the (valByStr s)) (emit (bytes_of_string (''{'' @ s @ '':'')) st))) (sort strs) st)"

definition snapshotSlice ::
  "(gval \<Rightarrow> snap_state \<Rightarrow> snap_state) \<Rightarrow> gval list \<Rightarrow> snap_state \<Rightarrow> snap_state" where
  "snapshotSlice snap xs st = fold snap xs (writeUint64 (of_nat (length xs)) st)"

primrec snapshotVal :: "nat \<Rightarrow> (gval \<Rightarrow> string) \<Rightarrow> heap \<Rightarrow> gval \<Rightarrow> snap_state \<Rightarrow> snap_state" where
  "snapshotVal 0 fmtv heap v st = st\<lparr>sn_warned := True\<rparr>"
| "snapshotVal (Suc n) fmtv heap v st =
     (case v of
        VPtr None \<Rightarrow> st
      | VPtr (Some ptr) \<Rightarrow>
          if ptr \<in> set (sn_visited st) then st
          else snapshotVal n fmtv heap (heap ptr) (st\<lparr>sn_visited := ptr # sn_visited st\<rparr>)
      | VStruct lock flds \<Rightarrow> snapshotStruct (snapshotVal n fmtv heap) lock flds st
      | VMap None \<Rightarrow> st
      | VMap (Some kvs) \<Rightarrow> snapshotMap fmtv (snapshotVal n fmtv heap) kvs st
      | VSlice None \<Rightarrow> st
      | VSlice (Some xs) \<Rightarrow> snapshotSlice (snapshotVal n fmtv heap) xs st
      | VInt i \<Rightarrow> writeUint64 (word_of_int i) st
      | VUint w \<Rightarrow> writeUint64 w st
      | VBool b \<Rightarrow> emit [if b then 1 else 0] st
      | VString s \<Rightarrow> emit (bytes_of_string s) (writeUint64 (of_nat (length s)) st)
      | VOther _ \<Rightarrow> st)"

definition maxDepth :: nat where
  "maxDepth = 8"

definition SnapshotOutOfKVStoreState :: "(gval \<Rightarrow> string) \<Rightarrow> heap \<Rightarrow> gval \<Rightarrow> bytes" where
  "SnapshotOutOfKVStoreState fmtv heap obj =
     sn_buf (snapshotVal (Suc maxDepth) fmtv heap obj \<lparr>sn_buf = [], sn_visited = [], sn_warned = False\<rparr>)"

text \<open>\<open>New\<close>: the tracker of an object whose type (its pointers stripped) has the given package path and
  name; \<open>None\<close> is the nil interface. The world of the observer is the heap.\<close>

definition reflect_New ::
  "(gval \<Rightarrow> string) \<Rightarrow> (string \<times> string) option \<Rightarrow> gval \<Rightarrow> heap MutationTracker" where
  "reflect_New fmtv typ obj =
     \<lparr>tk_Name = (case typ of None \<Rightarrow> ''unknown'' | Some (pkg, name) \<Rightarrow> pkg @ ''.'' @ name),
      tk_Snapshot = (\<lambda>heap. SnapshotOutOfKVStoreState fmtv heap obj), tk_Setter = None\<rparr>"

section \<open>The order of a map does not show\<close>

text \<open>Two values that differ only in the order in which their maps iterate, at any depth, the keys of
  each map printing differently.\<close>

inductive reordered :: "(gval \<Rightarrow> string) \<Rightarrow> gval \<Rightarrow> gval \<Rightarrow> bool" for fmtv where
  same: "reordered fmtv v v"
| struct: "map fst fs = map fst gs \<Longrightarrow> list_all2 (reordered fmtv) (map snd fs) (map snd gs) \<Longrightarrow>
    reordered fmtv (VStruct lock fs) (VStruct lock gs)"
| slice: "list_all2 (reordered fmtv) xs ys \<Longrightarrow> reordered fmtv (VSlice (Some xs)) (VSlice (Some ys))"
| map: "map fst kvs = map fst ls \<Longrightarrow> list_all2 (reordered fmtv) (map snd kvs) (map snd ls) \<Longrightarrow> mset ls = mset lws \<Longrightarrow>
    distinct (map (\<lambda>(k, v). fmtv k) kvs) \<Longrightarrow> reordered fmtv (VMap (Some kvs)) (VMap (Some lws))"

lemma list_all2_pairs:
  "map fst xs = map fst ys \<Longrightarrow> list_all2 R (map snd xs) (map snd ys) \<Longrightarrow>
   list_all2 (\<lambda>(k, v) (l, w). k = l \<and> R v w) xs ys"
proof (induction xs arbitrary: ys)
  case (Cons x xs)
  then show ?case by (cases ys) auto
qed simp

lemma fold_list_all2:
  "list_all2 (\<lambda>x y. \<forall>st. f x st = g y st) xs ys \<Longrightarrow> fold f xs st = fold g ys st"
  by (induction xs ys arbitrary: st rule: list_all2_induct) auto

definition printed :: "(gval \<Rightarrow> string) \<Rightarrow> (gval \<times> gval) list \<Rightarrow> (string \<times> gval) list" where
  "printed fmtv kvs = map (\<lambda>(k, v). (fmtv k, v)) kvs"

lemma keys_printed: "map fst (printed fmtv kvs) = map (\<lambda>(k, v). fmtv k) kvs"
  by (auto simp: printed_def)

lemma list_all2_printed:
  assumes "list_all2 (\<lambda>(k, v) (l, w). k = l \<and> R v w) kvs ls"
  shows "map fst (printed fmtv ls) = map fst (printed fmtv kvs) \<and>
    (\<forall>s v. map_of (printed fmtv kvs) s = Some v \<longrightarrow> (\<exists>w. map_of (printed fmtv ls) s = Some w \<and> R v w))"
  using assms by (induction kvs ls rule: list_all2_induct) (auto simp: printed_def)

lemma snapshotMap_cong:
  assumes rel: "list_all2 (\<lambda>(k, v) (l, w). k = l \<and> R v w) kvs ls" and perm: "mset ls = mset lws"
    and dist: "distinct (map (\<lambda>(k, v). fmtv k) kvs)" and step: "\<And>v w st. R v w \<Longrightarrow> f v st = g w st"
  shows "snapshotMap fmtv f kvs st = snapshotMap fmtv g lws st"
proof -
  note p = list_all2_printed [OF rel, of fmtv]
  have dk: "distinct (map fst (printed fmtv kvs))" using dist by (simp add: keys_printed)
  have pm: "mset (printed fmtv ls) = mset (printed fmtv lws)" using perm by (simp add: printed_def)
  have dl: "distinct (map fst (printed fmtv ls))" using dk p by simp
  then have dw: "distinct (map fst (printed fmtv lws))" using pm by (metis mset_map mset_eq_imp_distinct_iff)
  have look: "map_of (printed fmtv lws) = map_of (printed fmtv ls)"
    using pm dl dw by (metis map_of_inject_set mset_eq_setD)
  have rv: "map_of (rev xs) = map_of xs" if "distinct (map fst xs)" for xs :: "(string \<times> gval) list"
    using that by (intro map_of_inject_set [THEN iffD2]) (simp_all add: rev_map [symmetric])
  have "mset (map (\<lambda>(k, _). fmtv k) kvs) = mset (map (\<lambda>(k, _). fmtv k) lws)"
    using arg_cong [OF pm, of "image_mset fst"] p unfolding mset_map [symmetric] keys_printed by simp
  then have strs: "sort (map (\<lambda>(k, _). fmtv k) kvs) = sort (map (\<lambda>(k, _). fmtv k) lws)"
    by (intro properties_for_sort) simp_all
  have body: "f (the (map_of (printed fmtv kvs) s)) st = g (the (map_of (printed fmtv lws) s)) st"
    if "s \<in> set (sort (map (\<lambda>(k, _). fmtv k) kvs))" for s st
  proof -
    have "s \<in> set (map fst (printed fmtv kvs))" using that by (simp only: set_sort keys_printed)
    then have "map_of (printed fmtv kvs) s \<noteq> None" unfolding map_of_eq_None_iff by simp
    then obtain v where v: "map_of (printed fmtv kvs) s = Some v" by blast
    then obtain w where "map_of (printed fmtv ls) s = Some w" "R v w" using p by blast
    with v step show ?thesis by (simp add: look)
  qed
  show ?thesis
    unfolding snapshotMap_def Let_def printed_def [symmetric] rv [OF dk] rv [OF dw] strs [symmetric]
    by (rule fold_cong) (simp_all add: body)
qed

lemma snapshotVal_reordered:
  assumes "reordered fmtv v w" "\<And>a. reordered fmtv (heap a) (heap' a)"
  shows "snapshotVal n fmtv heap v st = snapshotVal n fmtv heap' w st"
  using assms(1)
proof (induction n arbitrary: v w st)
  case (Suc n)
  have refl: "snapshotVal n fmtv heap x st = snapshotVal n fmtv heap' x st" for x st
    by (rule Suc.IH) (rule reordered.same)
  then have fn: "snapshotVal n fmtv heap = snapshotVal n fmtv heap'" by (simp add: fun_eq_iff)
  from Suc.prems show ?case
  proof (cases rule: reordered.cases)
    case same
    show ?thesis
    proof (cases v)
      case (VPtr p)
      then show ?thesis using same assms(2) Suc.IH by (cases p) auto
    qed (use same fn in \<open>auto split: option.split\<close>)
  next
    case (struct fs gs lock)
    let ?step = "\<lambda>heap (f, v) st. if shouldSkipField f then st
        else snapshotVal n fmtv heap v (emit (bytes_of_string (''['' @ fi_Name f @ '']'')) st)"
    have "list_all2 (\<lambda>x y. \<forall>st. ?step heap x st = ?step heap' y st) fs gs"
      using list_all2_pairs [OF struct(3,4)] by (rule list_all2_mono) (auto simp: Suc.IH)
    from fold_list_all2 [OF this] show ?thesis by (simp add: struct(1,2) snapshotStruct_def)
  next
    case (slice xs ys)
    have "list_all2 (\<lambda>x y. \<forall>st. snapshotVal n fmtv heap x st = snapshotVal n fmtv heap' y st) xs ys"
      using slice(3) by (rule list_all2_mono) (auto simp: Suc.IH)
    from fold_list_all2 [OF this] list_all2_lengthD [OF this] show ?thesis
      by (simp add: slice(1,2) snapshotSlice_def)
  next
    case (map kvs ls lws)
    have "snapshotMap fmtv (snapshotVal n fmtv heap) kvs st = snapshotMap fmtv (snapshotVal n fmtv heap') lws st"
      using list_all2_pairs [OF map(3,4)] map(5,6) Suc.IH by (rule snapshotMap_cong)
    then show ?thesis by (simp add: map(1,2))
  qed
qed simp

section \<open>Scalar fields are seen\<close>

fun scalar_kind :: "gval \<Rightarrow> nat option" where
  "scalar_kind (VInt i) = (if int64_range i then Some 0 else None)"
| "scalar_kind (VUint w) = Some 1"
| "scalar_kind (VBool b) = Some 2"
| "scalar_kind (VString s) = (if length s < 2 ^ 63 then Some 3 else None)"
| "scalar_kind _ = None"

definition scalar_bytes :: "gval \<Rightarrow> bytes" where
  "scalar_bytes v = (case v of
     VInt i \<Rightarrow> be_bytes 8 (uint (word_of_int i :: u64))
   | VUint w \<Rightarrow> be_bytes 8 (uint w)
   | VBool b \<Rightarrow> [if b then 1 else 0]
   | VString s \<Rightarrow> be_bytes 8 (uint (of_nat (length s) :: u64)) @ bytes_of_string s
   | _ \<Rightarrow> [])"

lemma snapshotVal_scalar:
  "scalar_kind v = Some k \<Longrightarrow> snapshotVal (Suc n) fmtv heap v st = emit (scalar_bytes v) st"
  by (cases v) (auto simp: writeUint64_def emit_def scalar_bytes_def)

lemma be_bytes_inj:
  assumes "be_bytes 8 (uint v) = be_bytes 8 (uint w)"
  shows "v = (w :: u64)"
proof (rule bit_word_eqI)
  fix i assume i: "i < LENGTH(64)"
  let ?k = "i div 8"
  have digit: "be_bytes 8 (uint x) ! (7 - ?k) = word_of_int (uint x div 256 ^ ?k)" for x :: u64
  proof -
    have "7 - ?k < 8" "7 - (7 - ?k) = ?k" using i by auto
    then show ?thesis by (simp add: be_bytes_def)
  qed
  have eq: "(word_of_int (uint v div 256 ^ ?k) :: byte) = word_of_int (uint w div 256 ^ ?k)"
    using arg_cong [OF assms, of "\<lambda>bs. bs ! (7 - ?k)"] by (simp only: digit)
  have b: "bit x i = bit (word_of_int (uint x div 256 ^ ?k) :: byte) (i mod 8)" for x :: u64
  proof -
    have "uint x div 256 ^ ?k = drop_bit (8 * ?k) (uint x)"
      by (simp add: drop_bit_eq_div power_mult)
    then have "bit (word_of_int (uint x div 256 ^ ?k) :: byte) (i mod 8) = bit (uint x) (8 * ?k + i mod 8)"
      by (simp add: bit_word_of_int_iff bit_drop_bit_eq)
    then show ?thesis using i by (simp add: bit_uint_iff)
  qed
  show "bit v i = bit w i" by (simp only: b eq)
qed

lemma bytes_of_string_inj [simp]: "bytes_of_string s = bytes_of_string t \<longleftrightarrow> s = t"
  by (metis string_of_bytes_of_string)

lemma scalar_bytes_inj:
  assumes "scalar_kind v = Some k" "scalar_kind w = Some k" "scalar_bytes v @ xs = scalar_bytes w @ ys"
  shows "v = w \<and> xs = ys"
proof -
  have len: "be_bytes 8 i @ xs = be_bytes 8 j @ ys \<longleftrightarrow> be_bytes 8 i = be_bytes 8 j \<and> xs = ys" for i j xs ys
    by simp
  show ?thesis
  proof (cases v)
    case (VInt i)
    then obtain j where j: "w = VInt j" "int64_range i" "int64_range j"
      using assms(1,2) by (cases w) (auto split: if_splits)
    then have "(word_of_int i :: u64) = word_of_int j" "xs = ys"
      using assms(3) be_bytes_inj by (auto simp: VInt scalar_bytes_def len)
    then have "wrap64 i = wrap64 j" by (simp add: wrap64_def)
    then show ?thesis using j VInt \<open>xs = ys\<close> by (simp add: wrap64_id)
  next
    case (VUint i)
    then show ?thesis using assms be_bytes_inj by (cases w) (auto simp: scalar_bytes_def len split: if_splits)
  next
    case (VBool b)
    then show ?thesis using assms by (cases w) (auto simp: scalar_bytes_def split: if_splits)
  next
    case (VString s)
    then obtain t where t: "w = VString t" "length s < 2 ^ 63" "length t < 2 ^ 63"
      using assms(1,2) by (cases w) (auto split: if_splits)
    have "(of_nat (length s) :: u64) = of_nat (length t)" and rest: "bytes_of_string s @ xs = bytes_of_string t @ ys"
      using assms(3) be_bytes_inj by (auto simp: VString t(1) scalar_bytes_def len)
    then have "unat (of_nat (length s) :: u64) = unat (of_nat (length t) :: u64)" by simp
    then have "length s = length t" using t(2,3) by (simp add: unat_of_nat)
    then show ?thesis using rest by (simp add: VString t(1))
  qed (use assms(1) in auto)
qed

declare snapshotVal.simps(2) [simp del]

text \<open>The bytes of a struct whose fields are scalars.\<close>

definition field_tag :: "FieldInfo \<Rightarrow> bytes" where
  "field_tag f = bytes_of_string (''['' @ fi_Name f @ '']'')"

definition seen_fields :: "(FieldInfo \<times> gval) list \<Rightarrow> (FieldInfo \<times> gval) list" where
  "seen_fields fs = filter (\<lambda>(f, v). \<not> shouldSkipField f) fs"

definition flat_bytes :: "(FieldInfo \<times> gval) list \<Rightarrow> bytes" where
  "flat_bytes fs = concat (map (\<lambda>(f, v). field_tag f @ scalar_bytes v) (seen_fields fs))"

lemma emit_emit: "emit xs (emit ys st) = emit (ys @ xs) st"
  by (simp add: emit_def)

lemma snapshotStruct_flat:
  assumes "list_all (\<lambda>(f, v). scalar_kind v \<noteq> None) fs"
  shows "snapshotStruct (snapshotVal (Suc n) fmtv heap) False fs st = emit (flat_bytes fs) st"
  using assms
proof (induction fs arbitrary: st)
  case Nil
  then show ?case by (simp add: snapshotStruct_def flat_bytes_def seen_fields_def emit_def)
next
  case (Cons x fs)
  obtain f v where x: "x = (f, v)" by (cases x)
  have IH: "snapshotStruct (snapshotVal (Suc n) fmtv heap) False fs st = emit (flat_bytes fs) st" for st
    using Cons by simp
  obtain k where "scalar_kind v = Some k" using Cons.prems by (auto simp: x)
  note v = snapshotVal_scalar [OF this]
  let ?go = "snapshotStruct (snapshotVal (Suc n) fmtv heap) False"
  have "?go (x # fs) st = ?go fs (if shouldSkipField f then st
      else snapshotVal (Suc n) fmtv heap v (emit (bytes_of_string (''['' @ fi_Name f @ '']'')) st))"
    by (simp add: snapshotStruct_def x)
  also have "\<dots> = emit (flat_bytes (x # fs)) st"
    by (simp add: IH v x emit_emit flat_bytes_def seen_fields_def field_tag_def)
  finally show ?case .
qed

lemma flat_bytes_inj:
  assumes "map fst fs = map fst gs" "map (\<lambda>x. scalar_kind (snd x)) fs = map (\<lambda>x. scalar_kind (snd x)) gs"
    and "list_all (\<lambda>(f, v). scalar_kind v \<noteq> None) fs" "flat_bytes fs = flat_bytes gs"
  shows "seen_fields fs = seen_fields gs"
  using assms
proof (induction fs arbitrary: gs)
  case Nil
  then show ?case by simp
next
  case (Cons x fs)
  obtain f v where x: "x = (f, v)" by (cases x)
  obtain w gs' where gs: "gs = (f, w) # gs'" "map fst fs = map fst gs'"
    using Cons.prems(1) by (cases gs) (auto simp: x)
  obtain k where k: "scalar_kind v = Some k" "scalar_kind w = Some k"
    using Cons.prems(2,3) by (auto simp: x gs)
  have rest: "map (\<lambda>x. scalar_kind (snd x)) fs = map (\<lambda>x. scalar_kind (snd x)) gs'"
      "list_all (\<lambda>(f, v). scalar_kind v \<noteq> None) fs"
    using Cons.prems(2,3) by (auto simp: x gs)
  show ?case
  proof (cases "shouldSkipField f")
    case True
    then show ?thesis using Cons.IH [OF gs(2) rest] Cons.prems(4) by (simp add: x gs flat_bytes_def seen_fields_def)
  next
    case False
    then have "scalar_bytes v @ flat_bytes fs = scalar_bytes w @ flat_bytes gs'"
      using Cons.prems(4) by (simp add: x gs flat_bytes_def seen_fields_def)
    from scalar_bytes_inj [OF k this] Cons.IH [OF gs(2) rest] False
    show ?thesis by (simp add: x gs seen_fields_def)
  qed
qed

lemma depth_levels: "Suc maxDepth = Suc (Suc (Suc 6))"
  by (simp add: maxDepth_def)

lemma pointer_snapshot:
  "ptr \<notin> set (sn_visited st) \<Longrightarrow> heap ptr = VStruct lock fs \<Longrightarrow>
   snapshotVal (Suc (Suc n)) fmtv heap (VPtr (Some ptr)) st =
     snapshotStruct (snapshotVal n fmtv heap) lock fs (st\<lparr>sn_visited := ptr # sn_visited st\<rparr>)"
  by (simp add: snapshotVal.simps(2))

lemma keeper_snapshot:
  assumes "list_all (\<lambda>(f, v). scalar_kind v \<noteq> None) fs"
  shows "SnapshotOutOfKVStoreState fmtv (heap(a := VStruct False fs)) (VPtr (Some a)) = flat_bytes fs"
  unfolding SnapshotOutOfKVStoreState_def depth_levels
  by (subst pointer_snapshot [where lock = False and fs = fs])
    (simp_all only: snapshotStruct_flat [OF assms] fun_upd_same snap_state.simps list.set empty_iff not_False_eq_True
      emit_def append_Nil)

lemma other_snapshot:
  "snapshotStruct (snapshotVal (Suc n) fmtv heap) False [(f, VOther x)] st =
   (if shouldSkipField f then st else emit (field_tag f) st)"
  by (simp add: snapshotStruct_def snapshotVal.simps(2) field_tag_def)

definition fmt_demo :: "gval \<Rightarrow> string" where
  "fmt_demo v = (case v of VString s \<Rightarrow> s | VInt i \<Rightarrow> itoa i | _ \<Rightarrow> ''?'')"

lemma bool_snapshot: "snapshotVal (Suc n) fmtv heap (VBool b) st = emit [if b then 1 else 0] st"
  by (simp add: snapshotVal.simps(2))

lemma map_collision:
  "snapshotMap fmt_demo (snapshotVal (Suc n) fmtv heap) [(VString ''a'', VBool True), (VString ''b'', VBool True)] st =
   snapshotMap fmt_demo (snapshotVal (Suc n) fmtv heap) [(VString (''a:'' @ [CHR 0x01] @ ''}{b''), VBool True)] st"
  by (simp add: snapshotMap_def Let_def fmt_demo_def emit_emit bytes_of_string_def bool_snapshot)

section \<open>Properties\<close>



text \<open>C19. Scalar fields are seen exactly: for a keeper behind a pointer whose fields are integers,
  booleans and strings, two states have the same snapshot exactly when they agree on every field that is
  not skipped. Any change of such a field is therefore a mutation the observer reports, and no change of a
  skipped field is.\<close>

theorem snapshot_sees_scalar_fields:
  assumes "map fst fs = map fst gs" "map (\<lambda>x. scalar_kind (snd x)) fs = map (\<lambda>x. scalar_kind (snd x)) gs"
    and "list_all (\<lambda>(f, v). scalar_kind v \<noteq> None) fs"
  shows "SnapshotOutOfKVStoreState fmtv (heap(a := VStruct False fs)) (VPtr (Some a)) =
      SnapshotOutOfKVStoreState fmtv (heap(a := VStruct False gs)) (VPtr (Some a)) \<longleftrightarrow>
    filter (\<lambda>(f, v). \<not> shouldSkipField f) fs = filter (\<lambda>(f, v). \<not> shouldSkipField f) gs"
proof -
  have "list_all (\<lambda>(f, v). scalar_kind v \<noteq> None) gs"
    using assms(2,3) unfolding list_all_length list_eq_iff_nth_eq by (auto simp: case_prod_beta)
  then show ?thesis
    using flat_bytes_inj [OF assms] assms(3)
    unfolding seen_fields_def [symmetric] by (auto simp: keeper_snapshot flat_bytes_def)
qed

definition demo_field :: "string \<Rightarrow> FieldInfo" where
  "demo_field name = \<lparr>fi_Name = name, fi_Kind = KOther, fi_PkgPath = ''''\<rparr>"

theorem snapshot_sees_scalar_fields_witness:
  "SnapshotOutOfKVStoreState fmt_demo ((\<lambda>_. VPtr None)(0 := VStruct False [(demo_field ''n'', VInt 1)])) (VPtr (Some 0)) \<noteq>
   SnapshotOutOfKVStoreState fmt_demo ((\<lambda>_. VPtr None)(0 := VStruct False [(demo_field ''n'', VInt 2)])) (VPtr (Some 0))"
proof -
  have "\<not> shouldSkipField (demo_field ''n'')"
    by (simp add: shouldSkipField_def demo_field_def denyPkgPrefixes_def has_prefix_def)
  then show ?thesis
    using snapshot_sees_scalar_fields [of "[(demo_field ''n'', VInt 1)]" "[(demo_field ''n'', VInt 2)]" fmt_demo "\<lambda>_. VPtr None" 0]
    by (simp add: int64_range_def)
qed

text \<open>What the snapshot cannot see: the content of a field of a kind without a case (an array, a
  float) is not part of it, and the bytes of a map are not delimited, so that two different maps of
  strings to booleans, one with two entries and one with a single longer key, have the same snapshot.
  Mutations of either sort are missed.\<close>

theorem snapshot_blind_spots:
  "SnapshotOutOfKVStoreState fmtv (heap(a := VStruct False [(f, VOther x)])) (VPtr (Some a)) =
     SnapshotOutOfKVStoreState fmtv (heap(a := VStruct False [(f, VOther y)])) (VPtr (Some a)) \<and>
   SnapshotOutOfKVStoreState fmt_demo heap
       (VMap (Some [(VString ''a'', VBool True), (VString ''b'', VBool True)])) =
     SnapshotOutOfKVStoreState fmt_demo heap
       (VMap (Some [(VString (''a:'' @ [CHR 0x01] @ ''}{b''), VBool True)]))"
proof
  show "SnapshotOutOfKVStoreState fmtv (heap(a := VStruct False [(f, VOther x)])) (VPtr (Some a)) =
      SnapshotOutOfKVStoreState fmtv (heap(a := VStruct False [(f, VOther y)])) (VPtr (Some a))"
    unfolding SnapshotOutOfKVStoreState_def depth_levels
    by (simp only: pointer_snapshot snap_state.simps list.set(1) empty_iff not_False_eq_True fun_upd_same other_snapshot)
  show "SnapshotOutOfKVStoreState fmt_demo heap
       (VMap (Some [(VString ''a'', VBool True), (VString ''b'', VBool True)])) =
     SnapshotOutOfKVStoreState fmt_demo heap
       (VMap (Some [(VString (''a:'' @ [CHR 0x01] @ ''}{b''), VBool True)]))"
    unfolding SnapshotOutOfKVStoreState_def depth_levels snapshotVal.simps(2) [of "Suc (Suc 6)"] gval.case option.case
    by (simp only: map_collision)
qed

end
