(* ===== verification/Recorder.thy ===== *)
theory Recorder
  imports Compare_Run Coverage Report
begin

text \<open>
  \<open>recorder/recorder.go\<close>: the records of a run and the sink that writes them, one JSON document per line,
  to a file of its own. The file system is the list of the paths that exist and, per operation, the error
  the operating system returns; the file is the type variable \<open>'f\<close> with its operations in \<open>FileOps\<close>. The
  JSON encoder is an argument. \<open>sort.Slice\<close> is not stable, and the keys it sorts here are distinct.
\<close>

section \<open>Records\<close>

definition SchemaVersion :: int where
  "SchemaVersion = 1"

record RunRecord =
  run_SchemaVersion :: int
  run_RunID :: string
  run_StartedAt :: string
  run_CorpusDir :: string
  run_SimVersion :: string

record DivergenceEntry =
  dv_FindingID :: string
  dv_TxIndex :: int
  dv_ProbeIndex :: int
  dv_Dimension :: string
  dv_Oracle :: string
  dv_Probe :: string

record BlockRecord =
  br_Height :: int
  br_FixtureName :: string
  br_Verdict :: string
  br_Divergences :: "DivergenceEntry list"
  br_MsgTypes :: "Entry list"

definition divergence_entry :: "Finding \<Rightarrow> DivergenceEntry" where
  "divergence_entry f = \<lparr>dv_FindingID = f_ID f, dv_TxIndex = f_TxIndex f, dv_ProbeIndex = f_ProbeIndex f,
     dv_Dimension = dim_string (f_Dimension f), dv_Oracle = f_Oracle f, dv_Probe = f_Probe f\<rparr>"

text \<open>The loop over the message keys: the keys seen and the entries collected.\<close>

fun collect_entries :: "registry \<Rightarrow> string list \<Rightarrow> string set \<Rightarrow> Entry list \<Rightarrow> Entry list" where
  "collect_entries reg [] seen entries = entries"
| "collect_entries reg (k # ks) seen entries =
     (if k \<in> seen then collect_entries reg ks seen entries
      else collect_entries reg ks (insert k seen)
        (entries @ [case map_of reg k of Some e \<Rightarrow> e
                    | None \<Rightarrow> \<lparr>en_Key = k, en_Module = '''', en_MsgType = '''', en_HandlerFn = ''''\<rparr>]))"

definition BlockRecordFromResult :: "registry \<Rightarrow> Result \<Rightarrow> string \<Rightarrow> BlockRecord" where
  "BlockRecordFromResult global r fixtureName =
     \<lparr>br_Height = r_Height r, br_FixtureName = fixtureName, br_Verdict = verdict_string (r_Verdict r),
      br_Divergences = map divergence_entry (r_Findings r),
      br_MsgTypes = (if r_MsgKeys r \<noteq> []
        then sort_key en_Key (collect_entries (Registered global) (r_MsgKeys r) {} []) else [])\<rparr>"

section \<open>The sink\<close>

record 'f FileOps =
  fo_Write :: "string \<Rightarrow> 'f \<Rightarrow> unit go \<times> 'f"
  fo_Sync :: "'f \<Rightarrow> unit go \<times> 'f"
  fo_Close :: "'f \<Rightarrow> unit go \<times> 'f"

record 'f FileSystem =
  fs_paths :: "string list"
  fs_MkdirAll :: "string \<Rightarrow> unit go"
  fs_Create :: "string \<Rightarrow> 'f go"

record 'f NDJSONSink =
  nd_File :: 'f
  nd_errLog :: "string list"

definition record_path :: "string \<Rightarrow> string \<Rightarrow> string" where
  "record_path dir runID = dir @ ''/'' @ runID @ ''.ndjson''"

text \<open>The file is opened with \<open>O_EXCL\<close>: a path that exists is an error. \<open>dir\<close> is a clean path.\<close>

definition New :: "string \<Rightarrow> string \<Rightarrow> 'f FileSystem \<Rightarrow> 'f NDJSONSink go \<times> 'f FileSystem" where
  "New dir runID fs =
     (case fs_MkdirAll fs dir of
        Err e \<Rightarrow> (Err (ErrWrap ''create record dir'' e), fs)
      | Panic p \<Rightarrow> (Panic p, fs)
      | Ok _ \<Rightarrow>
         (let path = record_path dir runID in
          if path \<in> set (fs_paths fs) then (Err (ErrWrap ''create record file'' (ErrMsg ''file exists'')), fs)
          else (case fs_Create fs path of
             Err e \<Rightarrow> (Err (ErrWrap ''create record file'' e), fs)
           | Panic p \<Rightarrow> (Panic p, fs)
           | Ok f \<Rightarrow> (Ok \<lparr>nd_File = f, nd_errLog = []\<rparr>, fs\<lparr>fs_paths := path # fs_paths fs\<rparr>))))"

definition WriteHeader ::
  "'f FileOps \<Rightarrow> (RunRecord \<Rightarrow> string) \<Rightarrow> RunRecord \<Rightarrow> 'f NDJSONSink \<Rightarrow> unit go \<times> 'f NDJSONSink" where
  "WriteHeader ops encode r s =
     (case fo_Write ops (encode r @ [CHR 0x0A]) (nd_File s) of
        (Err e, f) \<Rightarrow> (Err (ErrWrap ''write run header'' e), s\<lparr>nd_File := f\<rparr>)
      | (res, f) \<Rightarrow> (res, s\<lparr>nd_File := f\<rparr>))"

fun error_text :: "go_error \<Rightarrow> string" where
  "error_text (ErrMsg m) = m"
| "error_text (ErrWrap m e) = m @ '': '' @ error_text e"
| "error_text ErrUnexpectedEOF = ''unexpected EOF''"

definition WriteBlock ::
  "'f FileOps \<Rightarrow> (BlockRecord \<Rightarrow> string) \<Rightarrow> BlockRecord \<Rightarrow> 'f NDJSONSink \<Rightarrow> unit go \<times> 'f NDJSONSink" where
  "WriteBlock ops encode r s =
     (case fo_Write ops (encode r @ [CHR 0x0A]) (nd_File s) of
        (Err e, f) \<Rightarrow> (Ok (), s\<lparr>nd_File := f, nd_errLog := nd_errLog s @
            [''write block record (height '' @ itoa (br_Height r) @ ''): '' @ error_text e]\<rparr>)
      | (res, f) \<Rightarrow> (res, s\<lparr>nd_File := f\<rparr>))"

definition Close :: "'f FileOps \<Rightarrow> 'f NDJSONSink \<Rightarrow> unit go \<times> 'f NDJSONSink" where
  "Close ops s =
     (case fo_Sync ops (nd_File s) of
        (Panic p, f) \<Rightarrow> (Panic p, s\<lparr>nd_File := f\<rparr>)
      | (syncErr, f) \<Rightarrow>
         (case fo_Close ops f of (closeErr, f') \<Rightarrow>
            (case syncErr of Err e \<Rightarrow> (Err (ErrWrap ''sync record file'' e), s\<lparr>nd_File := f'\<rparr>)
             | _ \<Rightarrow> (closeErr, s\<lparr>nd_File := f'\<rparr>))))"

section \<open>Facts\<close>

definition entry_for :: "registry \<Rightarrow> string \<Rightarrow> Entry" where
  "entry_for reg k = (case map_of reg k of Some e \<Rightarrow> e
     | None \<Rightarrow> \<lparr>en_Key = k, en_Module = '''', en_MsgType = '''', en_HandlerFn = ''''\<rparr>)"

lemma collect_entries_eq:
  "\<exists>ds. collect_entries reg ks seen entries = entries @ map (entry_for reg) ds \<and> distinct ds \<and>
     set ds = set ks - seen"
proof (induction ks arbitrary: seen entries)
  case (Cons k ks)
  show ?case
  proof (cases "k \<in> seen")
    case True
    obtain ds where "collect_entries reg ks seen entries = entries @ map (entry_for reg) ds"
        "distinct ds" "set ds = set ks - seen"
      using Cons.IH [of seen entries] by blast
    then show ?thesis using True by (intro exI [of _ ds]) auto
  next
    case False
    obtain ds where "collect_entries reg ks (insert k seen) (entries @ [entry_for reg k]) =
          (entries @ [entry_for reg k]) @ map (entry_for reg) ds"
        "distinct ds" "set ds = set ks - insert k seen"
      using Cons.IH [of "insert k seen" "entries @ [entry_for reg k]"] by blast
    then show ?thesis using False by (intro exI [of _ "k # ds"]) (auto simp: entry_for_def)
  qed
qed simp

lemma entry_for_key:
  assumes "registry_ok reg"
  shows "en_Key (entry_for reg k) = k"
proof (cases "map_of reg k")
  case None
  then show ?thesis by (simp add: entry_for_def)
next
  case (Some e)
  then have "(k, e) \<in> set reg" by (rule map_of_SomeD)
  with Some assms show ?thesis by (auto simp: entry_for_def registry_ok_def list_all_iff)
qed

lemma msg_types_eq:
  assumes "registry_ok reg"
  shows "sort_key en_Key (collect_entries reg ks {} []) = map (entry_for reg) (sorted_list_of_set (set ks))"
proof -
  obtain ds where c: "collect_entries reg ks {} [] = map (entry_for reg) ds" and d: "distinct ds" "set ds = set ks"
    using collect_entries_eq [of reg ks "{}" "[]"] by auto
  have k: "map en_Key (map (entry_for reg) ds) = ds"
    using entry_for_key [OF assms] by (simp add: comp_def)
  have "sort_key en_Key (map (entry_for reg) ds) =
      map (entry_for reg) (sorted_list_of_set (en_Key ` set (map (entry_for reg) ds)))"
    by (rule sort_key_canonical) (use d k entry_for_key [OF assms] in auto)
  also have "en_Key ` set (map (entry_for reg) ds) = set ks"
    using d entry_for_key [OF assms] by (auto simp: image_image)
  finally show ?thesis by (simp add: c)
qed

section \<open>Properties\<close>

text \<open>C40. The record of a block holds the whole result: every finding in order with its identity, and the
  entries of the executed message types, each once, by ascending key, registered or not, whatever the order
  the transactions had.\<close>

theorem block_record_complete:
  assumes "registry_ok global"
  shows "br_Divergences (BlockRecordFromResult global r name) = map divergence_entry (r_Findings r) \<and>
    (br_Verdict (BlockRecordFromResult global r name) = ''MATCH'' \<longleftrightarrow> r_Verdict r = Match) \<and>
    map en_Key (br_MsgTypes (BlockRecordFromResult global r name)) = sorted_list_of_set (set (r_MsgKeys r)) \<and>
    (\<forall>e \<in> set (br_MsgTypes (BlockRecordFromResult global r name)). e = entry_for global (en_Key e))"
proof -
  have reg: "Registered global = global" using assms by (simp add: Registered_ok registry_ok_def)
  have mt: "br_MsgTypes (BlockRecordFromResult global r name) =
      map (entry_for global) (sorted_list_of_set (set (r_MsgKeys r)))"
    by (cases "r_MsgKeys r = []") (simp_all add: BlockRecordFromResult_def reg msg_types_eq [OF assms])
  have v: "br_Verdict (BlockRecordFromResult global r name) = ''MATCH'' \<longleftrightarrow> r_Verdict r = Match"
    by (cases "r_Verdict r") (simp_all add: BlockRecordFromResult_def)
  show ?thesis
    unfolding mt using v entry_for_key [OF assms] by (auto simp: BlockRecordFromResult_def comp_def)
qed

theorem block_record_complete_witness:
  "map en_Key (br_MsgTypes (BlockRecordFromResult []
     ((block_result 1 example_response [])\<lparr>r_MsgKeys := [''b'', ''a'', ''b'']\<rparr>) ''f'')) = [''a'', ''b'']"
proof -
  have "registry_ok []" by (simp add: registry_ok_def)
  moreover have "sorted_list_of_set {''a'', ''b''} = [''a'', ''b'']" by simp
  ultimately show ?thesis
    using block_record_complete [of "[]" "(block_result 1 example_response [])\<lparr>r_MsgKeys := [''b'', ''a'', ''b'']\<rparr>" "''f''"]
    by (simp add: insert_commute)
qed

text \<open>Recording never fails a run: \<open>WriteBlock\<close> returns no error, a failing write is one line of the
  log; the header and the closing do report theirs, and a second sink for the same run cannot overwrite the
  first one's file.\<close>

theorem sink_errors:
  "(fst (fo_Write ops (enc r @ [CHR 0x0A]) (nd_File s)) = Err e \<longrightarrow>
      fst (WriteBlock ops enc r s) = Ok () \<and>
      length (nd_errLog (snd (WriteBlock ops enc r s))) = Suc (length (nd_errLog s))) \<and>
   (fst (fo_Write ops (hdr h @ [CHR 0x0A]) (nd_File s)) = Err e \<longrightarrow>
      fst (WriteHeader ops hdr h s) = Err (ErrWrap ''write run header'' e)) \<and>
   (fst (New dir runID fs) = Ok s1 \<longrightarrow> fst (New dir runID (snd (New dir runID fs))) =
      Err (ErrWrap ''create record file'' (ErrMsg ''file exists'')))"
proof (intro conjI impI)
  assume "fst (fo_Write ops (enc r @ [CHR 0x0A]) (nd_File s)) = Err e"
  then obtain f where "fo_Write ops (enc r @ [CHR 0x0A]) (nd_File s) = (Err e, f)" by (metis prod.collapse)
  then show "fst (WriteBlock ops enc r s) = Ok ()"
      "length (nd_errLog (snd (WriteBlock ops enc r s))) = Suc (length (nd_errLog s))"
    by (simp_all add: WriteBlock_def)
next
  assume "fst (fo_Write ops (hdr h @ [CHR 0x0A]) (nd_File s)) = Err e"
  then obtain f where "fo_Write ops (hdr h @ [CHR 0x0A]) (nd_File s) = (Err e, f)" by (metis prod.collapse)
  then show "fst (WriteHeader ops hdr h s) = Err (ErrWrap ''write run header'' e)"
    by (simp add: WriteHeader_def)
next
  assume "fst (New dir runID fs) = Ok s1"
  then show "fst (New dir runID (snd (New dir runID fs))) =
      Err (ErrWrap ''create record file'' (ErrMsg ''file exists''))"
    by (auto simp: New_def Let_def split: go.splits if_splits)
qed

text \<open>A file that accepts nothing.\<close>

definition full_disk :: "nat FileOps" where
  "full_disk = \<lparr>fo_Write = (\<lambda>x f. (Err (ErrMsg ''no space''), f)), fo_Sync = (\<lambda>f. (Ok (), f)), fo_Close = (\<lambda>f. (Ok (), f))\<rparr>"

theorem sink_errors_witness:
  "fst (WriteBlock full_disk (\<lambda>_. ''x'') (BlockRecordFromResult [] (block_result 1 example_response []) ''f'')
      \<lparr>nd_File = 0, nd_errLog = []\<rparr>) = Ok ()"
  by (rule sink_errors [THEN conjunct1, THEN mp, THEN conjunct1, of _ _ _ _ "ErrMsg ''no space''"])
    (simp add: full_disk_def)

end
