(* ===== verification/Sdkhook.thy ===== *)
theory Sdkhook
  imports Conflict
begin

text \<open>
  \<open>sdkhook/sdkhook.go\<close>, \<open>instrument/instrument.go\<close>, \<open>instrument/instrument_stm.go\<close>: the slots in
  which a chain adapter registers its functions, once each, and the switches an executor sets on an
  application. A function of the code may be nil and is an option here. \<open>'raw\<close> is the unwrapped
  application, \<open>'k\<close> a keeper, \<open>'a\<close> an application, \<open>'r\<close> a runner with arguments \<open>'g\<close>, \<open>'w\<close> the
  adapter's memory.
\<close>

section \<open>Slots\<close>

type_synonym ('e, 'w) installer = "('e \<Rightarrow> 'w \<Rightarrow> 'w) option \<Rightarrow> 'w \<Rightarrow> 'w"

record ('raw, 'k, 'a, 'g, 'r, 'w) hooks =
  keeperDiscoveryFn :: "('raw \<Rightarrow> 'k list) option"
  keeperDiscoveryFns :: "('raw \<Rightarrow> 'k list) list"
  appWrapFn :: "('raw \<Rightarrow> 'a) option"
  conflictInstaller :: "(ConflictRecord, 'w) installer option"
  execStatsInstaller :: "(ExecutionStats, 'w) installer option"
  runnerFactory :: "('g \<Rightarrow> 'r) option"

definition RegisterKeeperDiscovery ::
  "('raw \<Rightarrow> 'k list) option \<Rightarrow> ('raw, 'k, 'a, 'g, 'r, 'w) hooks \<Rightarrow> ('raw, 'k, 'a, 'g, 'r, 'w) hooks go" where
  "RegisterKeeperDiscovery f h =
     (if keeperDiscoveryFn h \<noteq> None then Panic ''sdkhook: KeeperDiscovery already registered''
      else Ok (h\<lparr>keeperDiscoveryFn := f\<rparr>))"

definition AppendKeeperDiscovery ::
  "('raw \<Rightarrow> 'k list) \<Rightarrow> ('raw, 'k, 'a, 'g, 'r, 'w) hooks \<Rightarrow> ('raw, 'k, 'a, 'g, 'r, 'w) hooks" where
  "AppendKeeperDiscovery f h = h\<lparr>keeperDiscoveryFns := keeperDiscoveryFns h @ [f]\<rparr>"

definition DiscoverKeepers :: "'raw \<Rightarrow> ('raw, 'k, 'a, 'g, 'r, 'w) hooks \<Rightarrow> 'k list" where
  "DiscoverKeepers rawApp h =
     (case keeperDiscoveryFn h of Some f \<Rightarrow> f rawApp | None \<Rightarrow> []) @
     concat (map (\<lambda>fn. fn rawApp) (keeperDiscoveryFns h))"

definition RegisterAppWrapper ::
  "('raw \<Rightarrow> 'a) option \<Rightarrow> ('raw, 'k, 'a, 'g, 'r, 'w) hooks \<Rightarrow> ('raw, 'k, 'a, 'g, 'r, 'w) hooks go" where
  "RegisterAppWrapper f h =
     (if appWrapFn h \<noteq> None then Panic ''sdkhook: AppWrapper already registered''
      else Ok (h\<lparr>appWrapFn := f\<rparr>))"

definition WrapApp :: "'raw \<Rightarrow> ('raw, 'k, 'a, 'g, 'r, 'w) hooks \<Rightarrow> 'a go" where
  "WrapApp rawApp h =
     (case appWrapFn h of
        None \<Rightarrow> Panic ''sdkhook: no AppWrapper registered; call RegisterAppWrapper in your adapter init()''
      | Some f \<Rightarrow> Ok (f rawApp))"

definition RegisterConflictObserverInstaller ::
  "(ConflictRecord, 'w) installer option \<Rightarrow> ('raw, 'k, 'a, 'g, 'r, 'w) hooks \<Rightarrow>
   ('raw, 'k, 'a, 'g, 'r, 'w) hooks go" where
  "RegisterConflictObserverInstaller f h =
     (if conflictInstaller h \<noteq> None then Panic ''sdkhook: ConflictObserverInstaller already registered''
      else Ok (h\<lparr>conflictInstaller := f\<rparr>))"

definition InstallConflictObserver ::
  "('raw, 'k, 'a, 'g, 'r, 'w) hooks \<Rightarrow> (ConflictRecord \<Rightarrow> 'w \<Rightarrow> 'w) option \<Rightarrow> 'w \<Rightarrow> 'w" where
  "InstallConflictObserver h fn w = (case conflictInstaller h of Some f \<Rightarrow> f fn w | None \<Rightarrow> w)"

definition RegisterExecStatsObserverInstaller ::
  "(ExecutionStats, 'w) installer option \<Rightarrow> ('raw, 'k, 'a, 'g, 'r, 'w) hooks \<Rightarrow>
   ('raw, 'k, 'a, 'g, 'r, 'w) hooks go" where
  "RegisterExecStatsObserverInstaller f h =
     (if execStatsInstaller h \<noteq> None then Panic ''sdkhook: ExecStatsObserverInstaller already registered''
      else Ok (h\<lparr>execStatsInstaller := f\<rparr>))"

definition InstallExecStatsObserver ::
  "('raw, 'k, 'a, 'g, 'r, 'w) hooks \<Rightarrow> (ExecutionStats \<Rightarrow> 'w \<Rightarrow> 'w) option \<Rightarrow> 'w \<Rightarrow> 'w" where
  "InstallExecStatsObserver h fn w = (case execStatsInstaller h of Some f \<Rightarrow> f fn w | None \<Rightarrow> w)"

definition RegisterSTMRunnerFactory ::
  "('g \<Rightarrow> 'r) option \<Rightarrow> ('raw, 'k, 'a, 'g, 'r, 'w) hooks \<Rightarrow> ('raw, 'k, 'a, 'g, 'r, 'w) hooks go" where
  "RegisterSTMRunnerFactory f h =
     (if runnerFactory h \<noteq> None then Panic ''sdkhook: STMRunnerFactory already registered''
      else Ok (h\<lparr>runnerFactory := f\<rparr>))"

definition NewSTMRunner :: "'g \<Rightarrow> ('raw, 'k, 'a, 'g, 'r, 'w) hooks \<Rightarrow> 'r go" where
  "NewSTMRunner args h =
     (case runnerFactory h of
        None \<Rightarrow> Panic ''sdkhook: no STMRunnerFactory registered; call RegisterSTMRunnerFactory in your adapter init()''
      | Some f \<Rightarrow> Ok (f args))"

definition no_hooks :: "('raw, 'k, 'a, 'g, 'r, 'w) hooks" where
  "no_hooks = \<lparr>keeperDiscoveryFn = None, keeperDiscoveryFns = [], appWrapFn = None, conflictInstaller = None,
     execStatsInstaller = None, runnerFactory = None\<rparr>"

section \<open>The contract of a slot\<close>

text \<open>A slot is read with \<open>get\<close> and filled with \<open>register\<close>, which panics on a slot that is not empty.
  Whatever sequence of registrations a program makes, if none panics at most one of them filled the slot,
  and the slot holds that function for the rest of the program.\<close>

locale register_once =
  fixes register :: "'f option \<Rightarrow> 'h \<Rightarrow> 'h go"
    and get :: "'h \<Rightarrow> 'f option"
  assumes fill: "get h = None \<Longrightarrow> \<exists>h'. register f h = Ok h' \<and> get h' = f"
    and full: "get h \<noteq> None \<Longrightarrow> \<exists>m. register f h = Panic m"
begin

lemma register_Ok: "register f h = Ok h' \<Longrightarrow> get h = None \<and> get h' = f"
  using fill [of h f] full [of h f] by (cases "get h = None") auto

lemma kept: "get h = Some g \<Longrightarrow> go_fold register fs h = Ok h' \<Longrightarrow> fs = [] \<and> get h' = Some g"
  using register_Ok by (cases fs) (fastforce simp: go_bind_eq_Ok)+

lemma one_winner:
  "go_fold register fs h = Ok h' \<Longrightarrow> get h = None \<Longrightarrow>
   length (filter (\<lambda>f. f \<noteq> None) fs) \<le> 1 \<and>
   get h' = (if filter (\<lambda>f. f \<noteq> None) fs = [] then None else hd (filter (\<lambda>f. f \<noteq> None) fs))"
proof (induction fs arbitrary: h)
  case (Cons f fs)
  then obtain h1 where r: "register f h = Ok h1" and rest: "go_fold register fs h1 = Ok h'"
    by (auto simp: go_bind_eq_Ok)
  have g: "get h1 = f" using register_Ok [OF r] by simp
  show ?case
  proof (cases f)
    case None
    then show ?thesis using Cons.IH [OF rest] g by simp
  next
    case (Some x)
    then show ?thesis using kept [OF _ rest] g by auto
  qed
qed simp

end

interpretation discovery_slot: register_once RegisterKeeperDiscovery keeperDiscoveryFn
  by unfold_locales (simp_all add: RegisterKeeperDiscovery_def)

interpretation wrapper_slot: register_once RegisterAppWrapper appWrapFn
  by unfold_locales (simp_all add: RegisterAppWrapper_def)

interpretation conflict_slot: register_once RegisterConflictObserverInstaller conflictInstaller
  by unfold_locales (simp_all add: RegisterConflictObserverInstaller_def)

interpretation stats_slot: register_once RegisterExecStatsObserverInstaller execStatsInstaller
  by unfold_locales (simp_all add: RegisterExecStatsObserverInstaller_def)

interpretation factory_slot: register_once RegisterSTMRunnerFactory runnerFactory
  by unfold_locales (simp_all add: RegisterSTMRunnerFactory_def)

section \<open>Instrumenting an application\<close>

datatype RunnerMode = RunnerSTM | RunnerSequential

record ('o, 'r) app_switches =
  as_observer :: "'o option"
  as_runner :: "'r option"
  as_gasMeterOff :: bool

record 'o Options =
  op_Observer :: "'o option"
  op_Runner :: RunnerMode

text \<open>\<open>canObserve\<close>: the application has a method \<open>SetLifecycleObserver\<close>.\<close>

definition InstrumentApp :: "bool \<Rightarrow> 'o Options \<Rightarrow> ('o, 'r) app_switches \<Rightarrow> ('o, 'r) app_switches" where
  "InstrumentApp canObserve opts app =
     (let app1 = (if op_Observer opts \<noteq> None \<and> canObserve then app\<lparr>as_observer := op_Observer opts\<rparr> else app)
      in if op_Runner opts = RunnerSequential then app1\<lparr>as_runner := None\<rparr> else app1)"

definition InstrumentSTM :: "'r \<Rightarrow> ('o, 'r) app_switches \<Rightarrow> ('o, 'r) app_switches" where
  "InstrumentSTM runner app = app\<lparr>as_gasMeterOff := True, as_runner := Some runner\<rparr>"

section \<open>Properties\<close>

text \<open>Registration: if a program's registrations of the runner factory do not panic, at most one of
  them was a function, and \<open>NewSTMRunner\<close> uses that one from then on; without one it panics. The discovery
  of keepers lists the registered function's keepers first and the appended ones after, in the order of
  registration.\<close>

theorem registration_once:
  assumes "go_fold RegisterSTMRunnerFactory fs no_hooks = Ok h"
  shows "length (filter (\<lambda>f. f \<noteq> None) fs) \<le> 1 \<and>
    (\<forall>f. Some f \<in> set fs \<longrightarrow> NewSTMRunner args h = Ok (f args)) \<and>
    ((\<forall>f \<in> set fs. f = None) \<longrightarrow> \<not> no_panic (NewSTMRunner args h)) \<and>
    DiscoverKeepers raw (fold AppendKeeperDiscovery gs h) =
      DiscoverKeepers raw h @ concat (map (\<lambda>g. g raw) gs)"
proof -
  have w: "length (filter (\<lambda>f. f \<noteq> None) fs) \<le> 1 \<and> runnerFactory h =
      (if filter (\<lambda>f. f \<noteq> None) fs = [] then None else hd (filter (\<lambda>f. f \<noteq> None) fs))"
    by (rule factory_slot.one_winner [OF assms]) (simp add: no_hooks_def)
  have some: "NewSTMRunner args h = Ok (f args)" if "Some f \<in> set fs" for f
  proof -
    let ?xs = "filter (\<lambda>f. f \<noteq> None) fs"
    have "Some f \<in> set ?xs" using that by simp
    moreover obtain x where "?xs = [] \<or> ?xs = [x]"
      using w [THEN conjunct1] by (cases ?xs) auto
    ultimately have "?xs = [Some f]" by (metis empty_iff empty_set set_ConsD)
    with w [THEN conjunct2] show ?thesis by (simp add: NewSTMRunner_def)
  qed
  have none: "\<not> no_panic (NewSTMRunner args h)" if "\<forall>f \<in> set fs. f = None"
  proof -
    have "filter (\<lambda>f. f \<noteq> None) fs = []" using that by (simp add: filter_empty_conv)
    with w show ?thesis by (simp add: NewSTMRunner_def)
  qed
  have "DiscoverKeepers raw (fold AppendKeeperDiscovery gs k) = DiscoverKeepers raw k @ concat (map (\<lambda>g. g raw) gs)" for k
    by (induction gs arbitrary: k) (auto simp: DiscoverKeepers_def AppendKeeperDiscovery_def)
  then show ?thesis using w some none by blast
qed

theorem registration_once_witness:
  "\<exists>h :: (unit, nat, unit, nat, nat, unit) hooks.
     go_fold RegisterSTMRunnerFactory [None, Some Suc] no_hooks = Ok h \<and> NewSTMRunner 4 h = Ok 5"
proof -
  obtain h :: "(unit, nat, unit, nat, nat, unit) hooks"
    where h: "go_fold RegisterSTMRunnerFactory [None, Some Suc] no_hooks = Ok h"
    by (simp add: RegisterSTMRunnerFactory_def no_hooks_def)
  with registration_once [OF h, of 4] show ?thesis by auto
qed

end
