(* ===== verification/Repeat_Run.thy ===== *)
theory Repeat_Run
  imports Executors
begin

text \<open>
  \<open>run/repeat_executor.go\<close>, \<open>run/perturb_config.go\<close>: the executor that looks for divergence between
  repeated runs of one block: one oracle and \<open>n\<close> probes, each with its own scheduler perturbation, run one
  after the other; the oracle is compared with probe 0 and probe 0 with each other probe. Each application
  gets an observer without trackers; the sinks of conflicts and statistics are not installed, so such reports
  go nowhere. The memory \<open>'w\<close> is the one all applications share.
\<close>

section \<open>Probe configurations\<close>

record probeConfig =
  pc_workers :: int
  pc_seed :: int

definition generateProbeConfigs :: "int \<Rightarrow> probeConfig list" where
  "generateProbeConfigs n =
     map (\<lambda>i. if i = 0 then \<lparr>pc_workers = 4, pc_seed = 0\<rparr>
              else \<lparr>pc_workers = 4 + (i - 1) mod 4, pc_seed = i\<rparr>)
       (map int [0..<nat (if n < 1 then 1 else n)])"

section \<open>The executor\<close>

record ('w, 'k, 'c, 'm, 't) RepeatRunExecutor =
  rr_n :: int
  rr_Oracle :: "'w App"
  rr_Probes :: "'w App list"
  rr_Lib :: "('k, 'c, 'm, 't) TxLib"
  rr_Keys :: "string \<rightharpoonup> 'k"
  rr_AccountNums :: "string \<Rightarrow> u64"
  rr_PackageBuilders :: "('k, 'm) builders"

text \<open>\<open>NewRepeatRunExecutor\<close> sets the number of probes, \<open>Init\<close> creates that many.\<close>

definition clamp_probes :: "int \<Rightarrow> int" where
  "clamp_probes n = (if n < 1 then 1 else n)"

fun repeat_step :: "'w app_event \<Rightarrow> 'w BlockObserver \<times> 'w \<Rightarrow> ('w BlockObserver \<times> 'w) go" where
  "repeat_step (AppObs ev) s = ob_step ev s"
| "repeat_step (AppConflict r) s = Ok s"
| "repeat_step (AppStats x) s = Ok s"

text \<open>One application runs the block under its own observer.\<close>

definition run_app ::
  "int \<Rightarrow> bytes list \<Rightarrow> 'w App \<Rightarrow> 'w \<Rightarrow> (Response \<times> 'w BlockObserver) go \<times> 'w" where
  "run_app height txs app w =
     (case ap_FinalizeBlock app height txs w of (res, evs) \<Rightarrow>
        (case go_fold repeat_step evs (NewBlockObserver (length txs) [], w) of
           Ok (ob, w') \<Rightarrow> (go_bind res (\<lambda>r. Ok (r, ob)), w')
         | Err e \<Rightarrow> (Err e, w)
         | Panic p \<Rightarrow> (Panic p, w)))"

definition probe_error :: "nat \<Rightarrow> string \<Rightarrow> string" where
  "probe_error i what = ''probe['' @ nat_digits i @ ''] '' @ what"

fun run_probes ::
  "int \<Rightarrow> bytes list \<Rightarrow> nat \<Rightarrow> 'w App list \<Rightarrow> 'w \<Rightarrow> (Response \<times> 'w BlockObserver) list go \<times> 'w" where
  "run_probes height txs i [] w = (Ok [], w)"
| "run_probes height txs i (p # ps) w =
     (case run_app height txs p w of
        (Ok x, w1) \<Rightarrow>
          (case run_probes height txs (Suc i) ps w1 of
             (Ok xs, w2) \<Rightarrow> (Ok (x # xs), w2)
           | (r, w2) \<Rightarrow> (r, w2))
      | (Err e, w1) \<Rightarrow> (Err (ErrWrap (probe_error i ''FinalizeBlock'') e), w1)
      | (Panic m, w1) \<Rightarrow> (Panic m, w1))"

fun commit_probes :: "nat \<Rightarrow> 'w App list \<Rightarrow> 'w \<Rightarrow> unit go \<times> 'w" where
  "commit_probes i [] w = (Ok (), w)"
| "commit_probes i (p # ps) w =
     (case ap_Commit p w of
        (Ok _, w1) \<Rightarrow> commit_probes (Suc i) ps w1
      | (r, w1) \<Rightarrow> (wrap_err (probe_error i ''Commit'') r, w1))"

definition commit_all :: "'w App \<Rightarrow> 'w App list \<Rightarrow> 'w \<Rightarrow> unit go \<times> 'w" where
  "commit_all oracle probes w =
     (case ap_Commit oracle w of
        (Ok _, w1) \<Rightarrow> commit_probes 0 probes w1
      | (r, w1) \<Rightarrow> (wrap_err ''oracle Commit'' r, w1))"

definition repeatCompareResponses ::
  "int \<Rightarrow> Response \<Rightarrow> Response \<Rightarrow> (nat \<Rightarrow> string list) option \<Rightarrow> (nat \<Rightarrow> string list) option \<Rightarrow> nat \<Rightarrow> int \<Rightarrow>
   Finding list" where
  "repeatCompareResponses height left right leftWS rightWS m probeIndex =
     (let n0 = min (length (rs_TxResults left)) (length (rs_TxResults right));
          n = (if m < n0 then m else n0)
      in (if rs_AppHash left \<noteq> rs_AppHash right
          then [NewFinding height DimAppHash (-1) probeIndex (hex_encode (rs_AppHash left)) (hex_encode (rs_AppHash right))]
          else []) @
         concat (map (\<lambda>i. if tr_Code (rs_TxResults left ! i) \<noteq> tr_Code (rs_TxResults right ! i)
           then [NewFinding height DimErrorCode (int i) probeIndex
             (nat_digits (unat (tr_Code (rs_TxResults left ! i)))) (nat_digits (unat (tr_Code (rs_TxResults right ! i))))]
           else []) [0..<n]) @
         (case (leftWS, rightWS) of
            (Some l, Some r) \<Rightarrow> concat (map (\<lambda>i. if \<not> EqualStrSlice (l i) (r i)
              then [NewFinding height DimWriteSet (int i) probeIndex (FormatWriteSet (l i)) (FormatWriteSet (r i))]
              else []) [0..<n])
          | _ \<Rightarrow> []))"

definition compare_runs ::
  "int \<Rightarrow> nat \<Rightarrow> Response \<times> 'w BlockObserver \<Rightarrow> Response \<times> 'w BlockObserver \<Rightarrow> nat \<Rightarrow> Finding list" where
  "compare_runs height n a b probeIndex =
     repeatCompareResponses height (fst a) (fst b) (Some (write_set_of (snd a))) (Some (write_set_of (snd b))) n
       (int probeIndex)"

text \<open>Oracle against probe 0, then probe 0 against each other probe, in order.\<close>

definition all_findings ::
  "int \<Rightarrow> nat \<Rightarrow> Response \<times> 'w BlockObserver \<Rightarrow> (Response \<times> 'w BlockObserver) list \<Rightarrow> Finding list" where
  "all_findings height n ora prbs =
     compare_runs height n ora (prbs ! 0) 0 @
     concat (map (\<lambda>i. compare_runs height n (prbs ! 0) (prbs ! i) i) [1..<length prbs])"

definition repeat_result :: "int \<Rightarrow> Finding list \<Rightarrow> Result" where
  "repeat_result height fs =
     \<lparr>r_Verdict = (if fs \<noteq> [] then Divergence else Match), r_Height = height, r_Findings = fs,
      r_MsgKeys = [], r_TxWriteSets = [], r_OracleTxCodes = [], r_HotKeys = [], r_ExecutionRatio = 0\<rparr>"

definition repeat_RunBlock ::
  "('w, 'k, 'c, 'm, 't) RepeatRunExecutor \<Rightarrow> BlockSpec \<Rightarrow> int \<Rightarrow> sequences \<times> 'w \<Rightarrow> Result go \<times> sequences \<times> 'w" where
  "repeat_RunBlock e b height = (\<lambda>(seqs, w).
     (case build_txs (rr_Lib e) (rr_Keys e) (rr_AccountNums e) Map.empty (rr_PackageBuilders e) (bl_Txs b) seqs of
        (Err x, seqs1) \<Rightarrow> (Err x, seqs1, w)
      | (Panic p, seqs1) \<Rightarrow> (Panic p, seqs1, w)
      | (Ok txs, seqs1) \<Rightarrow>
         (case run_app height txs (rr_Oracle e) w of
            (Err x, w1) \<Rightarrow> (Err (ErrWrap ''oracle FinalizeBlock'' x), seqs1, w1)
          | (Panic p, w1) \<Rightarrow> (Panic p, seqs1, w1)
          | (Ok ora, w1) \<Rightarrow>
             (case run_probes height txs 0 (rr_Probes e) w1 of
                (Err x, w2) \<Rightarrow> (Err x, seqs1, w2)
              | (Panic p, w2) \<Rightarrow> (Panic p, seqs1, w2)
              | (Ok prbs, w2) \<Rightarrow>
                 (if prbs = [] then (Panic ''index out of range'', seqs1, w2)
                  else let fs = all_findings height (length txs) ora prbs in
                   (case commit_all (rr_Oracle e) (rr_Probes e) w2 of
                      (Ok _, w3) \<Rightarrow> (Ok (repeat_result height fs), seqs1, w3)
                    | (Err x, w3) \<Rightarrow> (Err x, seqs1, w3)
                    | (Panic p, w3) \<Rightarrow> (Panic p, seqs1, w3)))))))"

section \<open>Agreement of two runs\<close>

definition runs_agree :: "nat \<Rightarrow> Response \<times> 'w BlockObserver \<Rightarrow> Response \<times> 'w BlockObserver \<Rightarrow> bool" where
  "runs_agree n a b \<longleftrightarrow> rs_AppHash (fst a) = rs_AppHash (fst b) \<and>
     (\<forall>i < n. tr_Code (rs_TxResults (fst a) ! i) = tr_Code (rs_TxResults (fst b) ! i) \<and>
        write_set_of (snd a) i = write_set_of (snd b) i)"

definition compared :: "nat \<Rightarrow> Response \<Rightarrow> Response \<Rightarrow> nat" where
  "compared n l r = min n (txCount l r)"

lemma compare_runs_Nil:
  "compare_runs height n a b p = [] \<longleftrightarrow> runs_agree (compared n (fst a) (fst b)) a b"
proof -
  have n: "(if n < min (length (rs_TxResults (fst a))) (length (rs_TxResults (fst b))) then n
      else min (length (rs_TxResults (fst a))) (length (rs_TxResults (fst b)))) = compared n (fst a) (fst b)"
    by (simp add: compared_def txCount_def min_def)
  show ?thesis
    unfolding compare_runs_def repeatCompareResponses_def Let_def n append_is_Nil_conv prod.case option.case
      concat_if_Nil runs_agree_def EqualStrSlice_iff
    by auto
qed

lemma runs_agree_full:
  "length (rs_TxResults (fst a)) = n \<Longrightarrow> length (rs_TxResults (fst b)) = n \<Longrightarrow> compared n (fst a) (fst b) = n"
  by (simp add: compared_def txCount_def)

lemma all_findings_Nil:
  assumes "prbs \<noteq> []"
  shows "all_findings height n ora prbs = [] \<longleftrightarrow>
    runs_agree (compared n (fst ora) (fst (hd prbs))) ora (hd prbs) \<and>
    (\<forall>p \<in> set (tl prbs). runs_agree (compared n (fst (hd prbs)) (fst p)) (hd prbs) p)"
proof -
  obtain q qs where q: "prbs = q # qs" using assms by (cases prbs) auto
  have "[1..<length prbs] = map Suc [0..<length qs]" by (simp add: q map_Suc_upt)
  then have "all_findings height n ora prbs = [] \<longleftrightarrow> compare_runs height n ora q 0 = [] \<and>
      (\<forall>i < length qs. compare_runs height n q (qs ! i) (Suc i) = [])"
    by (auto simp: all_findings_def q)
  then show ?thesis by (simp add: compare_runs_Nil q all_set_conv_all_nth)
qed

lemma runs_agree_trans:
  "runs_agree n a b \<Longrightarrow> runs_agree n b c \<Longrightarrow> runs_agree n a c" and runs_agree_sym:
  "runs_agree n a b \<Longrightarrow> runs_agree n b a" and runs_agree_refl [simp]: "runs_agree n a a"
  by (auto simp: runs_agree_def)

lemma star_is_pairwise:
  "runs_agree n ora q \<Longrightarrow> (\<And>p. p \<in> set qs \<Longrightarrow> runs_agree n q p) \<Longrightarrow> x \<in> set (ora # q # qs) \<Longrightarrow>
   y \<in> set (ora # q # qs) \<Longrightarrow> runs_agree n x y"
  by (metis runs_agree_refl runs_agree_sym runs_agree_trans set_ConsD)

section \<open>Runs of a block\<close>

lemma run_probes_Ok:
  "run_probes height txs i ps w = (Ok xs, w') \<Longrightarrow> length xs = length ps"
  by (induction ps arbitrary: i w xs w') (auto split: prod.splits go.splits)

lemma repeat_Ok:
  assumes "repeat_RunBlock e b height (seqs, w) = (Ok r, seqs', w')"
  obtains txs ora w1 prbs w2 where
    "build_txs (rr_Lib e) (rr_Keys e) (rr_AccountNums e) Map.empty (rr_PackageBuilders e) (bl_Txs b) seqs = (Ok txs, seqs')"
    "run_app height txs (rr_Oracle e) w = (Ok ora, w1)"
    "run_probes height txs 0 (rr_Probes e) w1 = (Ok prbs, w2)" "prbs \<noteq> []"
    "r = repeat_result height (all_findings height (length txs) ora prbs)"
  using assms by (auto simp: repeat_RunBlock_def Let_def split: prod.splits go.splits if_splits)

lemma repeat_result_simps [simp]:
  "r_Height (repeat_result h fs) = h" "r_Findings (repeat_result h fs) = fs"
  "r_Verdict (repeat_result h fs) = Match \<longleftrightarrow> fs = []"
  by (simp_all add: repeat_result_def)

lemma length_generateProbeConfigs: "length (generateProbeConfigs n) = nat (clamp_probes n)"
  by (simp add: generateProbeConfigs_def clamp_probes_def)

lemma generateProbeConfigs_nth:
  "i < length (generateProbeConfigs n) \<Longrightarrow> generateProbeConfigs n ! i =
     (if i = 0 then \<lparr>pc_workers = 4, pc_seed = 0\<rparr>
      else \<lparr>pc_workers = 4 + (int i - 1) mod 4, pc_seed = int i\<rparr>)"
  by (simp add: generateProbeConfigs_def)

section \<open>Properties\<close>

text \<open>C10. The verdict of repeated runs: a block that finishes has the verdict \<open>Match\<close> exactly when there is
  no finding; and when the oracle and every probe report a result for each transaction, exactly when all
  runs agree pairwise on the hash and, for each transaction, on code and write set, although the code
  compares every probe with the first one only.\<close>

theorem repeat_verdict_pairwise:
  assumes "repeat_RunBlock e b height (seqs, w) = (Ok r, seqs', w')"
  shows "\<exists>txs ora w1 prbs w2.
    build_txs (rr_Lib e) (rr_Keys e) (rr_AccountNums e) Map.empty (rr_PackageBuilders e) (bl_Txs b) seqs = (Ok txs, seqs') \<and>
    run_app height txs (rr_Oracle e) w = (Ok ora, w1) \<and>
    run_probes height txs 0 (rr_Probes e) w1 = (Ok prbs, w2) \<and> length prbs = length (rr_Probes e) \<and>
    r_Height r = height \<and> (r_Verdict r = Match \<longleftrightarrow> r_Findings r = []) \<and>
    ((\<forall>x \<in> set (ora # prbs). length (rs_TxResults (fst x)) = length txs) \<longrightarrow>
      (r_Verdict r = Match \<longleftrightarrow> (\<forall>x \<in> set (ora # prbs). \<forall>y \<in> set (ora # prbs). runs_agree (length txs) x y)))"
proof -
  obtain txs ora w1 prbs w2 where
    s: "build_txs (rr_Lib e) (rr_Keys e) (rr_AccountNums e) Map.empty (rr_PackageBuilders e) (bl_Txs b) seqs = (Ok txs, seqs')"
      "run_app height txs (rr_Oracle e) w = (Ok ora, w1)"
      "run_probes height txs 0 (rr_Probes e) w1 = (Ok prbs, w2)"
    and ne: "prbs \<noteq> []" and r: "r = repeat_result height (all_findings height (length txs) ora prbs)"
    by (rule repeat_Ok [OF assms])
  obtain q qs where q: "prbs = q # qs" using ne by (cases prbs) auto
  have pw: "r_Verdict r = Match \<longleftrightarrow> (\<forall>x \<in> set (ora # prbs). \<forall>y \<in> set (ora # prbs). runs_agree (length txs) x y)"
    if full: "\<forall>x \<in> set (ora # prbs). length (rs_TxResults (fst x)) = length txs"
  proof -
    have "r_Verdict r = Match \<longleftrightarrow>
        runs_agree (length txs) ora q \<and> (\<forall>p \<in> set qs. runs_agree (length txs) q p)"
      using full unfolding r repeat_result_simps all_findings_Nil [OF ne]
      by (simp add: q runs_agree_full)
    moreover have "runs_agree (length txs) x y"
      if "runs_agree (length txs) ora q \<and> (\<forall>p \<in> set qs. runs_agree (length txs) q p)"
        "x \<in> set (ora # prbs)" "y \<in> set (ora # prbs)" for x y
      using that star_is_pairwise [of "length txs" ora q qs x y] unfolding q by blast
    moreover have "ora \<in> set (ora # prbs)" "q \<in> set (ora # prbs)" "\<forall>p \<in> set qs. p \<in> set (ora # prbs)"
      by (auto simp: q)
    ultimately show ?thesis by blast
  qed
  have "r_Height r = height" "r_Verdict r = Match \<longleftrightarrow> r_Findings r = []" by (simp_all add: r)
  then show ?thesis using s run_probes_Ok [OF s(3)] pw by blast
qed

text \<open>C39. The probe configurations: at least one, the first without perturbation, every worker count
  between 4 and 7, and no two alike.\<close>

theorem probe_configs_distinct:
  "length (generateProbeConfigs n) = nat (clamp_probes n) \<and> 0 < length (generateProbeConfigs n) \<and>
   hd (generateProbeConfigs n) = \<lparr>pc_workers = 4, pc_seed = 0\<rparr> \<and>
   list_all (\<lambda>c. 4 \<le> pc_workers c \<and> pc_workers c \<le> 7) (generateProbeConfigs n) \<and>
   distinct (map pc_seed (generateProbeConfigs n))"
proof -
  have ne: "0 < length (generateProbeConfigs n)" by (simp add: length_generateProbeConfigs clamp_probes_def)
  have seed: "pc_seed (generateProbeConfigs n ! i) = int i" if "i < length (generateProbeConfigs n)" for i
    using generateProbeConfigs_nth [OF that] by simp
  have "4 \<le> pc_workers (generateProbeConfigs n ! i) \<and> pc_workers (generateProbeConfigs n ! i) \<le> 7"
    if "i < length (generateProbeConfigs n)" for i
  proof -
    have "0 \<le> (int i - 1) mod 4" "(int i - 1) mod 4 < 4" by simp_all
    then have "4 + (int i - 1) mod 4 \<le> 7" "4 \<le> 4 + (int i - 1) mod 4" by linarith+
    then show ?thesis using generateProbeConfigs_nth [OF that] by simp
  qed
  then have "list_all (\<lambda>c. 4 \<le> pc_workers c \<and> pc_workers c \<le> 7) (generateProbeConfigs n)"
    by (simp add: list_all_length)
  moreover have "hd (generateProbeConfigs n) = \<lparr>pc_workers = 4, pc_seed = 0\<rparr>"
    using ne generateProbeConfigs_nth [OF ne] by (simp add: hd_conv_nth)
  moreover have "distinct (map pc_seed (generateProbeConfigs n))"
    by (auto simp: distinct_conv_nth seed)
  ultimately show ?thesis using ne by (simp add: length_generateProbeConfigs)
qed

text \<open>An executor with two probes that write what the oracle writes, over the world of a counter.\<close>

definition example_rr :: "(nat, nat, nat, nat, nat list) RepeatRunExecutor" where
  "example_rr = \<lparr>rr_n = 2, rr_Oracle = example_oracle, rr_Probes = [example_oracle, example_oracle],
     rr_Lib = example_lib, rr_Keys = [''alice'' \<mapsto> 1, ''bob'' \<mapsto> 2], rr_AccountNums = (\<lambda>_. 0),
     rr_PackageBuilders = Map.empty\<rparr>"

lemma example_rr_run:
  "run_app h [[0, 1, 9]] example_oracle w =
     (Ok (example_response, (NewBlockObserver 1 [])\<lparr>ob_writeSets := [[composite_key ''bank'' [1]]]\<rparr>), Suc w)"
  by (simp add: run_app_def example_oracle_def NewBlockObserver_def OnTxStart_def OnKVWrite_def OnTxEnd_def
      go_nth_def go_update_def Let_def take_snapshots_def)

lemma example_rr_build:
  "build_txs (rr_Lib example_rr) (rr_Keys example_rr) (rr_AccountNums example_rr) Map.empty (rr_PackageBuilders example_rr)
     (bl_Txs example_block) (\<lambda>_. 0) = (Ok [[0, 1, 9]], (\<lambda>_. 0)(''alice'' := 1))"
  by (simp add: example_rr_def example_defs buildTx_def tx_msgs_def Let_def)

theorem repeat_verdict_pairwise_witness:
  "\<exists>r s w'. repeat_RunBlock example_rr example_block 5 (\<lambda>_. 0, 0) = (Ok r, s, w') \<and> r_Verdict r = Match"
proof -
  let ?ob = "(NewBlockObserver 1 [] :: nat BlockObserver)\<lparr>ob_writeSets := [[composite_key ''bank'' [1]]]\<rparr>"
  let ?run = "(example_response, ?ob)"
  have apps: "rr_Oracle example_rr = example_oracle" "rr_Probes example_rr = [example_oracle, example_oracle]"
    by (simp_all add: example_rr_def)
  have c: "commit_all example_oracle [example_oracle, example_oracle] w = (Ok (), w)" for w
    by (simp add: commit_all_def example_oracle_def)
  have p: "run_probes 5 [[0, 1, 9]] 0 [example_oracle, example_oracle] 1 = (Ok [?run, ?run], 3)"
    by (simp add: example_rr_run)
  obtain r where e: "repeat_RunBlock example_rr example_block 5 (\<lambda>_. 0, 0) = (Ok r, (\<lambda>_. 0)(''alice'' := 1), 3)"
    by (simp add: repeat_RunBlock_def example_rr_build apps example_rr_run c Let_def)
  obtain txs ora w1 prbs w2 where
      b: "build_txs (rr_Lib example_rr) (rr_Keys example_rr) (rr_AccountNums example_rr) Map.empty
        (rr_PackageBuilders example_rr) (bl_Txs example_block) (\<lambda>_. 0) = (Ok txs, (\<lambda>_. 0)(''alice'' := 1))"
      and o: "run_app 5 txs (rr_Oracle example_rr) 0 = (Ok ora, w1)"
      and q: "run_probes 5 txs 0 (rr_Probes example_rr) w1 = (Ok prbs, w2)"
      and v: "(\<forall>x \<in> set (ora # prbs). length (rs_TxResults (fst x)) = length txs) \<longrightarrow>
        (r_Verdict r = Match \<longleftrightarrow> (\<forall>x \<in> set (ora # prbs). \<forall>y \<in> set (ora # prbs). runs_agree (length txs) x y))"
    using repeat_verdict_pairwise [OF e] by blast
  have "txs = [[0, 1, 9]]" using b by (simp add: example_rr_build)
  then have "ora = ?run" "w1 = 1" using o by (auto simp: apps example_rr_run)
  moreover have "prbs = [?run, ?run]" using q p by (simp add: apps \<open>txs = _\<close> \<open>w1 = 1\<close>)
  ultimately have all: "x = ?run" if "x \<in> set (ora # prbs)" for x using that by auto
  have "\<forall>x \<in> set (ora # prbs). length (rs_TxResults (fst x)) = length txs"
  proof (intro ballI)
    fix x assume "x \<in> set (ora # prbs)"
    then have "x = ?run" by (rule all)
    then show "length (rs_TxResults (fst x)) = length txs" by (simp add: \<open>txs = _\<close> example_response_def)
  qed
  moreover have "\<forall>x \<in> set (ora # prbs). \<forall>y \<in> set (ora # prbs). runs_agree (length txs) x y"
    using all by (metis runs_agree_refl)
  ultimately have "r_Verdict r = Match" using v by blast
  with e show ?thesis by blast
qed

end
