(* ===== verification/Go_State.thy ===== *)
theory Go_State
  imports Executors
begin

text \<open>
  Code that passes a state and may fail: sequencing that stops at the first error or panic, and triples for
  reasoning about it. In a triple \<open>valid P m Q E\<close> the precondition \<open>P\<close> leads to \<open>Q\<close> with the result when
  \<open>m\<close> succeeds and to \<open>E\<close> when it returns an error; after a panic nothing is claimed.
\<close>

section \<open>State passing\<close>

definition st_bind :: "('s \<Rightarrow> 'x go \<times> 's) \<Rightarrow> ('x \<Rightarrow> 's \<Rightarrow> 'y go \<times> 's) \<Rightarrow> 's \<Rightarrow> 'y go \<times> 's" where
  "st_bind m f s = (case m s of (Ok x, s') \<Rightarrow> f x s' | (Err e, s') \<Rightarrow> (Err e, s') | (Panic p, s') \<Rightarrow> (Panic p, s'))"

definition st_lift :: "'x go \<Rightarrow> 's \<Rightarrow> 'x go \<times> 's" where
  "st_lift r s = (r, s)"

definition st_modify :: "('s \<Rightarrow> 's) \<Rightarrow> 's \<Rightarrow> unit go \<times> 's" where
  "st_modify f s = (Ok (), f s)"

definition st_wrap :: "string \<Rightarrow> ('s \<Rightarrow> 'x go \<times> 's) \<Rightarrow> 's \<Rightarrow> 'x go \<times> 's" where
  "st_wrap msg m s = (case m s of (r, s') \<Rightarrow> (wrap_err msg r, s'))"

text \<open>An operation on the memory, run in the pair of executor and memory.\<close>

definition on_world :: "('w \<Rightarrow> 'x go \<times> 'w) \<Rightarrow> 'e \<times> 'w \<Rightarrow> 'x go \<times> 'e \<times> 'w" where
  "on_world m = (\<lambda>(e, w). case m w of (r, w') \<Rightarrow> (r, e, w'))"

lemma st_bind_Ok:
  "st_bind m f s = (Ok y, s2) \<longleftrightarrow> (\<exists>x s1. m s = (Ok x, s1) \<and> f x s1 = (Ok y, s2))"
  by (auto simp: st_bind_def split: prod.splits go.splits)

lemma on_world_frame: "on_world m (e, w) = (r, e', w') \<Longrightarrow> e' = e"
  by (auto simp: on_world_def split: prod.splits)

lemma on_world_Ok: "on_world m (e, w) = (Ok x, s') \<longleftrightarrow> (\<exists>w'. m w = (Ok x, w') \<and> s' = (e, w'))"
  by (auto simp: on_world_def split: prod.splits)

section \<open>Triples\<close>

definition valid :: "('s \<Rightarrow> bool) \<Rightarrow> ('s \<Rightarrow> 'x go \<times> 's) \<Rightarrow> ('x \<Rightarrow> 's \<Rightarrow> bool) \<Rightarrow> ('s \<Rightarrow> bool) \<Rightarrow> bool" where
  "valid P m Q E \<longleftrightarrow> (\<forall>s. P s \<longrightarrow>
     (case m s of (Ok x, s') \<Rightarrow> Q x s' | (Err e, s') \<Rightarrow> E s' | (Panic p, s') \<Rightarrow> True))"

named_theorems triples \<open>rules for triples\<close>

lemma valid_Ok: "valid P m Q E \<Longrightarrow> P s \<Longrightarrow> m s = (Ok x, s') \<Longrightarrow> Q x s'"
  by (auto simp: valid_def split: prod.splits)

lemma valid_Err: "valid P m Q E \<Longrightarrow> P s \<Longrightarrow> m s = (Err e, s') \<Longrightarrow> E s'"
  by (auto simp: valid_def split: prod.splits)

lemma valid_bind [triples]:
  "valid P m Q E \<Longrightarrow> (\<And>x. valid (Q x) (f x) R E) \<Longrightarrow> valid P (st_bind m f) R E"
  by (fastforce simp: valid_def st_bind_def split: prod.splits go.splits)

lemma valid_lift [triples]: "(\<And>s x. P s \<Longrightarrow> r = Ok x \<Longrightarrow> Q x s) \<Longrightarrow> (\<And>s e. P s \<Longrightarrow> r = Err e \<Longrightarrow> E s) \<Longrightarrow>
  valid P (st_lift r) Q E"
  by (cases r) (auto simp: valid_def st_lift_def)

lemma valid_modify [triples]: "(\<And>s. P s \<Longrightarrow> Q () (f s)) \<Longrightarrow> valid P (st_modify f) Q E"
  by (auto simp: valid_def st_modify_def)

lemma valid_wrap [triples]: "valid P m Q E \<Longrightarrow> valid P (st_wrap msg m) Q E"
proof -
  assume v: "valid P m Q E"
  have "case st_wrap msg m s of (Ok x, s') \<Rightarrow> Q x s' | (Err e, s') \<Rightarrow> E s' | (Panic p, s') \<Rightarrow> True" if "P s" for s
  proof -
    obtain r s' where m: "m s = (r, s')" by fastforce
    have "case (r, s') of (Ok x, s') \<Rightarrow> Q x s' | (Err e, s') \<Rightarrow> E s' | (Panic p, s') \<Rightarrow> True"
      using v that m by (auto simp: valid_def)
    then show ?thesis by (cases r) (auto simp: st_wrap_def m)
  qed
  then show ?thesis by (simp add: valid_def)
qed

lemma valid_weaken:
  "valid P' m Q' E' \<Longrightarrow> (\<And>s. P s \<Longrightarrow> P' s) \<Longrightarrow> (\<And>x s. Q' x s \<Longrightarrow> Q x s) \<Longrightarrow> (\<And>s. E' s \<Longrightarrow> E s) \<Longrightarrow> valid P m Q E"
  by (fastforce simp: valid_def split: prod.splits go.splits)

lemma valid_world [triples]:
  "(\<And>e. valid (\<lambda>w. P (e, w)) m (\<lambda>x w. Q x (e, w)) (\<lambda>w. E (e, w))) \<Longrightarrow> valid P (on_world m) Q E"
  by (fastforce simp: valid_def on_world_def split: prod.splits go.splits)

end
