(* ===== verification/Executor_Init.thy ===== *)
theory Executor_Init
  imports Repeat_Run Sdkhook Tracker_Reflect Go_State
begin

text \<open>
  Setting the executors up: \<open>run/signer.go\<close>, \<open>initGenesis\<close>, \<open>Init\<close> and \<open>Close\<close> of \<open>run/executor.go\<close>, and
  \<open>Init\<close> and \<open>Close\<close> of \<open>run/repeat_executor.go\<close>. What the SDK and the chain adapter do is the record
  \<open>InitEnv\<close>: setting up an application, instrumenting it, drawing random numbers, as functions on the memory
  \<open>'w\<close>. \<open>'a\<close> is an application, \<open>'raw\<close> the unwrapped one, \<open>'key\<close> a keeper, \<open>'r\<close> a runner, \<open>'v\<close> a validator
  set. The steps pass the executor and the memory.
\<close>

section \<open>Keys and genesis\<close>

definition DeriveKey :: "(bytes \<Rightarrow> 'k) \<Rightarrow> string \<Rightarrow> 'k" where
  "DeriveKey PrivKey name = PrivKey (sha256 (bytes_of_string (''blockstm-sim:'' @ name)))"

definition sortedAccountNames :: "(string \<times> string) list \<Rightarrow> string list" where
  "sortedAccountNames m = sort (map fst m)"

text \<open>A genesis account: key, account number, coins.\<close>

record ('k, 'c, 'v) genesisSetup =
  gn_keys :: "string \<rightharpoonup> 'k"
  gn_accountNums :: "string \<Rightarrow> u64"
  gn_sequences :: sequences
  gn_GenesisAccounts :: "('k \<times> u64 \<times> 'c) list"
  gn_ValidatorSet :: "'v option"

text \<open>The zero maps; sequences are never written, a missing number is 0.\<close>

definition empty_setup :: "('k, 'c, 'v) genesisSetup" where
  "empty_setup = \<lparr>gn_keys = Map.empty, gn_accountNums = (\<lambda>_. 0), gn_sequences = (\<lambda>_. 0),
     gn_GenesisAccounts = [], gn_ValidatorSet = None\<rparr>"

definition balance_of :: "(string \<times> string) list \<Rightarrow> string \<Rightarrow> string" where
  "balance_of accounts name = (case map_of accounts name of None \<Rightarrow> '''' | Some b \<Rightarrow> b)"

fun genesis_loop ::
  "(string \<Rightarrow> 'k) \<Rightarrow> (string \<Rightarrow> 'c go) \<Rightarrow> (string \<times> string) list \<Rightarrow> nat \<Rightarrow> string list \<Rightarrow>
   ('k, 'c, 'v) genesisSetup \<Rightarrow> ('k, 'c, 'v) genesisSetup go" where
  "genesis_loop derive parse accounts i [] gs = Ok gs"
| "genesis_loop derive parse accounts i (name # names) gs =
     go_bind (wrap_err (''parse balance for '' @ name) (parse (balance_of accounts name))) (\<lambda>coins.
       genesis_loop derive parse accounts (Suc i) names
         (gs\<lparr>gn_keys := (gn_keys gs)(name \<mapsto> derive name),
             gn_accountNums := (gn_accountNums gs)(name := of_nat i),
             gn_GenesisAccounts := gn_GenesisAccounts gs @ [(derive name, of_nat i, coins)]\<rparr>))"

definition initGenesis ::
  "(string \<Rightarrow> 'k) \<Rightarrow> (string \<Rightarrow> 'c go) \<Rightarrow> ('w \<Rightarrow> 'v go \<times> 'w) \<Rightarrow> GenesisSpec \<Rightarrow> 'w \<Rightarrow> ('k, 'c, 'v) genesisSetup go \<times> 'w" where
  "initGenesis derive parse valset genesis =
     st_bind (st_lift (genesis_loop derive parse (gs_Accounts genesis) 0
                         (sortedAccountNames (gs_Accounts genesis)) empty_setup)) (\<lambda>gs.
     st_bind (st_wrap ''create validator set'' valset) (\<lambda>v.
     st_lift (Ok (gs\<lparr>gn_ValidatorSet := Some v\<rparr>))))"

section \<open>The environment\<close>

type_synonym ('a, 'raw, 'w) AppFactory = "bool \<Rightarrow> 'w \<Rightarrow> ('a \<times> 'raw) go \<times> 'w"

text \<open>The boolean of a factory and of the setup: outputs are wanted (the oracle), or not (a probe).\<close>

record ('w, 'a, 'raw, 'key, 'r, 'k, 'c, 'v) InitEnv =
  ev_Hooks :: "('raw, 'key, 'a, 'a \<times> int \<times> int, 'r, 'w) hooks"
  ev_Derive :: "string \<Rightarrow> 'k"
  ev_ParseCoins :: "string \<Rightarrow> 'c go"
  ev_ValidatorSet :: "'w \<Rightarrow> 'v go \<times> 'w"
  ev_Int63 :: "'w \<Rightarrow> int go \<times> 'w"
  ev_PreOracleSetup :: "('w \<Rightarrow> 'w) option"
  ev_Setup :: "('k, 'c, 'v) genesisSetup \<Rightarrow> bool \<Rightarrow> 'w \<Rightarrow> 'raw go \<times> 'w"
  ev_InstrumentSTM :: "'a \<Rightarrow> 'r \<Rightarrow> 'w \<Rightarrow> 'w"
  ev_Unset :: "'a \<Rightarrow> 'w \<Rightarrow> 'w"
  ev_Tracker :: "'key \<Rightarrow> 'w MutationTracker"

text \<open>\<open>initApp\<close>: a new application over an empty database, wrapped.\<close>

definition initApp ::
  "('w, 'a, 'raw, 'key, 'r, 'k, 'c, 'v) InitEnv \<Rightarrow> ('k, 'c, 'v) genesisSetup \<Rightarrow> bool \<Rightarrow> 'w \<Rightarrow> ('a \<times> 'raw) go \<times> 'w" where
  "initApp env gs outputs =
     st_bind (ev_Setup env gs outputs) (\<lambda>raw.
     st_bind (st_lift (WrapApp raw (ev_Hooks env))) (\<lambda>app. st_lift (Ok (app, raw))))"

definition setup_app ::
  "('w, 'a, 'raw, 'key, 'r, 'k, 'c, 'v) InitEnv \<Rightarrow> ('a, 'raw, 'w) AppFactory option \<Rightarrow> ('k, 'c, 'v) genesisSetup \<Rightarrow>
   bool \<Rightarrow> string \<Rightarrow> 'w \<Rightarrow> ('a \<times> 'raw) go \<times> 'w" where
  "setup_app env factory gs outputs msg =
     st_wrap msg (case factory of Some f \<Rightarrow> f outputs | None \<Rightarrow> initApp env gs outputs)"

definition install_runner ::
  "('w, 'a, 'raw, 'key, 'r, 'k, 'c, 'v) InitEnv \<Rightarrow> 'a \<Rightarrow> int \<Rightarrow> int \<Rightarrow> 'w \<Rightarrow> unit go \<times> 'w" where
  "install_runner env app workers seed =
     st_bind (st_lift (NewSTMRunner (app, workers, seed) (ev_Hooks env))) (\<lambda>runner.
     st_modify (ev_InstrumentSTM env app runner))"

definition discovered_trackers :: "('w, 'a, 'raw, 'key, 'r, 'k, 'c, 'v) InitEnv \<Rightarrow> 'raw \<Rightarrow> 'w MutationTracker list" where
  "discovered_trackers env raw =
     filter (\<lambda>t. \<not> ShouldSkipTracker (tk_Name t)) (map (ev_Tracker env) (DiscoverKeepers raw (ev_Hooks env)))"

section \<open>The fixture executor\<close>

record ('w, 'a, 'raw, 'k) FixtureState =
  fx_oracle :: "'a option"
  fx_probe :: "'a option"
  fx_keys :: "string \<rightharpoonup> 'k"
  fx_accountNums :: "string \<Rightarrow> u64"
  fx_sequences :: sequences
  fx_oracleWorkers :: int
  fx_oracleTrackers :: "'w MutationTracker list"
  fx_appFactory :: "('a, 'raw, 'w) AppFactory option"
  fx_appFactoryFn :: "(GenesisSpec \<Rightarrow> ('a, 'raw, 'w) AppFactory option) option"

definition NewFixtureState :: "('w, 'a, 'raw, 'k) FixtureState" where
  "NewFixtureState = \<lparr>fx_oracle = None, fx_probe = None, fx_keys = Map.empty, fx_accountNums = (\<lambda>_. 0),
     fx_sequences = (\<lambda>_. 0), fx_oracleWorkers = 0, fx_oracleTrackers = [], fx_appFactory = None,
     fx_appFactoryFn = None\<rparr>"

definition NewFixtureExecutor ::
  "(('w, 'a, 'raw, 'k) FixtureState \<Rightarrow> ('w, 'a, 'raw, 'k) FixtureState) list \<Rightarrow> ('w, 'a, 'raw, 'k) FixtureState" where
  "NewFixtureExecutor opts = fold (\<lambda>opt. opt) opts NewFixtureState"

definition WithSTMOracle :: "int \<Rightarrow> ('w, 'a, 'raw, 'k) FixtureState \<Rightarrow> ('w, 'a, 'raw, 'k) FixtureState" where
  "WithSTMOracle workers e = e\<lparr>fx_oracleWorkers := workers\<rparr>"

definition WithAppFactory ::
  "('a, 'raw, 'w) AppFactory option \<Rightarrow> ('w, 'a, 'raw, 'k) FixtureState \<Rightarrow> ('w, 'a, 'raw, 'k) FixtureState" where
  "WithAppFactory f e = e\<lparr>fx_appFactory := f\<rparr>"

definition WithAppFactoryFunc ::
  "(GenesisSpec \<Rightarrow> ('a, 'raw, 'w) AppFactory option) option \<Rightarrow> ('w, 'a, 'raw, 'k) FixtureState \<Rightarrow>
   ('w, 'a, 'raw, 'k) FixtureState" where
  "WithAppFactoryFunc fn e = e\<lparr>fx_appFactoryFn := fn\<rparr>"

definition bind_factory :: "GenesisSpec \<Rightarrow> ('w, 'a, 'raw, 'k) FixtureState \<Rightarrow> ('w, 'a, 'raw, 'k) FixtureState" where
  "bind_factory genesis e =
     (case fx_appFactoryFn e of Some fn \<Rightarrow> e\<lparr>fx_appFactory := fn genesis\<rparr> | None \<Rightarrow> e)"

definition fixture_Init ::
  "('w, 'a, 'raw, 'key, 'r, 'k, 'c, 'v) InitEnv \<Rightarrow> GenesisSpec \<Rightarrow> ('w, 'a, 'raw, 'k) FixtureState \<times> 'w \<Rightarrow>
   unit go \<times> ('w, 'a, 'raw, 'k) FixtureState \<times> 'w" where
  "fixture_Init env genesis = (\<lambda>(e0, w0).
     let e = bind_factory genesis e0 in
     st_bind (on_world (initGenesis (ev_Derive env) (ev_ParseCoins env) (ev_ValidatorSet env) genesis)) (\<lambda>gs.
     st_bind (on_world (st_modify (case ev_PreOracleSetup env of Some f \<Rightarrow> f | None \<Rightarrow> (\<lambda>w. w)))) (\<lambda>_.
     st_bind (on_world (setup_app env (fx_appFactory e) gs True ''setup oracle app'')) (\<lambda>(oracle, raw).
     st_bind (on_world (install_runner env oracle
                (if fx_oracleWorkers e = 0 then 1 else fx_oracleWorkers e) 0)) (\<lambda>_.
     st_bind (st_modify (\<lambda>(e1, w). (e1\<lparr>fx_oracleTrackers := fx_oracleTrackers e1 @ discovered_trackers env raw\<rparr>, w))) (\<lambda>_.
     st_bind (on_world (setup_app env (fx_appFactory e) gs False ''setup probe app'')) (\<lambda>(probe, _).
     st_bind (on_world (ev_Int63 env)) (\<lambda>seed.
     st_bind (on_world (install_runner env probe 4 seed)) (\<lambda>_.
     st_modify (\<lambda>(e1, w). (e1\<lparr>fx_oracle := Some oracle, fx_probe := Some probe, fx_keys := gn_keys gs,
       fx_accountNums := gn_accountNums gs, fx_sequences := gn_sequences gs\<rparr>, w)))))))))) (e, w0))"

definition fixture_Close :: "('w, 'a, 'raw, 'k) FixtureState \<Rightarrow> ('w, 'a, 'raw, 'k) FixtureState" where
  "fixture_Close e = e\<lparr>fx_oracle := None, fx_probe := None, fx_keys := Map.empty, fx_accountNums := (\<lambda>_. 0),
     fx_sequences := (\<lambda>_. 0), fx_oracleTrackers := []\<rparr>"

section \<open>The repeat-run executor\<close>

record ('a, 'k) RepeatState =
  rs_n :: int
  rs_oracle :: "'a option"
  rs_probes :: "'a list"
  rs_keys :: "string \<rightharpoonup> 'k"
  rs_accountNums :: "string \<Rightarrow> u64"
  rs_sequences :: sequences

definition NewRepeatRunExecutor :: "int \<Rightarrow> ('a, 'k) RepeatState" where
  "NewRepeatRunExecutor n = \<lparr>rs_n = clamp_probes n, rs_oracle = None, rs_probes = [], rs_keys = Map.empty,
     rs_accountNums = (\<lambda>_. 0), rs_sequences = (\<lambda>_. 0)\<rparr>"

definition setup_probe_msg :: "nat \<Rightarrow> string" where
  "setup_probe_msg i = ''setup probe app '' @ nat_digits i"

fun init_probes ::
  "('w, 'a, 'raw, 'key, 'r, 'k, 'c, 'v) InitEnv \<Rightarrow> ('k, 'c, 'v) genesisSetup \<Rightarrow> nat \<Rightarrow> probeConfig list \<Rightarrow> 'w \<Rightarrow>
   'a list go \<times> 'w" where
  "init_probes env gs i [] = st_lift (Ok [])"
| "init_probes env gs i (c # cs) =
     st_bind (st_wrap (setup_probe_msg i) (initApp env gs False)) (\<lambda>(app, _).
     st_bind (install_runner env app (pc_workers c) (pc_seed c)) (\<lambda>_.
     st_bind (init_probes env gs (Suc i) cs) (\<lambda>apps. st_lift (Ok (app # apps)))))"

definition repeat_Init ::
  "('w, 'a, 'raw, 'key, 'r, 'k, 'c, 'v) InitEnv \<Rightarrow> GenesisSpec \<Rightarrow> ('a, 'k) RepeatState \<times> 'w \<Rightarrow>
   unit go \<times> ('a, 'k) RepeatState \<times> 'w" where
  "repeat_Init env genesis =
     st_bind (on_world (initGenesis (ev_Derive env) (ev_ParseCoins env) (ev_ValidatorSet env) genesis)) (\<lambda>gs.
     st_bind (on_world (st_wrap ''setup oracle app'' (initApp env gs True))) (\<lambda>(oracle, _).
     st_bind (on_world (st_modify (ev_Unset env oracle))) (\<lambda>_.
     (\<lambda>(e, w). st_bind (on_world (init_probes env gs 0 (generateProbeConfigs (rs_n e)))) (\<lambda>probes.
     st_modify (\<lambda>(e1, w1). (e1\<lparr>rs_oracle := Some oracle, rs_probes := probes, rs_keys := gn_keys gs,
       rs_accountNums := gn_accountNums gs, rs_sequences := gn_sequences gs\<rparr>, w1))) (e, w)))))"

definition repeat_Close :: "('a, 'k) RepeatState \<Rightarrow> ('a, 'k) RepeatState" where
  "repeat_Close e = e\<lparr>rs_oracle := None, rs_probes := [], rs_keys := Map.empty, rs_accountNums := (\<lambda>_. 0),
     rs_sequences := (\<lambda>_. 0)\<rparr>"

section \<open>Facts about the genesis\<close>

lemma genesis_loop_Ok:
  "genesis_loop derive parse accounts i names gs = Ok gs' \<Longrightarrow> distinct names \<Longrightarrow>
   (\<exists>coins. length coins = length names \<and>
      (\<forall>j < length names. parse (balance_of accounts (names ! j)) = Ok (coins ! j)) \<and>
      gn_GenesisAccounts gs' = gn_GenesisAccounts gs @
        map (\<lambda>j. (derive (names ! j), of_nat (i + j), coins ! j)) [0..<length names]) \<and>
   gn_keys gs' = (\<lambda>n. if n \<in> set names then Some (derive n) else gn_keys gs n) \<and>
   (\<forall>j < length names. gn_accountNums gs' (names ! j) = of_nat (i + j)) \<and>
   (\<forall>n. n \<notin> set names \<longrightarrow> gn_accountNums gs' n = gn_accountNums gs n) \<and>
   gn_sequences gs' = gn_sequences gs"
proof (induction names arbitrary: i gs)
  case (Cons name names)
  let ?gs1 = "\<lambda>c. gs\<lparr>gn_keys := (gn_keys gs)(name \<mapsto> derive name),
             gn_accountNums := (gn_accountNums gs)(name := of_nat i),
             gn_GenesisAccounts := gn_GenesisAccounts gs @ [(derive name, of_nat i, c)]\<rparr>"
  obtain c where c: "parse (balance_of accounts name) = Ok c"
      and r: "genesis_loop derive parse accounts (Suc i) names (?gs1 c) = Ok gs'"
    using Cons.prems(1) by (auto simp: go_bind_eq_Ok)
  have d: "distinct names" "name \<notin> set names" using Cons.prems(2) by auto
  note ih = Cons.IH [OF r d(1)]
  from ih obtain coins where co: "length coins = length names"
      "\<forall>j < length names. parse (balance_of accounts (names ! j)) = Ok (coins ! j)"
      "gn_GenesisAccounts gs' = gn_GenesisAccounts (?gs1 c) @
        map (\<lambda>j. (derive (names ! j), of_nat (Suc i + j), coins ! j)) [0..<length names]"
    by blast
  have ups: "[0..<length (name # names)] = 0 # map Suc [0..<length names]"
    by (simp add: map_Suc_upt upt_conv_Cons del: upt_Suc)
  have "\<exists>coins. length coins = length (name # names) \<and>
      (\<forall>j < length (name # names). parse (balance_of accounts ((name # names) ! j)) = Ok (coins ! j)) \<and>
      gn_GenesisAccounts gs' = gn_GenesisAccounts gs @
        map (\<lambda>j. (derive ((name # names) ! j), of_nat (i + j), coins ! j)) [0..<length (name # names)]"
    unfolding ups using c co by (intro exI [of _ "c # coins"]) (auto simp: nth_Cons split: nat.split)
  moreover have "\<forall>j < length (name # names). gn_accountNums gs' ((name # names) ! j) = of_nat (i + j)"
    using ih d by (auto simp: nth_Cons split: nat.split)
  ultimately show ?case using ih d by (auto simp: fun_eq_iff)
qed simp

lemma sortedAccountNames_perm: "mset a = mset b \<Longrightarrow> sortedAccountNames a = sortedAccountNames b"
  unfolding sortedAccountNames_def by (metis mset_map properties_for_sort mset_sort sorted_sort)

lemma balance_of_perm:
  assumes "distinct (map fst a)" "mset a = mset b"
  shows "balance_of a = balance_of b"
proof -
  have "distinct (map fst b)" using assms by (metis mset_eq_imp_distinct_iff mset_map)
  moreover have "set a = set b" using assms(2) by (rule mset_eq_setD)
  ultimately have "map_of a = map_of b" using map_of_inject_set [of a b] assms(1) by blast
  then show ?thesis by (simp add: balance_of_def fun_eq_iff)
qed

lemma genesis_loop_cong:
  "balance_of a = balance_of b \<Longrightarrow> genesis_loop derive parse a i names gs = genesis_loop derive parse b i names gs"
  by (induction names arbitrary: i gs) simp_all

lemma initGenesis_Ok:
  "initGenesis derive parse valset genesis w = (Ok gs, w') \<longleftrightarrow>
     (\<exists>gs0 v. genesis_loop derive parse (gs_Accounts genesis) 0 (sortedAccountNames (gs_Accounts genesis)) empty_setup = Ok gs0 \<and>
        valset w = (Ok v, w') \<and> gs = gs0\<lparr>gn_ValidatorSet := Some v\<rparr>)"
  by (auto simp: initGenesis_def st_bind_Ok st_lift_def st_wrap_def split: prod.splits)

section \<open>Facts about \<open>Init\<close>\<close>

text \<open>What each step does to the executor: the steps on the memory leave it alone, so an \<open>Init\<close> that fails
  leaves the trackers it has collected so far.\<close>

text \<open>The stages of \<open>Init\<close> up to the probe: the genesis, the oracle with its runner.\<close>

definition oracle_stages ::
  "('w, 'a, 'raw, 'key, 'r, 'k, 'c, 'v) InitEnv \<Rightarrow> GenesisSpec \<Rightarrow> ('w, 'a, 'raw, 'k) FixtureState \<Rightarrow> 'w \<Rightarrow>
   ('k, 'c, 'v) genesisSetup \<Rightarrow> 'a \<Rightarrow> 'raw \<Rightarrow> 'w \<Rightarrow> bool" where
  "oracle_stages env genesis e w gs oracle raw w3 \<longleftrightarrow>
     (\<exists>w1 w2. initGenesis (ev_Derive env) (ev_ParseCoins env) (ev_ValidatorSet env) genesis w = (Ok gs, w1) \<and>
        setup_app env (fx_appFactory (bind_factory genesis e)) gs True ''setup oracle app''
          (case ev_PreOracleSetup env of Some f \<Rightarrow> f w1 | None \<Rightarrow> w1) = (Ok (oracle, raw), w2) \<and>
        install_runner env oracle (if fx_oracleWorkers e = 0 then 1 else fx_oracleWorkers e) 0 w2 = (Ok (), w3))"

lemma bind_factory_frame [simp]:
  "fx_oracleTrackers (bind_factory genesis e) = fx_oracleTrackers e"
  "fx_oracleWorkers (bind_factory genesis e) = fx_oracleWorkers e"
  "fx_oracle (bind_factory genesis e) = fx_oracle e"
  by (simp_all add: bind_factory_def split: option.split)

lemma pre_setup: "(case p of None \<Rightarrow> \<lambda>w. w | Some f \<Rightarrow> f) w = (case p of Some f \<Rightarrow> f w | None \<Rightarrow> w)"
  by (simp split: option.split)

lemma fixture_Init_Ok:
  "fixture_Init env genesis (e, w) = (Ok u, e', w') \<longleftrightarrow>
     (\<exists>gs oracle raw w3 probe rawp w4 seed w5. oracle_stages env genesis e w gs oracle raw w3 \<and>
        setup_app env (fx_appFactory (bind_factory genesis e)) gs False ''setup probe app'' w3 = (Ok (probe, rawp), w4) \<and>
        ev_Int63 env w4 = (Ok seed, w5) \<and> install_runner env probe 4 seed w5 = (Ok (), w') \<and>
        e' = (bind_factory genesis e)\<lparr>fx_oracleTrackers := fx_oracleTrackers e @ discovered_trackers env raw,
          fx_oracle := Some oracle, fx_probe := Some probe, fx_keys := gn_keys gs,
          fx_accountNums := gn_accountNums gs, fx_sequences := gn_sequences gs\<rparr>)"
  by (auto simp: fixture_Init_def oracle_stages_def Let_def st_bind_Ok on_world_Ok st_modify_def pre_setup split: prod.splits)

lemma fixture_Init_probe_fails:
  assumes "oracle_stages env genesis e w gs oracle raw w3"
    "setup_app env (fx_appFactory (bind_factory genesis e)) gs False ''setup probe app'' w3 = (Err x, w4)"
  shows "fixture_Init env genesis (e, w) = (Err x,
    (bind_factory genesis e)\<lparr>fx_oracleTrackers := fx_oracleTrackers e @ discovered_trackers env raw\<rparr>, w4)"
  using assms
  by (auto simp: fixture_Init_def oracle_stages_def Let_def st_bind_def on_world_def st_modify_def pre_setup split: prod.splits)

lemma fixture_Init_appends:
  "fixture_Init env genesis (e, w) = (Ok (), e', w') \<and> oracle_stages env genesis e w gs oracle raw w3 \<Longrightarrow>
   fx_oracleTrackers e' = fx_oracleTrackers e @ discovered_trackers env raw"
  by (auto simp: fixture_Init_Ok oracle_stages_def)

section \<open>Properties\<close>

text \<open>Genesis: the accounts are numbered by the alphabetical order of their names, whatever order the
  map of accounts is ranged over in; the genesis account of each number carries the key and the parsed
  balance of that name, and the executor signs for each name with exactly that key and number, from
  sequence 0.\<close>

theorem genesis_accounts_numbered:
  assumes "distinct (map fst (gs_Accounts genesis))" "mset accounts = mset (gs_Accounts genesis)"
    and "initGenesis derive parse valset genesis w = (Ok gs, w')"
  shows "initGenesis derive parse valset \<lparr>gs_Accounts = accounts\<rparr> w = (Ok gs, w') \<and>
    (let names = sortedAccountNames (gs_Accounts genesis) in
      length (gn_GenesisAccounts gs) = length names \<and>
      dom (gn_keys gs) = set (map fst (gs_Accounts genesis)) \<and> gn_sequences gs = (\<lambda>_. 0) \<and>
      (\<forall>i < length names. gn_keys gs (names ! i) = Some (derive (names ! i)) \<and>
        gn_accountNums gs (names ! i) = of_nat i \<and>
        (\<exists>coins. parse (balance_of (gs_Accounts genesis) (names ! i)) = Ok coins \<and>
           gn_GenesisAccounts gs ! i = (derive (names ! i), of_nat i, coins))))"
proof -
  let ?names = "sortedAccountNames (gs_Accounts genesis)"
  obtain gs0 v where l: "genesis_loop derive parse (gs_Accounts genesis) 0 ?names empty_setup = Ok gs0"
      and v: "valset w = (Ok v, w')" and gs: "gs = gs0\<lparr>gn_ValidatorSet := Some v\<rparr>"
    using assms(3) unfolding initGenesis_Ok by blast
  have d: "distinct ?names" and s: "set ?names = set (map fst (gs_Accounts genesis))"
    using assms(1) by (simp_all add: sortedAccountNames_def)
  have "genesis_loop derive parse accounts 0 (sortedAccountNames accounts) empty_setup = Ok gs0"
    using l sortedAccountNames_perm [OF assms(2)] genesis_loop_cong [OF balance_of_perm [OF assms(1) assms(2) [symmetric]]]
    by metis
  then have same: "initGenesis derive parse valset \<lparr>gs_Accounts = accounts\<rparr> w = (Ok gs, w')"
    unfolding initGenesis_Ok using v gs by simp
  note g = genesis_loop_Ok [OF l d]
  from g obtain coins where c: "length coins = length ?names"
      "\<forall>j < length ?names. parse (balance_of (gs_Accounts genesis) (?names ! j)) = Ok (coins ! j)"
      "gn_GenesisAccounts gs0 = map (\<lambda>j. (derive (?names ! j), of_nat j, coins ! j)) [0..<length ?names]"
    by (auto simp: empty_setup_def)
  have k: "gn_keys gs0 = (\<lambda>n. if n \<in> set ?names then Some (derive n) else None)"
      "\<forall>j < length ?names. gn_accountNums gs0 (?names ! j) = of_nat j" "gn_sequences gs0 = (\<lambda>_. 0)"
    using g by (auto simp: empty_setup_def)
  show ?thesis
    using same c k s by (auto simp: gs Let_def dom_def split: if_splits)
qed

text \<open>\<open>Init\<close> and the trackers: an \<open>Init\<close> that succeeds appends the trackers of the oracle's keepers,
  without those of the deny list, to the trackers the executor holds. After \<open>Close\<close> these are exactly its
  trackers. An \<open>Init\<close> that fails while it sets up the probe keeps them although the executor has no
  applications, so that the next one, without a \<open>Close\<close> between, holds the trackers of both oracles.\<close>

theorem init_trackers:
  assumes "oracle_stages env genesis (fixture_Close e) w gs oracle raw w3"
    and "setup_app env (fx_appFactory (bind_factory genesis (fixture_Close e))) gs False ''setup probe app'' w3 = (res, w4)"
  shows "(\<forall>probe rawp seed w5 w6. res = Ok (probe, rawp) \<and> ev_Int63 env w4 = (Ok seed, w5) \<and>
      install_runner env probe 4 seed w5 = (Ok (), w6) \<longrightarrow>
      (\<exists>e'. fixture_Init env genesis (fixture_Close e, w) = (Ok (), e', w6) \<and>
        fx_oracleTrackers e' = discovered_trackers env raw \<and> fx_oracle e' = Some oracle \<and> fx_probe e' = Some probe)) \<and>
    (\<forall>x. res = Err x \<longrightarrow>
      (\<exists>e1. fixture_Init env genesis (fixture_Close e, w) = (Err x, e1, w4) \<and> fx_oracle e1 = None \<and>
        fx_oracleTrackers e1 = discovered_trackers env raw \<and>
        (\<forall>env' genesis' w1 e2 w2 gs' oracle' raw' w3'.
           fixture_Init env' genesis' (e1, w1) = (Ok (), e2, w2) \<and>
           oracle_stages env' genesis' e1 w1 gs' oracle' raw' w3' \<longrightarrow>
           fx_oracleTrackers e2 = discovered_trackers env raw @ discovered_trackers env' raw')))"
proof -
  have c: "fx_oracleTrackers (fixture_Close e) = []" "fx_oracle (fixture_Close e) = None"
    by (simp_all add: fixture_Close_def)
  show ?thesis
  proof (intro conjI allI impI)
    fix probe rawp seed w5 w6
    assume "res = Ok (probe, rawp) \<and> ev_Int63 env w4 = (Ok seed, w5) \<and> install_runner env probe 4 seed w5 = (Ok (), w6)"
    then have "fixture_Init env genesis (fixture_Close e, w) = (Ok (),
        (bind_factory genesis (fixture_Close e))\<lparr>fx_oracleTrackers := fx_oracleTrackers (fixture_Close e) @ discovered_trackers env raw,
          fx_oracle := Some oracle, fx_probe := Some probe, fx_keys := gn_keys gs,
          fx_accountNums := gn_accountNums gs, fx_sequences := gn_sequences gs\<rparr>, w6)"
      unfolding fixture_Init_Ok using assms by blast
    then show "\<exists>e'. fixture_Init env genesis (fixture_Close e, w) = (Ok (), e', w6) \<and>
        fx_oracleTrackers e' = discovered_trackers env raw \<and> fx_oracle e' = Some oracle \<and> fx_probe e' = Some probe"
      by (simp add: c)
  next
    fix x assume "res = Err x"
    let ?e1 = "(bind_factory genesis (fixture_Close e))
        \<lparr>fx_oracleTrackers := fx_oracleTrackers (fixture_Close e) @ discovered_trackers env raw\<rparr>"
    have "fixture_Init env genesis (fixture_Close e, w) = (Err x, ?e1, w4)"
      using fixture_Init_probe_fails [OF assms(1)] assms(2) \<open>res = Err x\<close> by blast
    then show "\<exists>e1. fixture_Init env genesis (fixture_Close e, w) = (Err x, e1, w4) \<and> fx_oracle e1 = None \<and>
        fx_oracleTrackers e1 = discovered_trackers env raw \<and>
        (\<forall>env' genesis' w1 e2 w2 gs' oracle' raw' w3'.
           fixture_Init env' genesis' (e1, w1) = (Ok (), e2, w2) \<and>
           oracle_stages env' genesis' e1 w1 gs' oracle' raw' w3' \<longrightarrow>
           fx_oracleTrackers e2 = discovered_trackers env raw @ discovered_trackers env' raw')"
    proof (intro exI [of _ ?e1] conjI allI impI)
      fix env' genesis' w1 e2 w2 gs' oracle' raw' w3'
      assume "fixture_Init env' genesis' (?e1, w1) = (Ok (), e2, w2) \<and>
        oracle_stages env' genesis' ?e1 w1 gs' oracle' raw' w3'"
      from fixture_Init_appends [OF this]
      show "fx_oracleTrackers e2 = discovered_trackers env raw @ discovered_trackers env' raw'" by (simp add: c)
    qed (simp_all add: c)
  qed
qed

section \<open>Instances\<close>

text \<open>An adapter over a world that counts set-ups; \<open>ok\<close> says whether a probe can be set up.\<close>

definition example_env :: "bool \<Rightarrow> (nat, nat, nat, nat, unit, string, nat, unit) InitEnv" where
  "example_env ok = \<lparr>ev_Hooks = no_hooks\<lparr>keeperDiscoveryFn := Some (\<lambda>raw. [raw]), appWrapFn := Some Suc,
       runnerFactory := Some (\<lambda>_. ())\<rparr>,
     ev_Derive = (\<lambda>name. name), ev_ParseCoins = (\<lambda>s. Ok (length s)), ev_ValidatorSet = (\<lambda>w. (Ok (), w)),
     ev_Int63 = (\<lambda>w. (Ok 7, w)), ev_PreOracleSetup = None,
     ev_Setup = (\<lambda>gs outputs w. if outputs \<or> ok then (Ok w, Suc w) else (Err (ErrMsg ''no probe''), w)),
     ev_InstrumentSTM = (\<lambda>_ _ w. w), ev_Unset = (\<lambda>_ w. w),
     ev_Tracker = (\<lambda>k. \<lparr>tk_Name = ''bank'', tk_Snapshot = (\<lambda>_. [of_nat k]), tk_Setter = None\<rparr>)\<rparr>"

definition example_genesis :: GenesisSpec where
  "example_genesis = \<lparr>gs_Accounts = [(''bob'', ''5''), (''alice'', ''10'')]\<rparr>"

lemma example_names: "sortedAccountNames (gs_Accounts example_genesis) = [''alice'', ''bob'']"
  by (simp add: sortedAccountNames_def example_genesis_def)

lemma example_initGenesis:
  "\<exists>gs. \<forall>w. initGenesis (\<lambda>name. name) (\<lambda>s. Ok (length s)) (\<lambda>w. (Ok (), w)) example_genesis (w :: nat) = (Ok gs, w)"
  by (simp add: initGenesis_Ok example_names)

theorem genesis_accounts_numbered_witness:
  "\<exists>gs w'. initGenesis (\<lambda>name. name) (\<lambda>s. Ok (length s)) (\<lambda>w. (Ok (), w)) example_genesis (0 :: nat) = (Ok gs, w') \<and>
     gn_GenesisAccounts gs ! 1 = (''bob'', 1, 1) \<and>
     initGenesis (\<lambda>name. name) (\<lambda>s. Ok (length s)) (\<lambda>w. (Ok (), w)) \<lparr>gs_Accounts = rev (gs_Accounts example_genesis)\<rparr> 0 = (Ok gs, w')"
proof -
  obtain gs where g: "initGenesis (\<lambda>name. name) (\<lambda>s. Ok (length s)) (\<lambda>w. (Ok (), w)) example_genesis (0 :: nat) = (Ok gs, 0)"
    using example_initGenesis by blast
  have d: "distinct (map fst (gs_Accounts example_genesis))" by (simp add: example_genesis_def)
  have p: "mset (rev (gs_Accounts example_genesis)) = mset (gs_Accounts example_genesis)" by simp
  have b: "balance_of (gs_Accounts example_genesis) ''bob'' = ''5''" by (simp add: balance_of_def example_genesis_def)
  show ?thesis
    using genesis_accounts_numbered [OF d p g] g by (auto simp: Let_def example_names b)
qed

theorem init_trackers_witness:
  "\<exists>e1 e2 w1 w2. fixture_Init (example_env False) example_genesis (fixture_Close NewFixtureState, 0) =
       (Err (ErrWrap ''setup probe app'' (ErrMsg ''no probe'')), e1, w1) \<and>
     fixture_Init (example_env True) example_genesis (e1, w1) = (Ok (), e2, w2) \<and>
     length (fx_oracleTrackers e2) = 2"
proof -
  obtain gs where g: "\<And>w. initGenesis (\<lambda>name. name) (\<lambda>s. Ok (length s)) (\<lambda>w. (Ok (), w)) example_genesis (w :: nat) = (Ok gs, w)"
    using example_initGenesis by blast
  let ?e = "fixture_Close NewFixtureState :: (nat, nat, nat, string) FixtureState" and ?x = "ErrWrap ''setup probe app'' (ErrMsg ''no probe'')"
  have st: "oracle_stages (example_env b) example_genesis e w gs (Suc w) w (Suc w)"
    if "fx_appFactoryFn e = None" "fx_appFactory e = None" for b e w
    using that by (simp add: oracle_stages_def example_env_def g setup_app_def initApp_def st_bind_def st_wrap_def st_lift_def
        WrapApp_def install_runner_def NewSTMRunner_def st_modify_def no_hooks_def bind_factory_def)
  have tr: "length (discovered_trackers (example_env b) w) = 1" for b w
    by (simp add: discovered_trackers_def example_env_def DiscoverKeepers_def no_hooks_def ShouldSkipTracker_def
        denyTrackerPrefixes_def has_prefix_def)
  have n: "fx_appFactoryFn ?e = None" "fx_appFactory ?e = None"
    by (simp_all add: fixture_Close_def NewFixtureState_def)
  have pf: "setup_app (example_env False) (fx_appFactory (bind_factory example_genesis ?e)) gs False
      ''setup probe app'' 1 = (Err ?x, 1)"
    by (simp add: example_env_def setup_app_def initApp_def st_bind_def st_wrap_def bind_factory_def n)
  have st0: "oracle_stages (example_env False) example_genesis ?e 0 gs 1 0 1" using st [OF n, of False 0] by simp
  let ?e1 = "(bind_factory example_genesis ?e)\<lparr>fx_oracleTrackers := fx_oracleTrackers ?e @ discovered_trackers (example_env False) 0\<rparr>"
  have f1: "fixture_Init (example_env False) example_genesis (?e, 0) = (Err ?x, ?e1, 1)"
    by (rule fixture_Init_probe_fails [OF st0 pf])
  have n1: "fx_appFactoryFn ?e1 = None" "fx_appFactory ?e1 = None" by (simp_all add: bind_factory_def n)
  have "\<exists>e2 w2. fixture_Init (example_env True) example_genesis (?e1, 1) = (Ok (), e2, w2)"
    unfolding fixture_Init_Ok using st [OF n1, of True 1] n1
    by (fastforce simp: setup_app_def initApp_def st_bind_def st_wrap_def st_lift_def WrapApp_def install_runner_def
        NewSTMRunner_def st_modify_def example_env_def no_hooks_def bind_factory_def)
  then obtain e2 w2 where f2: "fixture_Init (example_env True) example_genesis (?e1, 1) = (Ok (), e2, w2)" by blast
  have "fx_oracleTrackers e2 = discovered_trackers (example_env False) 0 @ discovered_trackers (example_env True) 1"
    using init_trackers [OF st0 pf] f1 f2 st [OF n1, of True 1] by (metis prod.inject)
  then show ?thesis using f1 f2 tr by (intro exI [of _ ?e1] exI) auto
qed

end
