(* ===== verification/Snapshot_Run.thy ===== *)
theory Snapshot_Run
  imports Executor_Init
begin

text \<open>
  \<open>run/snapshot_executor.go\<close> and \<open>run/prune.go\<close>: the executor that replays blocks over copies of a
  snapshot. A directory is a tree of files with permissions, in the order \<open>os.ReadDir\<close> gives; which system
  calls fail, and how, is the argument \<open>sys\<close>. The multistore in \<open>application.db\<close> is the SDK's: opening it,
  creating an application over it and its three operations are the record \<open>StoreOps\<close>, functions on the tree
  of the database. The world is the snapshot's database, the temporary directories with their copies, and
  the open handles. A \<open>panic\<close> of an adapter unwinds without any cleaning up, as in the code.
\<close>

section \<open>Directories\<close>

datatype fnode = File nat bytes | Dir nat "(string \<times> fnode) list"

datatype sys_call = SysStat | SysMkdirAll | SysReadDir | SysOpen | SysCreate | SysCopy | SysClose | SysMkdirTemp | SysOpenDB

type_synonym sys = "sys_call \<Rightarrow> string \<Rightarrow> go_error option"

definition call :: "sys \<Rightarrow> sys_call \<Rightarrow> string \<Rightarrow> unit go" where
  "call sys c path = (case sys c path of None \<Rightarrow> Ok () | Some e \<Rightarrow> Err e)"

definition path_join :: "string \<Rightarrow> string \<Rightarrow> string" where
  "path_join a b = a @ ''/'' @ b"

text \<open>\<open>copyFile\<close> and \<open>copyDir\<close> return the tree they create; on an error the partial tree is left behind,
  inside a directory that the caller removes, and is not part of the result.\<close>

definition copyFile :: "sys \<Rightarrow> string \<Rightarrow> string \<Rightarrow> nat \<Rightarrow> bytes \<Rightarrow> fnode go" where
  "copyFile sys src dst perm content =
     go_bind (call sys SysOpen src) (\<lambda>_.
     go_bind (call sys SysStat src) (\<lambda>_.
     go_bind (call sys SysCreate dst) (\<lambda>_.
     go_bind (call sys SysCopy dst) (\<lambda>_.
     go_bind (call sys SysClose dst) (\<lambda>_. Ok (File perm content))))))"

fun copyDir :: "sys \<Rightarrow> string \<Rightarrow> string \<Rightarrow> fnode \<Rightarrow> fnode go"
  and copyEntries :: "sys \<Rightarrow> string \<Rightarrow> string \<Rightarrow> (string \<times> fnode) list \<Rightarrow> (string \<times> fnode) list go" where
  "copyDir sys src dst (File perm content) =
     go_bind (call sys SysStat src) (\<lambda>_. Err (ErrMsg (src @ '': not a directory'')))"
| "copyDir sys src dst (Dir perm entries) =
     go_bind (call sys SysStat src) (\<lambda>_.
     go_bind (call sys SysMkdirAll dst) (\<lambda>_.
     go_bind (call sys SysReadDir src) (\<lambda>_.
     go_bind (copyEntries sys src dst entries) (\<lambda>es. Ok (Dir perm es)))))"
| "copyEntries sys src dst [] = Ok []"
| "copyEntries sys src dst ((name, node) # rest) =
     go_bind (case node of
         Dir perm entries \<Rightarrow> copyDir sys (path_join src name) (path_join dst name) node
       | File perm content \<Rightarrow> copyFile sys (path_join src name) (path_join dst name) perm content) (\<lambda>n.
     go_bind (copyEntries sys src dst rest) (\<lambda>ns. Ok ((name, n) # ns)))"

section \<open>The multistore\<close>

record StoreOps =
  so_LatestVersion :: "fnode \<Rightarrow> int"
  so_LoadVersion :: "int \<Rightarrow> fnode \<Rightarrow> unit go \<times> fnode"
  so_RollbackToVersion :: "int \<Rightarrow> fnode \<Rightarrow> unit go \<times> fnode"

definition loadAndTruncate :: "StoreOps \<Rightarrow> int \<Rightarrow> fnode \<Rightarrow> unit go \<times> fnode" where
  "loadAndTruncate ops loadVersion db =
     (let dbLatest = so_LatestVersion ops db in
      case so_LoadVersion ops loadVersion db of
        (Ok _, db1) \<Rightarrow>
          (if 0 < loadVersion \<and> loadVersion < dbLatest
           then st_wrap ''RollbackToVersion'' (so_RollbackToVersion ops loadVersion) db1
           else (Ok (), db1))
      | (r, db1) \<Rightarrow> (wrap_err ''LoadVersion'' r, db1))"

section \<open>The executor\<close>

text \<open>The world: the snapshot's database (\<open>None\<close>: the path does not exist), the temporary directories, the
  open handles by directory, and a counter for the names of new directories.\<close>

record snap_world =
  sw_source :: "fnode option"
  sw_temps :: "(string \<times> fnode) list"
  sw_open :: "string list"
  sw_next :: nat

text \<open>An application is named by the directory of its database. \<open>sf_create\<close> creates one over a database,
  \<open>sf_trackers\<close> are the trackers of its keepers.\<close>

record 'w snap_factory =
  sf_create :: "bool \<Rightarrow> fnode \<Rightarrow> unit go \<times> fnode"
  sf_trackers :: "'w MutationTracker list"

record 'w SnapshotState =
  sx_oracle :: "string option"
  sx_probe :: "string option"
  sx_oracleTrackers :: "'w MutationTracker list"
  sx_appFactoryFn :: "(GenesisSpec \<Rightarrow> 'w snap_factory) option"
  sx_oracleDB :: "string option"
  sx_probeDB :: "string option"
  sx_oracleDBTemp :: string
  sx_probeDBTemp :: string

definition NewSnapshotExecutor :: "(GenesisSpec \<Rightarrow> 'w snap_factory) option \<Rightarrow> 'w SnapshotState" where
  "NewSnapshotExecutor fn = \<lparr>sx_oracle = None, sx_probe = None, sx_oracleTrackers = [], sx_appFactoryFn = fn,
     sx_oracleDB = None, sx_probeDB = None, sx_oracleDBTemp = '''', sx_probeDBTemp = ''''\<rparr>"

definition snapshot_Init :: "GenesisSpec \<Rightarrow> unit go" where
  "snapshot_Init _ = Err (ErrMsg (''SnapshotExecutor does not support Init; use a SnapshotCorpus which triggers ''
     @ ''InitFromState''))"

text \<open>\<open>openApplicationDB\<close>: a handle on the database of a directory.\<close>

definition openDB :: "sys \<Rightarrow> string \<Rightarrow> snap_world \<Rightarrow> unit go \<times> snap_world" where
  "openDB sys dir w =
     (case sys SysOpenDB dir of Some e \<Rightarrow> (Err e, w) | None \<Rightarrow> (Ok (), w\<lparr>sw_open := dir # sw_open w\<rparr>))"

definition closeDB :: "string \<Rightarrow> snap_world \<Rightarrow> snap_world" where
  "closeDB dir w = w\<lparr>sw_open := remove1 dir (sw_open w)\<rparr>"

definition removeAll :: "string \<Rightarrow> snap_world \<Rightarrow> snap_world" where
  "removeAll dir w = w\<lparr>sw_temps := filter (\<lambda>t. fst t \<noteq> dir) (sw_temps w)\<rparr>"

definition temp_name :: "string \<Rightarrow> nat \<Rightarrow> string" where
  "temp_name pattern n = ''/tmp/'' @ pattern @ nat_digits n"

definition copyAndOpenApplicationDB ::
  "sys \<Rightarrow> string \<Rightarrow> string \<Rightarrow> snap_world \<Rightarrow> string go \<times> snap_world" where
  "copyAndOpenApplicationDB sys snapshotDir tempPattern w =
     (case sys SysMkdirTemp tempPattern of
        Some e \<Rightarrow> (Err (ErrWrap ''create temp dir'' e), w)
      | None \<Rightarrow>
         (let tempDir = temp_name tempPattern (sw_next w);
              src = path_join snapshotDir ''application.db''; dst = path_join tempDir ''application.db'';
              w1 = w\<lparr>sw_next := Suc (sw_next w), sw_temps := (tempDir, Dir 0 []) # sw_temps w\<rparr>
          in case (case sw_source w of None \<Rightarrow> Err (ErrMsg (src @ '': no such file or directory''))
                   | Some db \<Rightarrow> copyDir sys src dst db) of
               Ok db \<Rightarrow>
                 (case openDB sys tempDir (w1\<lparr>sw_temps := (tempDir, db) # sw_temps w\<rparr>) of
                    (Ok _, w2) \<Rightarrow> (Ok tempDir, w2)
                  | (Err e, w2) \<Rightarrow> (Err (ErrWrap ''open application.db'' e), removeAll tempDir w2)
                  | (Panic p, w2) \<Rightarrow> (Panic p, w2))
             | Err e \<Rightarrow> (Err (ErrWrap ''copy application.db'' e), removeAll tempDir w1)
             | Panic p \<Rightarrow> (Panic p, w1)))"

text \<open>An operation on the database of a temporary directory.\<close>

definition on_temp :: "string \<Rightarrow> (fnode \<Rightarrow> 'x go \<times> fnode) \<Rightarrow> snap_world \<Rightarrow> 'x go \<times> snap_world" where
  "on_temp dir f w =
     (case map_of (sw_temps w) dir of
        None \<Rightarrow> (Panic ''no such directory'', w)
      | Some db \<Rightarrow> (case f db of (r, db1) \<Rightarrow>
          (r, w\<lparr>sw_temps := map (\<lambda>(d, n). (d, if d = dir then db1 else n)) (sw_temps w)\<rparr>)))"

definition on_source :: "(fnode \<Rightarrow> 'x go \<times> fnode) \<Rightarrow> snap_world \<Rightarrow> 'x go \<times> snap_world" where
  "on_source f w =
     (case sw_source w of
        None \<Rightarrow> (case f (Dir 0 []) of (r, db1) \<Rightarrow> (r, w\<lparr>sw_source := Some db1\<rparr>))
      | Some db \<Rightarrow> (case f db of (r, db1) \<Rightarrow> (r, w\<lparr>sw_source := Some db1\<rparr>)))"

section \<open>Pruning\<close>

definition PruneSnapshot ::
  "sys \<Rightarrow> StoreOps \<Rightarrow> string \<Rightarrow> int \<Rightarrow> 'w snap_factory \<Rightarrow> snap_world \<Rightarrow> unit go \<times> snap_world" where
  "PruneSnapshot sys ops snapshotDir targetVersion factory w =
     (case openDB sys snapshotDir w of
        (Ok _, w1) \<Rightarrow>
          (case on_source (sf_create factory False) w1 of
             (Ok _, w2) \<Rightarrow>
               (case on_source (loadAndTruncate ops targetVersion) w2 of
                  (Ok _, w3) \<Rightarrow> (call sys SysClose snapshotDir, closeDB snapshotDir w3)
                | (r, w3) \<Rightarrow> (wrap_err (''prune to version '' @ itoa targetVersion) r, closeDB snapshotDir w3))
           | (r, w2) \<Rightarrow> (wrap_err ''create app'' r, closeDB snapshotDir w2))
      | (r, w1) \<Rightarrow> (wrap_err ''open application.db'' r, w1))"

definition PruneSnapshotFromMeta ::
  "sys \<Rightarrow> StoreOps \<Rightarrow> string \<Rightarrow> RangeMeta \<Rightarrow> 'w snap_factory \<Rightarrow> snap_world \<Rightarrow> unit go \<times> snap_world" where
  "PruneSnapshotFromMeta sys ops snapshotDir meta factory = PruneSnapshot sys ops snapshotDir (rm_Start meta - 1) factory"

text \<open>The slot of the default factory, which registering overwrites.\<close>

definition RegisterDefaultPruneFactory :: "'f option \<Rightarrow> 'f option \<Rightarrow> 'f option" where
  "RegisterDefaultPruneFactory f slot = f"

section \<open>\<open>InitFromState\<close> and \<open>Close\<close>\<close>

type_synonym 'w snap_state = "'w SnapshotState \<times> snap_world"

definition close_handle :: "string option \<Rightarrow> snap_world \<Rightarrow> snap_world" where
  "close_handle h w = (case h of None \<Rightarrow> w | Some dir \<Rightarrow> closeDB dir w)"

definition remove_temp :: "string \<Rightarrow> snap_world \<Rightarrow> snap_world" where
  "remove_temp dir w = (if dir \<noteq> '''' then removeAll dir w else w)"

definition snap_cleanup :: "'w snap_state \<Rightarrow> 'w snap_state" where
  "snap_cleanup = (\<lambda>(e, w).
     (e\<lparr>sx_oracleDB := None, sx_probeDB := None, sx_oracleDBTemp := '''', sx_probeDBTemp := ''''\<rparr>,
      remove_temp (sx_probeDBTemp e) (remove_temp (sx_oracleDBTemp e)
        (close_handle (sx_probeDB e) (close_handle (sx_oracleDB e) w)))))"

definition snap_Close :: "'w snap_state \<Rightarrow> 'w snap_state" where
  "snap_Close = (\<lambda>(e, w). snap_cleanup (e\<lparr>sx_oracle := None, sx_probe := None, sx_oracleTrackers := []\<rparr>, w))"

text \<open>An error of \<open>m\<close> is wrapped after cleaning up.\<close>

definition or_cleanup :: "string \<Rightarrow> ('w snap_state \<Rightarrow> 'x go \<times> 'w snap_state) \<Rightarrow> 'w snap_state \<Rightarrow> 'x go \<times> 'w snap_state" where
  "or_cleanup msg m s = (case m s of
     (Err e, s1) \<Rightarrow> (Err (ErrWrap msg e), snap_cleanup s1)
   | (r, s1) \<Rightarrow> (r, s1))"

definition installed :: "bool \<Rightarrow> unit go" where
  "installed registered = (if registered then Ok () else Panic ''sdkhook: no STMRunnerFactory registered'')"

definition oraclePattern :: string where "oraclePattern = ''blockstm-sim-oracle-''"
definition probePattern :: string where "probePattern = ''blockstm-sim-probe-''"

definition stage_oracle :: "sys \<Rightarrow> string \<Rightarrow> 'w snap_state \<Rightarrow> string go \<times> 'w snap_state" where
  "stage_oracle sys snapshotDir =
     st_bind (on_world (st_wrap ''stage oracle application.db'' (copyAndOpenApplicationDB sys snapshotDir oraclePattern)))
       (\<lambda>dir. st_bind (st_modify (\<lambda>(e, w). (e\<lparr>sx_oracleDBTemp := dir, sx_oracleDB := Some dir\<rparr>, w)))
         (\<lambda>_. st_lift (Ok dir)))"

definition stage_probe :: "sys \<Rightarrow> string \<Rightarrow> 'w snap_state \<Rightarrow> string go \<times> 'w snap_state" where
  "stage_probe sys snapshotDir =
     st_bind (or_cleanup ''stage probe application.db'' (on_world (copyAndOpenApplicationDB sys snapshotDir probePattern)))
       (\<lambda>dir. st_bind (st_modify (\<lambda>(e, w). (e\<lparr>sx_probeDBTemp := dir, sx_probeDB := Some dir\<rparr>, w)))
         (\<lambda>_. st_lift (Ok dir)))"

text \<open>Setting an application up over its copy: create it, pin its version, install a runner.\<close>

definition setup_side ::
  "StoreOps \<Rightarrow> bool \<Rightarrow> 'w snap_factory \<Rightarrow> bool \<Rightarrow> string \<Rightarrow> string \<Rightarrow> int \<Rightarrow> 'w snap_state \<Rightarrow> unit go \<times> 'w snap_state" where
  "setup_side ops registered factory outputs name dir loadVersion =
     st_bind (or_cleanup (''setup '' @ name @ '' app'') (on_world (on_temp dir (sf_create factory outputs)))) (\<lambda>_.
     st_bind (or_cleanup (name @ '' init at version '' @ itoa loadVersion)
       (on_world (on_temp dir (loadAndTruncate ops loadVersion)))) (\<lambda>_.
     on_world (st_lift (installed registered))))"

definition InitFromState ::
  "sys \<Rightarrow> StoreOps \<Rightarrow> bool \<Rightarrow> string \<Rightarrow> RangeMeta \<Rightarrow> 'w snap_state \<Rightarrow> unit go \<times> 'w snap_state" where
  "InitFromState sys ops registered snapshotDir meta = (\<lambda>(e0, w0).
     case sx_appFactoryFn e0 of
       None \<Rightarrow> (Err (ErrMsg ''SnapshotExecutor: AppFactoryFunc not set; call WithSnapshotAppFactoryFunc''), e0, w0)
     | Some fn \<Rightarrow>
        (if snapshotDir = '''' then (Err (ErrMsg ''SnapshotExecutor: snapshotDir is empty''), e0, w0)
         else if rm_Start meta \<le> 0
         then (Err (ErrMsg (''SnapshotExecutor: invalid meta.Start '' @ itoa (rm_Start meta))), e0, w0)
         else
          (let loadVersion = rm_Start meta - 1; factory = fn \<lparr>gs_Accounts = []\<rparr> in
           st_bind (on_world (if 0 < loadVersion
              then st_wrap (''prune source snapshot to version '' @ itoa loadVersion)
                     (PruneSnapshot sys ops snapshotDir loadVersion factory)
              else st_lift (Ok ()))) (\<lambda>_.
           st_bind (stage_oracle sys snapshotDir) (\<lambda>oracleDir.
           st_bind (stage_probe sys snapshotDir) (\<lambda>probeDir.
           st_bind (setup_side ops registered factory True ''oracle'' oracleDir loadVersion) (\<lambda>_.
           st_bind (st_modify (\<lambda>(e, w). (e\<lparr>sx_oracleTrackers := sx_oracleTrackers e @
              filter (\<lambda>t. \<not> ShouldSkipTracker (tk_Name t)) (sf_trackers factory)\<rparr>, w))) (\<lambda>_.
           st_bind (setup_side ops registered factory False ''probe'' probeDir loadVersion) (\<lambda>_.
           st_modify (\<lambda>(e, w). (e\<lparr>sx_oracle := Some oracleDir, sx_probe := Some probeDir\<rparr>, w)))))))) (e0, w0))))"

section \<open>\<open>RunBlock\<close>\<close>

text \<open>The fields of a block run: the applications of an initialised executor, their trackers, the decoder
  of the transaction configuration (the type URLs of a transaction's messages, or nothing when it does not
  decode), and the process-wide parts the fixture executor reads too.\<close>

record 'w SnapshotRun =
  sr_oracle :: "'w App option"
  sr_probe :: "'w App"
  sr_oracleTrackers :: "'w MutationTracker list"
  sr_conflictDetection :: bool
  sr_conflictInstaller :: bool
  sr_statsInstaller :: bool
  sr_decoder :: "bytes \<Rightarrow> string list option"
  sr_NonDet :: "(('w \<Rightarrow> NonDetCall list \<times> 'w) \<times> (int \<Rightarrow> 'w \<Rightarrow> 'w)) option"

definition decodeMsgKeys :: "(bytes \<Rightarrow> string list option) \<Rightarrow> bytes list \<Rightarrow> string list" where
  "decodeMsgKeys decoder txs = map (\<lambda>rawTx. case decoder rawTx of
       None \<Rightarrow> ''raw''
     | Some msgs \<Rightarrow> if msgs = [] then ''raw'' else hd msgs) txs"

text \<open>The comparison is the one of the fixture executor, without block context and without hooks; the view
  below is that executor.\<close>

definition snapshot_view :: "'w SnapshotRun \<Rightarrow> 'w App \<Rightarrow> ('w, unit, unit, unit, unit) FixtureExecutor" where
  "snapshot_view e oracle = \<lparr>
     fe_Lib = \<lparr>tl_ParseCoins = (\<lambda>_. Ok ()), tl_MsgSend = (\<lambda>_ _ _. ()), tl_GenSigned = (\<lambda>_ _ _ _ _. Ok ()),
       tl_Encode = (\<lambda>_. Ok [])\<rparr>,
     fe_Oracle = oracle, fe_Probe = sr_probe e, fe_Keys = Map.empty, fe_AccountNums = (\<lambda>_. 0),
     fe_Trackers = sr_oracleTrackers e, fe_RawBuilders = Map.empty, fe_PackageBuilders = Map.empty,
     fe_Builders = Map.empty, fe_ConflictDetection = sr_conflictDetection e,
     fe_ConflictInstaller = sr_conflictInstaller e, fe_StatsInstaller = sr_statsInstaller e, fe_BlockCtx = None,
     fe_PreProbeSetup = None, fe_PostRunBlock = None, fe_NonDet = sr_NonDet e\<rparr>"

definition snapshot_RunBlock :: "'w SnapshotRun \<Rightarrow> BlockSpec \<Rightarrow> int \<Rightarrow> 'w \<Rightarrow> Result go \<times> 'w" where
  "snapshot_RunBlock e b height w =
     (case sr_oracle e of
        None \<Rightarrow> (Err (ErrMsg ''SnapshotExecutor not initialised; InitFromState must be called first''), w)
      | Some oracle \<Rightarrow>
         (let fe = snapshot_view e oracle;
              txs = bl_RawTxs b;
              trackers = sr_oracleTrackers e;
              preSnaps = take_snapshots trackers w;
              (res, st) = Run (block_input fe height txs trackers None preSnaps) (start_state fe (length txs) trackers w)
          in case res of
               Panic p \<Rightarrow> (Panic p, st_world st)
             | Err x \<Rightarrow> (Err x, st_world st)
             | Ok r \<Rightarrow>
                 (case commit_both oracle (sr_probe e) (st_world st) of
                    (Ok _, w1) \<Rightarrow> (Ok (add_conflicts (st_sink st) (r\<lparr>r_MsgKeys := decodeMsgKeys (sr_decoder e) txs\<rparr>)), w1)
                  | (Err x, w1) \<Rightarrow> (Err x, w1)
                  | (Panic p, w1) \<Rightarrow> (Panic p, w1))))"

section \<open>Copies\<close>

text \<open>The system calls a copy makes, in order.\<close>

definition file_calls :: "string \<Rightarrow> string \<Rightarrow> (sys_call \<times> string) list" where
  "file_calls src dst = [(SysOpen, src), (SysStat, src), (SysCreate, dst), (SysCopy, dst), (SysClose, dst)]"

fun dir_calls :: "string \<Rightarrow> string \<Rightarrow> fnode \<Rightarrow> (sys_call \<times> string) list"
  and entry_calls :: "string \<Rightarrow> string \<Rightarrow> (string \<times> fnode) list \<Rightarrow> (sys_call \<times> string) list" where
  "dir_calls src dst (File perm content) = [(SysStat, src)]"
| "dir_calls src dst (Dir perm entries) =
     [(SysStat, src), (SysMkdirAll, dst), (SysReadDir, src)] @ entry_calls src dst entries"
| "entry_calls src dst [] = []"
| "entry_calls src dst ((name, node) # rest) =
     (case node of Dir perm entries \<Rightarrow> dir_calls (path_join src name) (path_join dst name) node
      | File perm content \<Rightarrow> file_calls (path_join src name) (path_join dst name)) @ entry_calls src dst rest"

definition succeeds :: "sys \<Rightarrow> (sys_call \<times> string) list \<Rightarrow> bool" where
  "succeeds sys calls \<longleftrightarrow> list_all (\<lambda>(c, p). sys c p = None) calls"

lemma succeeds_simps [simp]:
  "succeeds sys []" "succeeds sys ((c, p) # cs) \<longleftrightarrow> sys c p = None \<and> succeeds sys cs"
  "succeeds sys (cs @ ds) \<longleftrightarrow> succeeds sys cs \<and> succeeds sys ds"
  by (simp_all add: succeeds_def)

lemma call_Ok [simp]: "call sys c p = Ok u \<longleftrightarrow> sys c p = None"
  by (simp add: call_def split: option.split)

lemma copyFile_Ok:
  "copyFile sys src dst perm content = Ok t \<longleftrightarrow> t = File perm content \<and> succeeds sys (file_calls src dst)"
  by (auto simp: copyFile_def go_bind_eq_Ok file_calls_def)

lemma copy_exact:
  "copyDir sys src dst node = Ok t \<longleftrightarrow>
     (case node of File _ _ \<Rightarrow> False | Dir _ _ \<Rightarrow> t = node \<and> succeeds sys (dir_calls src dst node))"
  "copyEntries sys src dst es = Ok ts \<longleftrightarrow> ts = es \<and> succeeds sys (entry_calls src dst es)"
proof (induction sys src dst node and sys src dst es arbitrary: t and ts rule: copyDir_copyEntries.induct)
  case (4 sys src dst name node rest)
  show ?case
  proof (cases node)
    case (File perm content)
    then show ?thesis using 4 by (auto simp: go_bind_eq_Ok copyFile_Ok)
  next
    case (Dir perm entries)
    have "copyDir sys (path_join src name) (path_join dst name) node = Ok n \<longleftrightarrow>
        n = node \<and> succeeds sys (dir_calls (path_join src name) (path_join dst name) node)" for n
      using 4(1) [OF Dir, of n] by (simp add: Dir)
    then show ?thesis using 4(2) by (simp add: Dir go_bind_eq_Ok) blast
  qed
qed (auto simp: go_bind_eq_Ok)

section \<open>Fresh directories\<close>

lemma rev_digits_suffix:
  assumes "\<not> is_digit_char c"
  shows "takeWhile is_digit_char (rev (p @ [c] @ nat_digits n)) = rev (nat_digits n)"
proof -
  have "takeWhile is_digit_char (rev (nat_digits n) @ [c] @ rev p) = rev (nat_digits n)"
    using assms nat_digits_all_digits [of _ n] by (subst takeWhile_append2) auto
  then show ?thesis by simp
qed

lemma temp_name_inj:
  assumes "p \<in> {oraclePattern, probePattern}" "q \<in> {oraclePattern, probePattern}" "temp_name p m = temp_name q n"
  shows "m = n"
proof -
  have d: "\<not> is_digit_char (CHR ''-'')" by (simp add: is_digit_char_def)
  have t: "takeWhile is_digit_char (rev (temp_name p k)) = rev (nat_digits k)"
    if "p \<in> {oraclePattern, probePattern}" for p k
  proof -
    have "\<exists>p'. temp_name p k = p' @ [CHR ''-''] @ nat_digits k"
      using that unfolding temp_name_def oraclePattern_def probePattern_def
      by (auto intro: exI [of _ "''/tmp/blockstm-sim-oracle''"] exI [of _ "''/tmp/blockstm-sim-probe''"])
    then show ?thesis using rev_digits_suffix [OF d] by metis
  qed
  have "rev (nat_digits m) = rev (nat_digits n)" using t [OF assms(1), of m] t [OF assms(2), of n] assms(3) by simp
  then show ?thesis by (simp add: nat_digits_inj)
qed

definition sw_ok :: "snap_world \<Rightarrow> bool" where
  "sw_ok w \<longleftrightarrow> (\<forall>p \<in> {oraclePattern, probePattern}. \<forall>n \<ge> sw_next w. temp_name p n \<notin> fst ` set (sw_temps w))"

lemma temp_name_not_Nil [simp]: "temp_name p n \<noteq> ''''"
  by (simp add: temp_name_def)

lemma removeAll_absent: "d \<notin> fst ` set ts \<Longrightarrow> filter (\<lambda>t. fst t \<noteq> d) ts = ts"
  by (induction ts) auto

lemma copyAndOpen_Ok:
  assumes "copyAndOpenApplicationDB sys dir pat w = (Ok d, w')" "sw_ok w" "pat \<in> {oraclePattern, probePattern}"
  shows "\<exists>db. sw_source w = Some db \<and> d = temp_name pat (sw_next w) \<and> d \<notin> fst ` set (sw_temps w) \<and>
    w' = w\<lparr>sw_temps := (d, db) # sw_temps w, sw_open := d # sw_open w, sw_next := Suc (sw_next w)\<rparr> \<and> sw_ok w'"
proof -
  have "\<exists>db. sw_source w = Some db \<and> d = temp_name pat (sw_next w) \<and>
      w' = w\<lparr>sw_temps := (d, db) # sw_temps w, sw_open := d # sw_open w, sw_next := Suc (sw_next w)\<rparr>"
    using assms(1)
    by (auto simp: copyAndOpenApplicationDB_def Let_def openDB_def copy_exact split: option.splits go.splits fnode.splits)
  then obtain db where db: "sw_source w = Some db" "d = temp_name pat (sw_next w)"
      "w' = w\<lparr>sw_temps := (d, db) # sw_temps w, sw_open := d # sw_open w, sw_next := Suc (sw_next w)\<rparr>"
    by blast
  have "d \<notin> fst ` set (sw_temps w)" using assms(2,3) db(2) by (auto simp: sw_ok_def)
  moreover have "sw_ok w'"
    unfolding sw_ok_def
  proof (intro ballI allI impI)
    fix p n assume p: "p \<in> {oraclePattern, probePattern}" and n: "sw_next w' \<le> n"
    have "sw_next w \<le> n" using n db(3) by simp
    then have "temp_name p n \<notin> fst ` set (sw_temps w)" using assms(2) p unfolding sw_ok_def by blast
    moreover have "temp_name p n \<noteq> d" using temp_name_inj [OF p assms(3)] db(2,3) n by fastforce
    ultimately show "temp_name p n \<notin> fst ` set (sw_temps w')" by (simp add: db(3))
  qed
  ultimately show ?thesis using db by blast
qed

lemma copyAndOpen_Err:
  assumes "copyAndOpenApplicationDB sys dir pat w = (Err e, w')" "sw_ok w" "pat \<in> {oraclePattern, probePattern}"
  shows "sw_temps w' = sw_temps w \<and> sw_open w' = sw_open w"
proof -
  have "temp_name pat (sw_next w) \<notin> fst ` set (sw_temps w)" using assms(2,3) by (auto simp: sw_ok_def)
  then show ?thesis
    using assms(1)
    by (auto simp: copyAndOpenApplicationDB_def Let_def openDB_def removeAll_def removeAll_absent
        split: option.splits go.splits)
qed

lemma on_temp_frame:
  "on_temp dir f w = (r, w') \<Longrightarrow> map fst (sw_temps w') = map fst (sw_temps w) \<and> sw_open w' = sw_open w \<and>
     sw_next w' = sw_next w \<and> (\<forall>d. d \<noteq> dir \<longrightarrow> map_of (sw_temps w') d = map_of (sw_temps w) d)"
proof -
  have "map_of (map (\<lambda>(d, n). (d, if d = dir then x else n)) ts) d = map_of ts d" if "d \<noteq> dir" for x ts d
    using that by (induction ts) auto
  then show "on_temp dir f w = (r, w') \<Longrightarrow> map fst (sw_temps w') = map fst (sw_temps w) \<and> sw_open w' = sw_open w \<and>
     sw_next w' = sw_next w \<and> (\<forall>d. d \<noteq> dir \<longrightarrow> map_of (sw_temps w') d = map_of (sw_temps w) d)"
    by (auto simp: on_temp_def split: option.splits prod.splits)
qed

lemma PruneSnapshot_frame:
  "PruneSnapshot sys ops dir v factory w = (r, w') \<Longrightarrow>
     sw_temps w' = sw_temps w \<and> sw_open w' = sw_open w \<and> sw_next w' = sw_next w"
  by (auto simp: PruneSnapshot_def openDB_def closeDB_def on_source_def split: option.splits prod.splits go.splits)

section \<open>Who owns what\<close>

text \<open>Relative to the world \<open>w0\<close> before: \<open>held\<close>, the executor's fields name exactly the temporary directories
  and open handles that are new; \<open>released\<close>, there are none and the fields are empty.\<close>

definition handle_of :: "string \<Rightarrow> string option" where
  "handle_of d = (if d = '''' then None else Some d)"

definition held :: "snap_world \<Rightarrow> 'w snap_state \<Rightarrow> bool" where
  "held w0 = (\<lambda>(e, w). \<exists>ts. sw_temps w = ts @ sw_temps w0 \<and> sw_open w = map fst ts @ sw_open w0 \<and>
     distinct (map fst ts) \<and> set (map fst ts) \<inter> fst ` set (sw_temps w0) = {} \<and>
     map fst ts = filter (\<lambda>d. d \<noteq> '''') [sx_probeDBTemp e, sx_oracleDBTemp e] \<and>
     sx_probeDB e = handle_of (sx_probeDBTemp e) \<and> sx_oracleDB e = handle_of (sx_oracleDBTemp e) \<and> sw_ok w)"

definition released :: "snap_world \<Rightarrow> 'w snap_state \<Rightarrow> bool" where
  "released w0 = (\<lambda>(e, w). sw_temps w = sw_temps w0 \<and> sw_open w = sw_open w0 \<and>
     sx_oracleDB e = None \<and> sx_probeDB e = None \<and> sx_oracleDBTemp e = '''' \<and> sx_probeDBTemp e = '''')"

definition ready :: "snap_world \<Rightarrow> 'w snap_state \<Rightarrow> bool" where
  "ready w0 s \<longleftrightarrow> released w0 s \<and> sw_ok (snd s)"

lemma drop_own:
  "set (map fst ts) \<inter> fst ` set ys = {} \<Longrightarrow> filter (\<lambda>x. fst x \<notin> set (map fst ts)) (ts @ ys) = ys"
  by (auto simp: filter_id_conv filter_empty_conv disjoint_iff)

lemma cleanup_released:
  assumes "held w0 (s :: 'w snap_state)"
  shows "released w0 (snap_cleanup s)"
proof -
  obtain e w where s: "s = (e, w)" by (cases s)
  let ?p = "sx_probeDBTemp e" and ?o = "sx_oracleDBTemp e"
  obtain ts where ts: "sw_temps w = ts @ sw_temps w0" "sw_open w = map fst ts @ sw_open w0"
      "distinct (map fst ts)" "set (map fst ts) \<inter> fst ` set (sw_temps w0) = {}"
      "map fst ts = filter (\<lambda>d. d \<noteq> '''') [?p, ?o]"
      and h: "sx_probeDB e = handle_of ?p" "sx_oracleDB e = handle_of ?o"
    using assms unfolding held_def s prod.case by blast
  have t: "sw_temps (snd (snap_cleanup s)) = sw_temps w0"
  proof -
    have "sw_temps (snd (snap_cleanup s)) = filter (\<lambda>x. fst x \<notin> set (map fst ts)) (sw_temps w)"
      unfolding ts(5)
      by (cases "?p = []"; cases "?o = []")
        (simp_all add: s snap_cleanup_def remove_temp_def removeAll_def close_handle_def closeDB_def
          handle_of_def h case_prod_beta conj_commute)
    then show ?thesis unfolding ts(1) using drop_own [OF ts(4)] by simp
  qed
  have o: "sw_open (snd (snap_cleanup s)) = sw_open w0"
    using ts(2,3,5) h
    by (auto simp: s snap_cleanup_def remove_temp_def removeAll_def close_handle_def closeDB_def handle_of_def
        split: if_splits)
  have "sx_oracleDB (fst (snap_cleanup s)) = None \<and> sx_probeDB (fst (snap_cleanup s)) = None \<and>
      sx_oracleDBTemp (fst (snap_cleanup s)) = '''' \<and> sx_probeDBTemp (fst (snap_cleanup s)) = ''''"
    by (simp add: s snap_cleanup_def)
  then show ?thesis using t o by (simp add: released_def case_prod_beta)
qed

lemma valid_or_cleanup:
  fixes m :: "'w snap_state \<Rightarrow> 'x go \<times> 'w snap_state"
  assumes v: "valid P m Q (held w0)"
  shows "valid P (or_cleanup msg m) Q (released w0)"
  unfolding valid_def
proof (intro allI impI)
  fix s assume p: "P s"
  obtain r s' where m: "m s = (r, s')" by (cases "m s")
  show "case or_cleanup msg m s of (Ok x, s') \<Rightarrow> Q x s' | (Err e, s') \<Rightarrow> released w0 s' | (Panic p, s') \<Rightarrow> True"
  proof (cases r)
    case (Ok x)
    then show ?thesis using valid_Ok [OF v p, of x s'] m by (simp add: or_cleanup_def)
  next
    case (Err e)
    then have "released w0 (snap_cleanup s')" using cleanup_released valid_Err [OF v p, of e s'] m by blast
    then show ?thesis using m Err by (simp only: or_cleanup_def prod.case go.case)
  next
    case (Panic q)
    then show ?thesis using m by (simp only: or_cleanup_def prod.case go.case)
  qed
qed

lemma map_replace_absent: "d \<notin> fst ` set ys \<Longrightarrow> map (\<lambda>(d', n). (d', if d' = d then x else n)) ys = ys"
  by (induction ys) auto

lemma held_on_temp:
  assumes "on_temp dir f w = (r, w')" "held w0 (e, w)" "dir \<in> {sx_probeDBTemp e, sx_oracleDBTemp e}" "dir \<noteq> ''''"
  shows "held w0 (e, w')"
proof -
  obtain ts where ts: "sw_temps w = ts @ sw_temps w0" "sw_open w = map fst ts @ sw_open w0"
      "distinct (map fst ts)" "set (map fst ts) \<inter> fst ` set (sw_temps w0) = {}"
      "map fst ts = filter (\<lambda>d. d \<noteq> '''') [sx_probeDBTemp e, sx_oracleDBTemp e]"
      "sx_probeDB e = handle_of (sx_probeDBTemp e)" "sx_oracleDB e = handle_of (sx_oracleDBTemp e)" "sw_ok w"
    using assms(2) unfolding held_def prod.case by blast
  show ?thesis
  proof (cases "map_of (sw_temps w) dir")
    case None
    then show ?thesis using assms(1,2) by (simp add: on_temp_def)
  next
    case (Some db)
    let ?up = "\<lambda>x. map (\<lambda>(d, n). (d, if d = dir then x else n))"
    obtain x where w': "w' = w\<lparr>sw_temps := ?up x (sw_temps w)\<rparr>"
      using assms(1) Some by (auto simp: on_temp_def split: prod.splits)
    have "dir \<in> set (map fst ts)" unfolding ts(5) using assms(3,4) by auto
    then have "dir \<notin> fst ` set (sw_temps w0)" using ts(4) by blast
    then have t: "sw_temps w' = ?up x ts @ sw_temps w0" by (simp add: w' ts(1) map_replace_absent)
    have f: "map fst (?up x ts) = map fst ts" for x by (induction ts) auto
    have "map fst (sw_temps w') = map fst (sw_temps w)" by (simp only: t ts(1) map_append f)
    then have "fst ` set (sw_temps w') = fst ` set (sw_temps w)" by (metis set_map)
    then have "sw_ok w'" using ts(8) by (simp add: sw_ok_def w')
    then show ?thesis
      unfolding held_def prod.case using t f [of x] ts w' by (intro exI [of _ "?up x ts"]) simp
  qed
qed

lemma valid_on_temp [triples]:
  "valid (\<lambda>(e, w). held w0 (e, w) \<and> dir \<in> {sx_probeDBTemp e, sx_oracleDBTemp e} \<and> dir \<noteq> '''' \<and> R e) (on_world (on_temp dir f))
     (\<lambda>_ (e, w). held w0 (e, w) \<and> dir \<in> {sx_probeDBTemp e, sx_oracleDBTemp e} \<and> dir \<noteq> '''' \<and> R e) (held w0)"
  unfolding valid_def
proof (intro allI impI)
  fix s assume "case s of (e, w) \<Rightarrow> held w0 (e, w) \<and> dir \<in> {sx_probeDBTemp e, sx_oracleDBTemp e} \<and> dir \<noteq> '''' \<and> R e"
  then obtain e w where s: "s = (e, w)" "held w0 (e, w)" "dir \<in> {sx_probeDBTemp e, sx_oracleDBTemp e}" "dir \<noteq> ''''" "R e"
    by (cases s) auto
  obtain r w' where "on_temp dir f w = (r, w')" by fastforce
  with held_on_temp [OF this s(2-4)] s
  show "case on_world (on_temp dir f) s of
      (Ok x, e, w) \<Rightarrow> held w0 (e, w) \<and> dir \<in> {sx_probeDBTemp e, sx_oracleDBTemp e} \<and> dir \<noteq> '''' \<and> R e
    | (Err x, s') \<Rightarrow> held w0 s' | (Panic x, s') \<Rightarrow> True"
    by (cases r) (auto simp: on_world_def)
qed

lemma valid_setup_side:
  "valid (\<lambda>(e, w). held w0 (e, w) \<and> dir \<in> {sx_probeDBTemp e, sx_oracleDBTemp e} \<and> dir \<noteq> '''' \<and> R e)
     (setup_side ops registered factory outputs name dir v)
     (\<lambda>_ (e, w). held w0 (e, w) \<and> R e) (released w0)"
  unfolding setup_side_def
  by (rule valid_bind valid_or_cleanup valid_on_temp)+
    (auto simp: valid_def on_world_def st_lift_def installed_def)

lemma valid_stage_oracle:
  "valid (\<lambda>s. ready w0 s) (stage_oracle sys dir)
     (\<lambda>d (e, w). held w0 (e, w) \<and> d \<noteq> '''' \<and> sx_probeDBTemp e = '''' \<and> d = sx_oracleDBTemp e) (released w0)"
  unfolding valid_def
proof (intro allI impI)
  fix s :: "'b snap_state" assume rd: "ready w0 s"
  obtain e w where s: "s = (e, w)" by (cases s)
  have ok: "sw_ok w" and rel: "released w0 (e, w)" using rd by (simp_all add: ready_def s)
  obtain r w' where c: "copyAndOpenApplicationDB sys dir oraclePattern w = (r, w')" by fastforce
  show "case stage_oracle sys dir s of
      (Ok d, e, w) \<Rightarrow> held w0 (e, w) \<and> d \<noteq> '''' \<and> sx_probeDBTemp e = '''' \<and> d = sx_oracleDBTemp e
    | (Err x, s') \<Rightarrow> released w0 s' | (Panic x, s') \<Rightarrow> True"
  proof (cases r)
    case (Ok d)
    obtain db where d: "d = temp_name oraclePattern (sw_next w)" "d \<notin> fst ` set (sw_temps w)" "sw_ok w'"
        "w' = w\<lparr>sw_temps := (d, db) # sw_temps w, sw_open := d # sw_open w, sw_next := Suc (sw_next w)\<rparr>"
      using copyAndOpen_Ok [of sys dir oraclePattern w d w'] c Ok ok by auto
    have "d \<noteq> ''''" by (simp add: d(1))
    then have "held w0 (e\<lparr>sx_oracleDBTemp := d, sx_oracleDB := Some d\<rparr>, w')"
      using rel d(2-4) by (auto simp: held_def released_def handle_of_def intro!: exI [of _ "[(d, db)]"])
    then show ?thesis using Ok c \<open>d \<noteq> ''''\<close> rel
      by (simp add: stage_oracle_def s st_bind_def on_world_def st_wrap_def st_modify_def st_lift_def released_def)
  next
    case (Err x)
    then have "sw_temps w' = sw_temps w \<and> sw_open w' = sw_open w"
      using copyAndOpen_Err [of sys dir oraclePattern w x w'] c ok by simp
    then show ?thesis using Err c rel
      by (simp add: stage_oracle_def s st_bind_def on_world_def st_wrap_def released_def)
  next
    case (Panic p)
    then show ?thesis using c by (simp add: stage_oracle_def s st_bind_def on_world_def st_wrap_def)
  qed
qed

lemma cleanup_agrees:
  "sw_temps w' = sw_temps w \<Longrightarrow> sw_open w' = sw_open w \<Longrightarrow>
     fst (snap_cleanup (e, w')) = fst (snap_cleanup (e, w)) \<and>
     sw_temps (snd (snap_cleanup (e, w'))) = sw_temps (snd (snap_cleanup (e, w))) \<and>
     sw_open (snd (snap_cleanup (e, w'))) = sw_open (snd (snap_cleanup (e, w)))"
  by (simp add: snap_cleanup_def remove_temp_def removeAll_def close_handle_def closeDB_def split: option.split)

lemma valid_stage_probe:
  fixes P :: "'w snap_state \<Rightarrow> bool"
  assumes P: "\<And>e w. P (e, w) \<Longrightarrow> held w0 (e, w) \<and> od \<noteq> '''' \<and> sx_probeDBTemp e = '''' \<and> od = sx_oracleDBTemp e"
  shows "valid P (stage_probe sys dir)
     (\<lambda>d (e, w). held w0 (e, w) \<and> d \<noteq> '''' \<and> od \<noteq> '''' \<and> sx_probeDBTemp e = d \<and> sx_oracleDBTemp e = od) (released w0)"
  unfolding valid_def
proof (intro allI impI)
  fix s :: "'w snap_state" assume "P s"
  then obtain e w where s: "s = (e, w)" and h: "held w0 (e, w)" and oe: "od \<noteq> ''''" "sx_probeDBTemp e = ''''" "od = sx_oracleDBTemp e"
    using P by (cases s) blast
  obtain ts where ts: "sw_temps w = ts @ sw_temps w0" "sw_open w = map fst ts @ sw_open w0"
      "distinct (map fst ts)" "set (map fst ts) \<inter> fst ` set (sw_temps w0) = {}"
      "map fst ts = filter (\<lambda>d. d \<noteq> '''') [sx_probeDBTemp e, sx_oracleDBTemp e]"
      "sx_probeDB e = handle_of (sx_probeDBTemp e)" "sx_oracleDB e = handle_of (sx_oracleDBTemp e)" "sw_ok w"
    using h unfolding held_def prod.case by blast
  obtain r w' where c: "copyAndOpenApplicationDB sys dir probePattern w = (r, w')" by fastforce
  show "case stage_probe sys dir s of
      (Ok d, e, w) \<Rightarrow> held w0 (e, w) \<and> d \<noteq> '''' \<and> od \<noteq> '''' \<and> sx_probeDBTemp e = d \<and> sx_oracleDBTemp e = od
    | (Err x, s') \<Rightarrow> released w0 s' | (Panic x, s') \<Rightarrow> True"
  proof (cases r)
    case (Ok d)
    obtain db where d: "d = temp_name probePattern (sw_next w)" "d \<notin> fst ` set (sw_temps w)" "sw_ok w'"
        "w' = w\<lparr>sw_temps := (d, db) # sw_temps w, sw_open := d # sw_open w, sw_next := Suc (sw_next w)\<rparr>"
      using copyAndOpen_Ok [of sys dir probePattern w d w'] c Ok ts(8) by auto
    have dn: "d \<noteq> ''''" by (simp add: d(1))
    have fresh: "d \<notin> set (map fst ts)" "d \<notin> fst ` set (sw_temps w0)" using d(2) ts(1) by auto
    have new: "held w0 (e\<lparr>sx_probeDBTemp := d, sx_probeDB := Some d\<rparr>, w')"
      unfolding held_def prod.case
      by (rule exI [of _ "(d, db) # ts"]) (use d(3,4) dn fresh ts oe(2) in \<open>simp add: handle_of_def\<close>)
    have "stage_probe sys dir s = (Ok d, e\<lparr>sx_probeDBTemp := d, sx_probeDB := Some d\<rparr>, w')"
      by (simp add: stage_probe_def s st_bind_def on_world_def or_cleanup_def st_modify_def st_lift_def c Ok)
    then show ?thesis using new dn oe by simp
  next
    case (Err x)
    have "released w0 (snap_cleanup (e, w'))"
      using cleanup_agrees [of w' w e] copyAndOpen_Err [of sys dir probePattern w x w'] c Err ts(8) cleanup_released [OF h]
      by (simp add: released_def case_prod_beta)
    moreover have "stage_probe sys dir s = (Err (ErrWrap ''stage probe application.db'' x), snap_cleanup (e, w'))"
      by (simp add: stage_probe_def s st_bind_def on_world_def or_cleanup_def c Err split: prod.split)
    ultimately show ?thesis by (simp only: prod.case go.case)
  next
    case (Panic p)
    then show ?thesis using c by (simp add: stage_probe_def s st_bind_def on_world_def or_cleanup_def)
  qed
qed

lemma valid_prune:
  fixes w0 :: snap_world
  shows "valid (ready w0 :: 'v snap_state \<Rightarrow> bool) (on_world (if 0 < v then st_wrap msg (PruneSnapshot sys ops dir v factory) else st_lift (Ok ())))
     (\<lambda>_. ready w0) (released w0)"
  unfolding valid_def
proof (intro allI impI)
  fix s :: "'v snap_state" assume rd: "ready w0 s"
  obtain e w where s: "s = (e, w)" by (cases s)
  obtain r w' where m: "(if 0 < v then st_wrap msg (PruneSnapshot sys ops dir v factory) else st_lift (Ok ())) w = (r, w')"
    by fastforce
  then have "sw_temps w' = sw_temps w \<and> sw_open w' = sw_open w \<and> sw_next w' = sw_next w"
    by (auto simp: st_wrap_def st_lift_def split: if_splits prod.splits dest: PruneSnapshot_frame)
  moreover have "sw_temps w = sw_temps w0" "sw_ok w" "released w0 (e, w)"
    using rd by (simp_all add: s ready_def released_def)
  ultimately have "ready w0 (e, w')" by (simp add: ready_def released_def sw_ok_def)
  then show "case on_world (if 0 < v then st_wrap msg (PruneSnapshot sys ops dir v factory) else st_lift (Ok ())) s of
      (Ok x, s') \<Rightarrow> ready w0 s' | (Err x, s') \<Rightarrow> released w0 s' | (Panic x, s') \<Rightarrow> True"
    using m by (cases r) (auto simp: s on_world_def ready_def)
qed

lemma valid_init_stages:
  fixes factory :: "'w snap_factory"
  shows "valid (ready w0)
     (st_bind (on_world (if 0 < v then st_wrap msg (PruneSnapshot sys ops dir v factory) else st_lift (Ok ()))) (\<lambda>_.
      st_bind (stage_oracle sys dir) (\<lambda>oracleDir.
      st_bind (stage_probe sys dir) (\<lambda>probeDir.
      st_bind (setup_side ops registered factory True ''oracle'' oracleDir v) (\<lambda>_.
      st_bind (st_modify (\<lambda>(e, w). (e\<lparr>sx_oracleTrackers := sx_oracleTrackers e @ trackers\<rparr>, w))) (\<lambda>_.
      st_bind (setup_side ops registered factory False ''probe'' probeDir v) (\<lambda>_.
      st_modify (\<lambda>(e, w). (e\<lparr>sx_oracle := Some oracleDir, sx_probe := Some probeDir\<rparr>, w)))))))))
     (\<lambda>_ (e, w). held w0 (e, w) \<and> sx_oracleDBTemp e \<noteq> '''' \<and> sx_probeDBTemp e \<noteq> '''' \<and>
        sx_oracle e = Some (sx_oracleDBTemp e) \<and> sx_probe e = Some (sx_probeDBTemp e)) (released w0)"
proof (rule valid_bind [OF valid_prune valid_bind [OF valid_stage_oracle valid_bind]])
  fix od
  show "valid (\<lambda>(e, w). held w0 (e, w) \<and> od \<noteq> '''' \<and> sx_probeDBTemp e = '''' \<and> od = sx_oracleDBTemp e)
     (stage_probe sys dir)
     (\<lambda>d (e, w). held w0 (e, w) \<and> d \<noteq> '''' \<and> od \<noteq> '''' \<and> sx_probeDBTemp e = d \<and> sx_oracleDBTemp e = od) (released w0)"
    by (rule valid_stage_probe) auto
next
  fix od pd
  let ?R = "\<lambda>e. pd \<noteq> '''' \<and> od \<noteq> '''' \<and> sx_probeDBTemp e = pd \<and> sx_oracleDBTemp e = od"
  have side: "valid (\<lambda>(e, w). held w0 (e, w) \<and> pd \<noteq> '''' \<and> od \<noteq> '''' \<and> sx_probeDBTemp e = pd \<and> sx_oracleDBTemp e = od)
     (setup_side ops registered factory outputs name d v)
     (\<lambda>_ (e, w). held w0 (e, w) \<and> ?R e) (released w0)" if "d = od \<or> d = pd" for outputs name d
    by (rule valid_weaken [OF valid_setup_side [where R = ?R]]) (use that in auto)
  have mod1: "valid (\<lambda>(e, w). held w0 (e, w) \<and> ?R e)
     (st_modify (\<lambda>(e, w). (e\<lparr>sx_oracleTrackers := sx_oracleTrackers e @ trackers\<rparr>, w)))
     (\<lambda>_ (e, w). held w0 (e, w) \<and> ?R e) (released w0)"
    by (rule valid_modify) (auto simp: held_def)
  have mod2: "valid (\<lambda>(e, w). held w0 (e, w) \<and> ?R e)
     (st_modify (\<lambda>(e, w). (e\<lparr>sx_oracle := Some od, sx_probe := Some pd\<rparr>, w)))
     (\<lambda>_ (e, w). held w0 (e, w) \<and> sx_oracleDBTemp e \<noteq> '''' \<and> sx_probeDBTemp e \<noteq> '''' \<and>
        sx_oracle e = Some (sx_oracleDBTemp e) \<and> sx_probe e = Some (sx_probeDBTemp e)) (released w0)"
    by (rule valid_modify) (auto simp: held_def)
  show "valid (\<lambda>(e, w). held w0 (e, w) \<and> pd \<noteq> '''' \<and> od \<noteq> '''' \<and> sx_probeDBTemp e = pd \<and> sx_oracleDBTemp e = od)
     (st_bind (setup_side ops registered factory True ''oracle'' od v) (\<lambda>_.
      st_bind (st_modify (\<lambda>(e, w). (e\<lparr>sx_oracleTrackers := sx_oracleTrackers e @ trackers\<rparr>, w))) (\<lambda>_.
      st_bind (setup_side ops registered factory False ''probe'' pd v) (\<lambda>_.
      st_modify (\<lambda>(e, w). (e\<lparr>sx_oracle := Some od, sx_probe := Some pd\<rparr>, w))))))
     (\<lambda>_ (e, w). held w0 (e, w) \<and> sx_oracleDBTemp e \<noteq> '''' \<and> sx_probeDBTemp e \<noteq> '''' \<and>
        sx_oracle e = Some (sx_oracleDBTemp e) \<and> sx_probe e = Some (sx_probeDBTemp e)) (released w0)"
    by (rule valid_bind [OF side valid_bind [OF mod1 valid_bind [OF side mod2]]]) auto
qed

lemma valid_InitFromState:
  fixes w0 :: snap_world
  shows "valid (ready w0 :: 'w snap_state \<Rightarrow> bool) (InitFromState sys ops registered dir meta)
     (\<lambda>_ (e, w). held w0 (e, w) \<and> sx_oracleDBTemp e \<noteq> '''' \<and> sx_probeDBTemp e \<noteq> '''' \<and>
        sx_oracle e = Some (sx_oracleDBTemp e) \<and> sx_probe e = Some (sx_probeDBTemp e)) (released w0)"
  unfolding valid_def
proof (intro allI impI)
  fix s :: "'w snap_state" assume rd: "ready w0 s"
  obtain e w where s: "s = (e, w)" by (cases s)
  let ?G = "\<lambda>t. case t of (Ok x, e, w) \<Rightarrow> held w0 (e, w) \<and> sx_oracleDBTemp e \<noteq> '''' \<and> sx_probeDBTemp e \<noteq> '''' \<and>
        sx_oracle e = Some (sx_oracleDBTemp e) \<and> sx_probe e = Some (sx_probeDBTemp e)
      | (Err x, s') \<Rightarrow> released w0 s' | (Panic x, s') \<Rightarrow> True"
  have rel: "released w0 (e, w)" using rd by (simp add: ready_def s)
  have early: "?G (Err m, e, w)" for m using rel by simp
  have "?G (InitFromState sys ops registered dir meta (e, w))"
  proof (cases "sx_appFactoryFn e = None \<or> dir = '''' \<or> rm_Start meta \<le> 0")
    case True
    have "\<exists>m. InitFromState sys ops registered dir meta (e, w) = (Err m, e, w)"
    proof (cases "sx_appFactoryFn e")
      case None
      then show ?thesis by (simp add: InitFromState_def)
    next
      case (Some fn)
      then have "dir = '''' \<or> rm_Start meta \<le> 0" using True by simp
      then show ?thesis by (cases "dir = ''''") (simp_all add: InitFromState_def Some)
    qed
    then show ?thesis using early by auto
  next
    case False
    then obtain fn where fn: "sx_appFactoryFn e = Some fn" by auto
    show ?thesis
      using valid_init_stages [unfolded valid_def, rule_format, OF rd [unfolded s], of "rm_Start meta - 1"
          "''prune source snapshot to version '' @ itoa (rm_Start meta - 1)" sys ops dir "fn \<lparr>gs_Accounts = []\<rparr>" registered
          "filter (\<lambda>t. \<not> ShouldSkipTracker (tk_Name t)) (sf_trackers (fn \<lparr>gs_Accounts = []\<rparr>))"] False
      by (simp only: InitFromState_def prod.case fn option.case Let_def if_False de_Morgan_disj)
  qed
  then show "?G (InitFromState sys ops registered dir meta s)" by (simp only: s)
qed

lemma held_dirs:
  "held w0 (e, w) \<Longrightarrow> sx_oracleDBTemp e \<noteq> '''' \<Longrightarrow> sx_probeDBTemp e \<noteq> '''' \<Longrightarrow>
     sx_oracleDBTemp e \<noteq> sx_probeDBTemp e \<and>
     map fst (sw_temps w) = sx_probeDBTemp e # sx_oracleDBTemp e # map fst (sw_temps w0) \<and>
     sw_open w = sx_probeDBTemp e # sx_oracleDBTemp e # sw_open w0"
  unfolding held_def prod.case by (elim exE conjE) (auto split: if_splits)

lemma held_Close: "held w0 (e, w) \<Longrightarrow> released w0 (snap_Close (e, w))"
proof -
  assume "held w0 (e, w)"
  moreover have "held w0 (e\<lparr>sx_oracle := None, sx_probe := None, sx_oracleTrackers := []\<rparr>, w) = held w0 (e, w)"
    by (simp add: held_def)
  ultimately show ?thesis unfolding snap_Close_def prod.case using cleanup_released by blast
qed

section \<open>What an executor owns\<close>

text \<open>C8. An executor that owns nothing and whose world hands out fresh directory names: when
  \<open>InitFromState\<close> returns an error, at whatever step, no temporary directory and no database handle is left
  over; when it succeeds it owns exactly two directories, different and new, with an open handle each, one per
  application, and \<open>Close\<close> releases exactly those.\<close>

theorem snapshot_resources:
  fixes e e' :: "'w SnapshotState" and w w' :: snap_world
  assumes "sw_ok w" "sx_oracleDB e = None" "sx_probeDB e = None" "sx_oracleDBTemp e = ''''" "sx_probeDBTemp e = ''''"
    and "InitFromState sys ops registered dir meta (e, w) = (r, e', w')"
  shows "(\<exists>p. r = Panic p) \<or>
    (\<exists>x. r = Err x) \<and> sw_temps w' = sw_temps w \<and> sw_open w' = sw_open w \<or>
    r = Ok () \<and> (\<exists>od pd. od \<noteq> pd \<and> sx_oracle e' = Some od \<and> sx_probe e' = Some pd \<and>
      map fst (sw_temps w') = pd # od # map fst (sw_temps w) \<and> sw_open w' = pd # od # sw_open w) \<and>
      (case snap_Close (e', w') of (e2, w2) \<Rightarrow> sw_temps w2 = sw_temps w \<and> sw_open w2 = sw_open w \<and>
         sx_oracle e2 = None \<and> sx_probe e2 = None)"
proof -
  have rd: "ready w (e, w)" using assms(1-5) by (simp add: ready_def released_def)
  note v = valid_InitFromState [of w sys ops registered dir meta]
  show ?thesis
  proof (cases r)
    case (Ok u)
    then have h: "held w (e', w')" "sx_oracleDBTemp e' \<noteq> ''''" "sx_probeDBTemp e' \<noteq> ''''"
        "sx_oracle e' = Some (sx_oracleDBTemp e')" "sx_probe e' = Some (sx_probeDBTemp e')"
      using valid_Ok [OF v rd, of u "(e', w')"] assms(6) by simp_all
    have "sx_oracle (fst (snap_Close (e', w'))) = None \<and> sx_probe (fst (snap_Close (e', w'))) = None"
      by (simp add: snap_Close_def snap_cleanup_def)
    then show ?thesis using Ok held_dirs [OF h(1-3)] h(4,5) held_Close [OF h(1)]
      by (simp add: released_def case_prod_beta)
  next
    case (Err x)
    then show ?thesis using valid_Err [OF v rd, of x "(e', w')"] assms(6) by (simp add: released_def)
  qed simp
qed

definition example_sys :: sys where
  "example_sys = (\<lambda>c p. if c = SysOpenDB \<and> p = temp_name probePattern 1 then Some (ErrMsg ''resource temporarily unavailable'')
     else None)"

definition example_ops :: StoreOps where
  "example_ops = \<lparr>so_LatestVersion = (\<lambda>db. case db of Dir _ es \<Rightarrow> int (length es) | File _ _ \<Rightarrow> 0),
     so_LoadVersion = (\<lambda>v db. (case db of
         Dir _ es \<Rightarrow> if v \<le> int (length es) then Ok () else Err (ErrMsg ''version does not exist'')
       | File _ _ \<Rightarrow> Err (ErrMsg ''not a database''), db)),
     so_RollbackToVersion = (\<lambda>v db. (Ok (), case db of Dir p es \<Rightarrow> Dir p (take (nat v) es) | File p c \<Rightarrow> File p c))\<rparr>"

definition example_snapshot :: snap_world where
  "example_snapshot = \<lparr>sw_source = Some (Dir 493 [(''000001.log'', File 420 [1, 2]), (''000002.log'', File 420 [3]),
       (''000003.log'', File 420 [])]), sw_temps = [], sw_open = [], sw_next = 0\<rparr>"

definition example_factory :: "nat snap_factory" where
  "example_factory = \<lparr>sf_create = (\<lambda>_ db. (Ok (), db)), sf_trackers = []\<rparr>"

definition example_meta :: RangeMeta where
  "example_meta = \<lparr>rm_ChainID = ''chain-1'', rm_AppVersion = 1, rm_Start = 3, rm_End = 4, rm_BondDenom = ''stake''\<rparr>"

definition example_no_sys :: sys where
  "example_no_sys = (\<lambda>_ _. None)"

lemma example_init_fails:
  "(case fst (InitFromState example_sys example_ops True ''snap'' example_meta
      (NewSnapshotExecutor (Some (\<lambda>_. example_factory)), example_snapshot)) of Err _ \<Rightarrow> True | _ \<Rightarrow> False)"
  by code_simp

lemma example_init_succeeds:
  "(case fst (InitFromState example_no_sys example_ops True ''snap'' example_meta
      (NewSnapshotExecutor (Some (\<lambda>_. example_factory)), example_snapshot)) of Ok _ \<Rightarrow> True | _ \<Rightarrow> False)"
  by code_simp

lemma example_sw_ok: "sw_ok example_snapshot"
  by (simp add: sw_ok_def example_snapshot_def)

lemma snapshot_resources_witness:
  "(case InitFromState example_sys example_ops True ''snap'' example_meta
      (NewSnapshotExecutor (Some (\<lambda>_. example_factory)), example_snapshot) of
     (r, e, w) \<Rightarrow> (\<exists>x. r = Err x) \<and> sw_temps w = [] \<and> sw_open w = []) \<and>
   (case InitFromState example_no_sys example_ops True ''snap'' example_meta
      (NewSnapshotExecutor (Some (\<lambda>_. example_factory)), example_snapshot) of
     (r, e, w) \<Rightarrow> length (sw_open w) = 2 \<and> sw_open (snd (snap_Close (e, w))) = [])"
proof -
  let ?e = "NewSnapshotExecutor (Some (\<lambda>_. example_factory))"
  have f: "sx_oracleDB ?e = None" "sx_probeDB ?e = None" "sx_oracleDBTemp ?e = ''''" "sx_probeDBTemp ?e = ''''"
    by (simp_all add: NewSnapshotExecutor_def)
  have z: "sw_temps example_snapshot = []" "sw_open example_snapshot = []" by (simp_all add: example_snapshot_def)
  note t = snapshot_resources [OF example_sw_ok f]
  obtain r1 e1 w1 where 1: "InitFromState example_sys example_ops True ''snap'' example_meta (?e, example_snapshot) = (r1, e1, w1)"
    by (cases "InitFromState example_sys example_ops True ''snap'' example_meta (?e, example_snapshot)") auto
  obtain r2 e2 w2 where 2: "InitFromState example_no_sys example_ops True ''snap'' example_meta (?e, example_snapshot) = (r2, e2, w2)"
    by (cases "InitFromState example_no_sys example_ops True ''snap'' example_meta (?e, example_snapshot)") auto
  show ?thesis
    using t [OF 1] t [OF 2] example_init_fails example_init_succeeds z
    by (auto simp: 1 2 split: go.splits)
qed

section \<open>The version an executor starts from\<close>

text \<open>What the code relies on of the multistore: \<open>LoadVersion\<close> keeps the versions on disk and refuses one
  that is not there, \<open>RollbackToVersion\<close> makes its argument the last one, and creating an application over a
  database does not commit to it.\<close>

definition store_laws :: "StoreOps \<Rightarrow> 'w snap_factory \<Rightarrow> bool" where
  "store_laws ops factory \<longleftrightarrow>
     (\<forall>v db db1. so_LoadVersion ops v db = (Ok (), db1) \<longrightarrow>
        so_LatestVersion ops db1 = so_LatestVersion ops db \<and> (0 < v \<longrightarrow> v \<le> so_LatestVersion ops db)) \<and>
     (\<forall>v db db1. so_RollbackToVersion ops v db = (Ok (), db1) \<longrightarrow> 0 < v \<longrightarrow> v < so_LatestVersion ops db \<longrightarrow>
        so_LatestVersion ops db1 = v) \<and>
     (\<forall>b db db1. sf_create factory b db = (Ok (), db1) \<longrightarrow> so_LatestVersion ops db1 = so_LatestVersion ops db)"

lemma loadAndTruncate_pinned:
  assumes "store_laws ops factory" "0 < v" "loadAndTruncate ops v db = (Ok (), db')"
  shows "so_LatestVersion ops db' = v"
proof -
  obtain db1 where l: "so_LoadVersion ops v db = (Ok (), db1)"
    using assms(3) by (auto simp: loadAndTruncate_def Let_def split: prod.splits go.splits)
  then have l1: "so_LatestVersion ops db1 = so_LatestVersion ops db" "v \<le> so_LatestVersion ops db"
    using assms(1,2) by (auto simp: store_laws_def)
  show ?thesis
  proof (cases "v < so_LatestVersion ops db")
    case True
    then have "so_RollbackToVersion ops v db1 = (Ok (), db')"
      using assms(2,3) l by (auto simp: loadAndTruncate_def Let_def st_wrap_def wrap_err_def split: prod.splits go.splits)
    then show ?thesis using assms(1,2) l1 True by (auto simp: store_laws_def)
  next
    case False
    then show ?thesis using assms(3) l l1 by (auto simp: loadAndTruncate_def Let_def)
  qed
qed

lemma on_temp_Ok:
  assumes "on_temp dir f w = (Ok x, w')"
  shows "\<exists>db db1. map_of (sw_temps w) dir = Some db \<and> f db = (Ok x, db1) \<and> map_of (sw_temps w') dir = Some db1 \<and>
    sw_source w' = sw_source w"
proof -
  have "map_of (map (\<lambda>(d, n). (d, if d = dir then y else n)) ts) dir = Some y" if "map_of ts dir = Some z" for y z ts
    using that by (induction ts) auto
  then show ?thesis using assms by (auto simp: on_temp_def split: option.splits prod.splits)
qed

lemma or_cleanup_Ok: "or_cleanup msg m s = (Ok x, s') \<longleftrightarrow> m s = (Ok x, s')"
  by (auto simp: or_cleanup_def split: prod.splits go.splits)

lemma setup_side_pinned:
  assumes "store_laws ops factory" "0 < v" "setup_side ops registered factory outputs name dir v (e, w) = (Ok (), s')"
  shows "\<exists>w' db. s' = (e, w') \<and> map_of (sw_temps w') dir = Some db \<and> so_LatestVersion ops db = v \<and>
    (\<forall>d. d \<noteq> dir \<longrightarrow> map_of (sw_temps w') d = map_of (sw_temps w) d) \<and> sw_source w' = sw_source w"
proof -
  obtain w1 w2 where w1: "on_temp dir (sf_create factory outputs) w = (Ok (), w1)"
      and w2: "on_temp dir (loadAndTruncate ops v) w1 = (Ok (), w2)" and s': "s' = (e, w2)"
    using assms(3) by (auto simp: setup_side_def st_bind_Ok or_cleanup_Ok on_world_Ok st_lift_def)
  obtain db db' where "loadAndTruncate ops v db = (Ok (), db')" "map_of (sw_temps w2) dir = Some db'"
      "sw_source w2 = sw_source w1"
    using on_temp_Ok [OF w2] by blast
  then show ?thesis
    using s' loadAndTruncate_pinned [OF assms(1,2)] on_temp_Ok [OF w1] on_temp_frame [OF w1] on_temp_frame [OF w2]
    by auto
qed

lemma PruneSnapshot_pinned:
  assumes "store_laws ops factory" "0 < v" "PruneSnapshot sys ops dir v factory w = (Ok (), w')"
  shows "\<exists>db. sw_source w' = Some db \<and> so_LatestVersion ops db = v"
proof -
  obtain w1 w2 where "on_source (loadAndTruncate ops v) w1 = (Ok (), w2)" "w' = closeDB dir w2"
    using assms(3) by (auto simp: PruneSnapshot_def split: prod.splits go.splits)
  then have "\<exists>db db'. loadAndTruncate ops v db = (Ok (), db') \<and> sw_source w2 = Some db'" "w' = closeDB dir w2"
    by (auto simp: on_source_def split: option.splits prod.splits)
  then show ?thesis using loadAndTruncate_pinned [OF assms(1,2)] by (auto simp: closeDB_def)
qed

lemma InitFromState_Ok:
  assumes "InitFromState sys ops registered dir meta (e, w) = (Ok (), e', w')" "1 < rm_Start meta"
  shows "\<exists>fn w1 w2 w3 w4 od pd. sx_appFactoryFn e = Some fn \<and>
    PruneSnapshot sys ops dir (rm_Start meta - 1) (fn \<lparr>gs_Accounts = []\<rparr>) w = (Ok (), w1) \<and>
    copyAndOpenApplicationDB sys dir oraclePattern w1 = (Ok od, w2) \<and>
    copyAndOpenApplicationDB sys dir probePattern w2 = (Ok pd, w3) \<and>
    (\<exists>e3 e5. setup_side ops registered (fn \<lparr>gs_Accounts = []\<rparr>) True ''oracle'' od (rm_Start meta - 1) (e3, w3) = (Ok (), e3, w4) \<and>
      setup_side ops registered (fn \<lparr>gs_Accounts = []\<rparr>) False ''probe'' pd (rm_Start meta - 1) (e5, w4) = (Ok (), e5, w')) \<and>
    sx_oracle e' = Some od \<and> sx_probe e' = Some pd"
proof (cases "sx_appFactoryFn e")
  case None
  then show ?thesis using assms(1) by (simp add: InitFromState_def)
next
  case (Some fn)
  have frame: "setup_side ops registered f outputs name d v (x, y) = (Ok (), x', y') \<Longrightarrow>
      x' = x \<and> setup_side ops registered f outputs name d v (x, y) = (Ok (), x, y')" for f outputs name d v x y x' y'
    by (auto simp: setup_side_def st_bind_Ok or_cleanup_Ok on_world_Ok)
  have "dir \<noteq> ''''" using assms(1) Some by (auto simp: InitFromState_def)
  then have "\<exists>w1 w2 w3 w4 od pd e3 e4 e5 e6.
      PruneSnapshot sys ops dir (rm_Start meta - 1) (fn \<lparr>gs_Accounts = []\<rparr>) w = (Ok (), w1) \<and>
      copyAndOpenApplicationDB sys dir oraclePattern w1 = (Ok od, w2) \<and>
      copyAndOpenApplicationDB sys dir probePattern w2 = (Ok pd, w3) \<and>
      setup_side ops registered (fn \<lparr>gs_Accounts = []\<rparr>) True ''oracle'' od (rm_Start meta - 1) (e3, w3) = (Ok (), e4, w4) \<and>
      setup_side ops registered (fn \<lparr>gs_Accounts = []\<rparr>) False ''probe'' pd (rm_Start meta - 1) (e5, w4) = (Ok (), e6, w') \<and>
      e' = e6\<lparr>sx_oracle := Some od, sx_probe := Some pd\<rparr>"
    using assms Some
    by (auto simp: InitFromState_def Let_def st_bind_Ok on_world_Ok st_modify_def stage_oracle_def stage_probe_def
        or_cleanup_Ok st_lift_def st_wrap_def wrap_err_def split: prod.splits go.splits) blast
  then obtain w1 w2 w3 w4 od pd e3 e4 e5 e6 where
      p: "PruneSnapshot sys ops dir (rm_Start meta - 1) (fn \<lparr>gs_Accounts = []\<rparr>) w = (Ok (), w1)"
        "copyAndOpenApplicationDB sys dir oraclePattern w1 = (Ok od, w2)"
        "copyAndOpenApplicationDB sys dir probePattern w2 = (Ok pd, w3)"
      and s: "setup_side ops registered (fn \<lparr>gs_Accounts = []\<rparr>) True ''oracle'' od (rm_Start meta - 1) (e3, w3) = (Ok (), e4, w4)"
        "setup_side ops registered (fn \<lparr>gs_Accounts = []\<rparr>) False ''probe'' pd (rm_Start meta - 1) (e5, w4) = (Ok (), e6, w')"
      and e': "e' = e6\<lparr>sx_oracle := Some od, sx_probe := Some pd\<rparr>"
    by blast
  have "sx_oracle e' = Some od" "sx_probe e' = Some pd" by (simp_all add: e')
  then show ?thesis using Some p frame [OF s(1)] frame [OF s(2)] by blast
qed


lemma example_store_laws: "store_laws example_ops example_factory"
  by (auto simp: store_laws_def example_ops_def example_factory_def split: fnode.splits if_splits)


section \<open>Blocks\<close>

lemma view_block:
  "fe_build (snapshot_view e app) (b\<lparr>bl_Txs := []\<rparr>) seqs = (Ok [], seqs)"
  "block_txs (b\<lparr>bl_Txs := []\<rparr>) [] = bl_RawTxs b"
  "block_trackers (snapshot_view e app) h w = (sr_oracleTrackers e, None, w)"
  by (simp_all add: snapshot_view_def block_txs_def block_trackers_def)

text \<open>The block run is the fixture executor's on the raw transactions, with other coverage keys.\<close>

lemma snapshot_simulates:
  assumes "sr_oracle e = Some app"
  shows "snapshot_RunBlock e b height w =
    (case fixture_RunBlock (snapshot_view e app) (b\<lparr>bl_Txs := []\<rparr>) height (seqs, w) of
       (r, _, w') \<Rightarrow> (go_bind r (\<lambda>x. Ok (x\<lparr>r_MsgKeys := decodeMsgKeys (sr_decoder e) (bl_RawTxs b), r_TxWriteSets := []\<rparr>)), w'))"
proof -
  let ?fe = "snapshot_view e app" and ?txs = "bl_RawTxs b" and ?tr = "sr_oracleTrackers e"
  have v: "fe_PostRunBlock ?fe = None" "fe_Oracle ?fe = app" "fe_Probe ?fe = sr_probe e"
    by (simp_all add: snapshot_view_def)
  have raw: "(if ([]::bytes list) = [] \<and> bl_RawTxs (b\<lparr>bl_Txs := []\<rparr>) \<noteq> [] then bl_RawTxs (b\<lparr>bl_Txs := []\<rparr>) else []) = ?txs"
    by simp
  have tx: "bl_Txs (b\<lparr>bl_Txs := []\<rparr>) = []" by simp
  obtain res st where run: "Run (block_input ?fe height ?txs ?tr None (take_snapshots ?tr w))
      (start_state ?fe (length ?txs) ?tr w) = (res, st)" by fastforce
  have fx: "fixture_RunBlock ?fe (b\<lparr>bl_Txs := []\<rparr>) height (seqs, w) =
    (case res of
       Panic p \<Rightarrow> (Panic p, seqs, st_world st)
     | Err x \<Rightarrow> (Err x, seqs, st_world st)
     | Ok r \<Rightarrow> (case commit_both app (sr_probe e) (st_world st) of
         (Ok _, w3) \<Rightarrow> (Ok (add_msg_keys [] (length ?txs) (st_oracleObs st) (add_conflicts (st_sink st) r)), seqs, w3)
       | (Err x, w3) \<Rightarrow> (Err x, seqs, w3)
       | (Panic p, w3) \<Rightarrow> (Panic p, seqs, w3)))"
    unfolding fixture_RunBlock_def prod.case view_block go.case Let_def raw run v option.case
    unfolding tx by (rule refl)
  have sn: "snapshot_RunBlock e b height w =
    (case res of
       Panic p \<Rightarrow> (Panic p, st_world st)
     | Err x \<Rightarrow> (Err x, st_world st)
     | Ok r \<Rightarrow> (case commit_both app (sr_probe e) (st_world st) of
         (Ok _, w1) \<Rightarrow> (Ok (add_conflicts (st_sink st) (r\<lparr>r_MsgKeys := decodeMsgKeys (sr_decoder e) ?txs\<rparr>)), w1)
       | (Err x, w1) \<Rightarrow> (Err x, w1)
       | (Panic p, w1) \<Rightarrow> (Panic p, w1)))"
    unfolding snapshot_RunBlock_def assms by (simp add: run)
  show ?thesis
  proof (cases res)
    case (Ok r)
    have "r_TxWriteSets r = []" using run unfolding Ok Run_Ok_iff by (auto simp: block_result_def split: prod.splits)
    then have "add_conflicts (st_sink st) (r\<lparr>r_MsgKeys := decodeMsgKeys (sr_decoder e) ?txs\<rparr>) =
        (add_msg_keys [] (length ?txs) (st_oracleObs st) (add_conflicts (st_sink st) r))
          \<lparr>r_MsgKeys := decodeMsgKeys (sr_decoder e) ?txs, r_TxWriteSets := []\<rparr>"
      by (cases r) (simp add: add_msg_keys_def add_conflicts_def split: prod.split option.split)
    then show ?thesis unfolding fx sn Ok by (cases "commit_both app (sr_probe e) (st_world st)") (simp split: go.split)
  qed (simp_all add: fx sn)
qed


definition example_sr :: "nat SnapshotRun" where
  "example_sr = \<lparr>sr_oracle = Some example_oracle, sr_probe = example_probe, sr_oracleTrackers = fe_Trackers example_fe,
     sr_conflictDetection = True, sr_conflictInstaller = True, sr_statsInstaller = True, sr_decoder = (\<lambda>b. if b = [0, 1, 9] then Some [''/cosmos.bank.v1beta1.MsgSend''] else None),
     sr_NonDet = None\<rparr>"

definition example_raw_block :: BlockSpec where
  "example_raw_block = \<lparr>bl_Txs = [], bl_RawTxs = [[0, 1, 9]], bl_Height = 5\<rparr>"

lemma example_snapshot_runs: "\<exists>r w'. snapshot_RunBlock example_sr example_raw_block 5 0 = (Ok r, w')"
proof -
  let ?fe = "snapshot_view example_sr example_oracle" and ?b = "example_raw_block\<lparr>bl_Txs := []\<rparr>"
  have o: "sr_oracle example_sr = Some example_oracle" by (simp add: example_sr_def)
  have start: "start_state ?fe n t w = start_state example_fe n t w" for n t w
    by (simp add: start_state_def snapshot_view_def example_fe_def example_sr_def)
  have fe: "fe_Oracle ?fe = example_oracle" "fe_Probe ?fe = example_probe"
      "sr_oracleTrackers example_sr = fe_Trackers example_fe" "bl_RawTxs example_raw_block = [[0, 1, 9]]"
    by (simp_all add: snapshot_view_def example_sr_def example_raw_block_def)
  obtain st1 where o1: "finalize Oracle example_oracle 5 [[0, 1, 9]]
      (start_state example_fe 1 (fe_Trackers example_fe) 0) = (Ok example_response, st1)"
    using example_oracle_run by blast
  let ?st2 = "post_oracle_hook ?fe (fe_Trackers example_fe) (take_snapshots (fe_Trackers example_fe) 0) st1"
  obtain st3 where p: "finalize Probe example_probe 5 [[0, 1, 9]] ?st2 = (Ok example_response, st3)"
    using example_probe_run by blast
  have st: "block_stages ?fe 5 (block_txs ?b []) (fe_Trackers example_fe) 0 example_response st1 ?st2 example_response st3"
    using o1 p by (simp add: block_stages_def view_block fe start)
  have "\<exists>r w'. fixture_RunBlock ?fe ?b 5 (\<lambda>_. 0, 0) = (Ok r, \<lambda>_. 0, w')"
  proof (rule fixture_Ok_intro [OF view_block(1) _ st, where ctxMuts = None])
    show "fst (commit_both (fe_Oracle ?fe) (fe_Probe ?fe) w) = Ok ()" for w
      unfolding fe by (simp add: commit_both_def example_oracle_def example_probe_def)
  qed (simp add: view_block fe)
  then show ?thesis unfolding snapshot_simulates [OF o, of example_raw_block 5 0 "\<lambda>_. 0"] by auto
qed


section \<open>Copies are exact\<close>

text \<open>A copy succeeds exactly when the source is a directory and every system call it makes succeeds, one
  after the other in depth-first order, and then it is the source: names, permissions, contents and order.\<close>

theorem copy_faithful:
  "copyDir sys src dst node = Ok t \<longleftrightarrow>
     (case node of File _ _ \<Rightarrow> False | Dir _ _ \<Rightarrow> t = node \<and> succeeds sys (dir_calls src dst node))"
  by (rule copy_exact(1))

end
