(* ===== verification/Go_Ast.thy ===== *)
theory Go_Ast
  imports Go_Prelude "HOL-Library.Sublist"
begin

text \<open>
  What the two static analyses (\<open>detect/\<close> and \<open>lint/\<close>) share: Go syntax trees as \<open>go/ast\<close> has them, with
  the node kinds the scanners look at and \<open>Other\<close> for the rest, the pre-order traversal of \<open>ast.Inspect\<close>, the
  types of \<open>go/types\<close>, directory trees and \<open>filepath.WalkDir\<close>, and the paths. Parsing, loading packages and
  type checking are done by libraries: a parser, the loaded packages and the types of expressions are
  arguments. A position is a number; a file's \<open>gf_Line\<close> is its line table (\<open>token.FileSet\<close>). Identifiers are
  ASCII.
\<close>

section \<open>Syntax\<close>

text \<open>Positions are those of the node's first token where the node has one of its own. \<open>Index\<close> is an
  \<open>IndexExpr\<close> or an \<open>IndexListExpr\<close>; a \<open>FuncLit\<close> has the nodes of its type and its body; a \<open>Range\<close> its key and
  value, the ranged expression and its body.\<close>

datatype node =
    Ident nat string
  | Selector node string
  | Index node "node list"
  | Call node "node list"
  | FuncLit nat "node list" node
  | Range nat "node list" node node
  | Assign "node list" "node list"
  | IncDec node
  | Other nat "node list"

fun is_FuncLit :: "node \<Rightarrow> bool" where
  "is_FuncLit (FuncLit p ty body) = True"
| "is_FuncLit n = False"

fun children :: "node \<Rightarrow> node list" where
  "children (Ident p s) = []"
| "children (Selector x s) = [x]"
| "children (Index x is) = x # is"
| "children (Call f as) = f # as"
| "children (FuncLit p ty body) = ty @ [body]"
| "children (Range p kv x body) = kv @ [x, body]"
| "children (Assign ls rs) = ls @ rs"
| "children (IncDec x) = [x]"
| "children (Other p ns) = ns"

fun node_pos :: "node \<Rightarrow> nat" where
  "node_pos (Ident p s) = p"
| "node_pos (Selector x s) = node_pos x"
| "node_pos (Index x is) = node_pos x"
| "node_pos (Call f as) = node_pos f"
| "node_pos (FuncLit p ty body) = p"
| "node_pos (Range p kv x body) = p"
| "node_pos (Assign ls rs) = (case ls of [] \<Rightarrow> 0 | l # _ \<Rightarrow> node_pos l)"
| "node_pos (IncDec x) = node_pos x"
| "node_pos (Other p ns) = p"

lemma size_children [simp, termination_simp]: "c \<in> set (children n) \<Longrightarrow> size c < size n"
  by (cases n) (auto dest!: size_list_estimation' [where f = size, OF _ order_refl])

text \<open>A function declaration with the names of each receiver field, or another declaration: whether it
  declares variables and the names of its value specifications.\<close>

record FuncDecl =
  fd_Name :: string
  fd_Recv :: "string list list option"
  fd_Body :: "node option"

datatype decl = FuncD FuncDecl | GenD bool "string list list"

record GoFile =
  gf_Imports :: "(string \<times> string option) list"
  gf_Decls :: "decl list"
  gf_Line :: "nat \<Rightarrow> int"

section \<open>Traversal\<close>

text \<open>\<open>ast.Inspect\<close> with a visitor that always descends: what it emits, in pre-order.\<close>

fun inspect :: "(node \<Rightarrow> 'a list) \<Rightarrow> node \<Rightarrow> 'a list" where
  "inspect visit n = visit n @ concat (map (inspect visit) (children n))"

declare inspect.simps [simp del]

inductive within :: "node \<Rightarrow> node \<Rightarrow> bool" where
  within_self: "within n n"
| within_child: "c \<in> set (children n) \<Longrightarrow> within x c \<Longrightarrow> within x n"

lemma inspect_exact: "a \<in> set (inspect visit n) \<longleftrightarrow> (\<exists>x. within x n \<and> a \<in> set (visit x))"
proof
  show "a \<in> set (inspect visit n) \<Longrightarrow> \<exists>x. within x n \<and> a \<in> set (visit x)"
  proof (induction visit n rule: inspect.induct)
    case (1 visit n)
    from "1.prems" consider "a \<in> set (visit n)" | c where "c \<in> set (children n)" "a \<in> set (inspect visit c)"
      by (subst (asm) inspect.simps) auto
    then show ?case using "1.IH" by cases (blast intro: within.intros)+
  qed
  have "within x n \<Longrightarrow> a \<in> set (visit x) \<Longrightarrow> a \<in> set (inspect visit n)" for x
    by (induction rule: within.induct) (subst inspect.simps, auto)+
  then show "\<exists>x. within x n \<and> a \<in> set (visit x) \<Longrightarrow> a \<in> set (inspect visit n)" by blast
qed

section \<open>Types\<close>

text \<open>A named type has the path of its package, if it has one, and an underlying type.\<close>

datatype gotype = TMap | TPointer gotype | TNamed "string option" gotype | TAlias gotype | TOther

fun underlying :: "gotype \<Rightarrow> gotype" where
  "underlying (TNamed pkg t) = underlying t"
| "underlying (TAlias t) = underlying t"
| "underlying t = t"

type_synonym types_info = "node \<Rightarrow> gotype option"

section \<open>Strings and paths\<close>

fun split_slash :: "string \<Rightarrow> string list" where
  "split_slash [] = [[]]"
| "split_slash (c # s) = (if c = CHR ''/'' then [] # split_slash s
     else (case split_slash s of [] \<Rightarrow> [[c]] | p # ps \<Rightarrow> (c # p) # ps))"

lemma split_slash_not_Nil [simp]: "split_slash s \<noteq> []"
  by (induction s) (auto split: list.split)

definition path_base :: "string \<Rightarrow> string" where
  "path_base p = last (split_slash p)"

definition lower_char :: "char \<Rightarrow> char" where
  "lower_char c = (if 65 \<le> (of_char c :: nat) \<and> (of_char c :: nat) \<le> 90 then char_of ((of_char c :: nat) + 32) else c)"

definition ToLower :: "string \<Rightarrow> string" where
  "ToLower s = map lower_char s"

definition trim_quotes :: "string \<Rightarrow> string" where
  "trim_quotes s = (let q = (\<lambda>c. (of_char c :: nat) = 34) in rev (dropWhile q (rev (dropWhile q s))))"

text \<open>Whether a relative path is one of the excluded prefixes or below one.\<close>

definition shouldSkipRelPath :: "string \<Rightarrow> string list \<Rightarrow> bool" where
  "shouldSkipRelPath rel excludePaths \<longleftrightarrow> (\<exists>p \<in> set excludePaths. rel = p \<or> prefix (p @ ''/'') rel)"

definition shouldSkipFile :: "string \<Rightarrow> bool" where
  "shouldSkipFile path \<longleftrightarrow> suffix ''_test.go'' (path_base path) \<or>
     (\<exists>part \<in> set (split_slash path). part \<in> {''vendor'', ''testutil'', ''mock''})"

definition ModuleFromPath :: "string \<Rightarrow> string" where
  "ModuleFromPath relPath =
     (let parts = split_slash relPath
      in if 2 \<le> length parts \<and> parts ! 0 = ''x'' then parts ! 1 else parts ! 0)"

section \<open>Directory trees\<close>

text \<open>A directory whose listing fails has the error; the entries are in the order of \<open>os.ReadDir\<close>.\<close>

datatype 'f tree = TFile string 'f | TDir string "go_error option" "'f tree list"

fun tree_name :: "'f tree \<Rightarrow> string" where
  "tree_name (TFile name c) = name"
| "tree_name (TDir name e ts) = name"

definition rel_join :: "string \<Rightarrow> string \<Rightarrow> string" where
  "rel_join rel name = (if rel = ''.'' then name else rel @ ''/'' @ name)"

text \<open>\<open>filepath.WalkDir\<close> with a callback that skips the directories of some names and stops at a listing
  that fails: the files visited, with relative path and name, and the error.\<close>

fun walk_dir :: "string list \<Rightarrow> string \<Rightarrow> 'f tree \<Rightarrow> (string \<times> string \<times> 'f) list \<times> go_error option"
  and walk_list :: "string list \<Rightarrow> string \<Rightarrow> 'f tree list \<Rightarrow> (string \<times> string \<times> 'f) list \<times> go_error option" where
  "walk_dir skips rel (TFile name c) = ([(rel, name, c)], None)"
| "walk_dir skips rel (TDir name e ts) =
     (if name \<in> set skips then ([], None)
      else case e of Some err \<Rightarrow> ([], Some err) | None \<Rightarrow> walk_list skips rel ts)"
| "walk_list skips rel [] = ([], None)"
| "walk_list skips rel (t # ts) =
     (case walk_dir skips (rel_join rel (tree_name t)) t of
        (fs, Some err) \<Rightarrow> (fs, Some err)
      | (fs, None) \<Rightarrow> (case walk_list skips rel ts of (gs, e) \<Rightarrow> (fs @ gs, e)))"

text \<open>Scanning a tree: the Go files that are no tests and not excluded, those that parse counted and
  scanned.\<close>

definition scan_tree ::
  "string list \<Rightarrow> ('f \<Rightarrow> GoFile option) \<Rightarrow> (GoFile \<Rightarrow> string \<Rightarrow> 'x list) \<Rightarrow> string list \<Rightarrow> 'f tree \<Rightarrow>
   (nat \<times> 'x list) \<times> go_error option" where
  "scan_tree skips parse scan excludePaths root =
     (let (fs, e) = walk_dir skips ''.'' root;
          go = filter (\<lambda>(rel, name, c). suffix ''.go'' name \<and> \<not> suffix ''_test.go'' name \<and>
                 \<not> shouldSkipRelPath rel excludePaths) fs;
          parsed = List.map_filter (\<lambda>(rel, name, c). map_option (Pair rel) (parse c)) go
      in ((length parsed, concat (map (\<lambda>(rel, f). scan f rel) parsed)), e))"

section \<open>Packages\<close>

text \<open>A loaded package: its errors, the parsed files by name, the source files, and the types.\<close>

record 'f Package =
  pk_Errors :: "string list"
  pk_Syntax :: "(string \<times> GoFile) list"
  pk_GoFiles :: "(string \<times> 'f) list"
  pk_TypesInfo :: "types_info option"

definition rel_path :: "(string \<Rightarrow> string go) \<Rightarrow> string \<Rightarrow> string" where
  "rel_path rel filename = (case rel filename of Ok r \<Rightarrow> r | _ \<Rightarrow> filename)"

definition wanted :: "(string \<Rightarrow> string go) \<Rightarrow> string list \<Rightarrow> string \<times> 'c \<Rightarrow> bool" where
  "wanted rel excludePaths = (\<lambda>(filename, _). \<not> shouldSkipFile filename \<and>
     \<not> shouldSkipRelPath (rel_path rel filename) excludePaths)"

definition scan_package ::
  "(string \<Rightarrow> string go) \<Rightarrow> ('f \<Rightarrow> GoFile option) \<Rightarrow> (types_info option \<Rightarrow> GoFile \<Rightarrow> string \<Rightarrow> 'x list) \<Rightarrow> string list \<Rightarrow>
   'f Package \<Rightarrow> nat \<times> 'x list" where
  "scan_package rel parse scan excludePaths pkg =
     (let typesInfo = (if pk_Errors pkg \<noteq> [] then None else pk_TypesInfo pkg);
          files = (if pk_Syntax pkg \<noteq> []
                   then map (\<lambda>(n, f). (rel_path rel n, f)) (filter (wanted rel excludePaths) (pk_Syntax pkg))
                   else if pk_Errors pkg \<noteq> []
                   then List.map_filter (\<lambda>(n, c). map_option (Pair (rel_path rel n)) (parse c))
                          (filter (wanted rel excludePaths) (pk_GoFiles pkg))
                   else [])
      in (length files, concat (map (\<lambda>(r, f). scan typesInfo f r) files)))"

definition scan_packages ::
  "(string \<Rightarrow> string go) \<Rightarrow> ('f \<Rightarrow> GoFile option) \<Rightarrow> (types_info option \<Rightarrow> GoFile \<Rightarrow> string \<Rightarrow> 'x list) \<Rightarrow> string list \<Rightarrow>
   'f Package list \<Rightarrow> nat \<times> 'x list" where
  "scan_packages rel parse scan excludePaths pkgs =
     (let rs = map (scan_package rel parse scan excludePaths) pkgs
      in (sum_list (map fst rs), concat (map snd rs)))"

end
