(* ===== verification/Detect.thy ===== *)
theory Detect
  imports Go_Ast
begin

text \<open>
  \<open>detect/\<close>: the scanner for non-deterministic calls. The rules and their index (\<open>rules.go\<close>), the
  syntactic scanner (\<open>scanner.go\<close>), the one that uses types and falls back to it (\<open>typescanner.go\<close>), the three
  reports and the command. Warnings on standard error are left out.
\<close>

section \<open>Rules\<close>

datatype Category = CatTime | CatRand | CatIO | CatMapIter | CatPointer

fun category_string :: "Category \<Rightarrow> string" where
  "category_string CatTime = ''time''"
| "category_string CatRand = ''rand''"
| "category_string CatIO = ''io''"
| "category_string CatMapIter = ''map_iter''"
| "category_string CatPointer = ''pointer''"

record DetectFinding =
  df_Category :: Category
  df_File :: string
  df_Line :: int
  df_FuncName :: string
  df_Call :: string
  df_Module :: string

record ScanResult =
  sc_Findings :: "DetectFinding list"
  sc_Files :: nat

record Rule =
  ru_ImportPath :: string
  ru_FuncNames :: "string list"
  ru_Category :: Category

definition rule :: "string \<Rightarrow> string list \<Rightarrow> Category \<Rightarrow> Rule" where
  "rule path names cat = \<lparr>ru_ImportPath = path, ru_FuncNames = names, ru_Category = cat\<rparr>"

definition DefaultRules :: "Rule list" where
  "DefaultRules = [
     rule ''time'' [''Now'', ''Since'', ''Until'', ''NewTicker'', ''NewTimer'', ''After'', ''AfterFunc'', ''Tick''] CatTime,
     rule ''crypto/rand'' [''Read'', ''Int'', ''Prime''] CatRand,
     rule ''math/rand'' [''Int'', ''Intn'', ''Int31'', ''Int31n'', ''Int63'', ''Int63n'',
       ''Float32'', ''Float64'', ''Uint32'', ''Uint64'', ''NormFloat64'', ''ExpFloat64'', ''Perm'', ''Shuffle'',
       ''Read''] CatRand,
     rule ''os'' [''Open'', ''OpenFile'', ''ReadFile'', ''WriteFile'', ''Create'', ''Getenv'', ''LookupEnv'', ''Environ'',
       ''ReadDir'', ''Mkdir'', ''MkdirAll'', ''Remove'', ''RemoveAll'', ''Stat'', ''Lstat''] CatIO,
     rule ''net'' [''Dial'', ''Listen'', ''DialTimeout'', ''DialTCP'', ''DialUDP'', ''DialIP'', ''ListenTCP'', ''ListenUDP''] CatIO,
     rule ''net/http'' [''Get'', ''Post'', ''Head'', ''NewRequest''] CatIO,
     rule ''reflect'' [''ValueOf''] CatPointer,
     rule ''runtime'' [''Noescape''] CatPointer]"

text \<open>The index, a map of maps.\<close>

type_synonym ruleIndex = "string \<rightharpoonup> string \<rightharpoonup> Category"

definition index_rule :: "Rule \<Rightarrow> ruleIndex \<Rightarrow> ruleIndex" where
  "index_rule r idx =
     (let funcs = (case idx (ru_ImportPath r) of None \<Rightarrow> Map.empty | Some m \<Rightarrow> m)
      in idx(ru_ImportPath r \<mapsto> fold (\<lambda>fn m. m(fn \<mapsto> ru_Category r)) (ru_FuncNames r) funcs))"

definition rule_index :: "Rule list \<Rightarrow> ruleIndex" where
  "rule_index rs = fold index_rule rs Map.empty"

definition Lookup :: "ruleIndex \<Rightarrow> string \<Rightarrow> string \<Rightarrow> Category option" where
  "Lookup idx importPath funcName = (case idx importPath of None \<Rightarrow> None | Some funcs \<Rightarrow> funcs funcName)"

section \<open>The scanner\<close>

definition abciHookFunctions :: "string list" where
  "abciHookFunctions = [''BeginBlocker'', ''EndBlocker'', ''PreBlocker'', ''PreBlock'', ''EndBlock'', ''BeginBlock'']"

definition mapLikeName :: "node \<Rightarrow> string" where
  "mapLikeName expr =
     (let name = (case expr of Ident p s \<Rightarrow> s | Selector x s \<Rightarrow> s | _ \<Rightarrow> '''')
      in if list_ex (\<lambda>kw. sublist kw (ToLower name))
           [''map'', ''cache'', ''index'', ''registry'', ''table'', ''store'', ''dict'', ''lookup'']
         then name else '''')"

definition add_import :: "string \<times> string option \<Rightarrow> (string \<rightharpoonup> string) \<Rightarrow> string \<rightharpoonup> string" where
  "add_import = (\<lambda>(value, name) m.
     let path = trim_quotes value in
     case name of
       Some alias \<Rightarrow> if alias = ''_'' \<or> alias = ''.'' then m else m(alias \<mapsto> path)
     | None \<Rightarrow> m(last (split_slash path) \<mapsto> path))"

definition buildAliasMap :: "GoFile \<Rightarrow> string \<rightharpoonup> string" where
  "buildAliasMap f = fold add_import (gf_Imports f) Map.empty"

text \<open>What a file contributes to its findings, and a finding in it.\<close>

record file_ctx =
  fc_rel :: string
  fc_module :: string
  fc_line :: "nat \<Rightarrow> int"
  fc_aliases :: "string \<rightharpoonup> string"

definition finding_at :: "file_ctx \<Rightarrow> Category \<Rightarrow> node \<Rightarrow> string \<Rightarrow> string \<Rightarrow> DetectFinding" where
  "finding_at c cat n funcName call = \<lparr>df_Category = cat, df_File = fc_rel c, df_Line = fc_line c (node_pos n),
     df_FuncName = funcName, df_Call = call, df_Module = fc_module c\<rparr>"

definition call_findings :: "ruleIndex \<Rightarrow> file_ctx \<Rightarrow> string \<Rightarrow> node \<Rightarrow> DetectFinding list" where
  "call_findings idx c funcName n =
     (case n of
        Call (Selector (Ident p ident) sel) args \<Rightarrow>
          (case fc_aliases c ident of
             None \<Rightarrow> []
           | Some importPath \<Rightarrow>
               (case Lookup idx importPath sel of
                  None \<Rightarrow> []
                | Some cat \<Rightarrow> [finding_at c cat n funcName (importPath @ ''.'' @ sel)]))
      | _ \<Rightarrow> [])"

definition range_findings :: "file_ctx \<Rightarrow> string \<Rightarrow> node \<Rightarrow> DetectFinding list" where
  "range_findings c funcName n =
     (case n of
        Range p kv x body \<Rightarrow>
          (if mapLikeName x \<noteq> '''' then [finding_at c CatMapIter n funcName (''range '' @ mapLikeName x)] else [])
      | _ \<Rightarrow> [])"

text \<open>The traversal of a body: a closure is scanned under its own name, every other node by \<open>at\<close>.\<close>

function scan_body :: "(string \<Rightarrow> node \<Rightarrow> 'x list) \<Rightarrow> string \<Rightarrow> node \<Rightarrow> 'x list" where
  "scan_body at funcName n =
     (case n of
        FuncLit p ty body \<Rightarrow> scan_body at (funcName @ ''.closure'') body
      | _ \<Rightarrow> at funcName n @ concat (map (scan_body at funcName) (children n)))"
  by pat_completeness auto
termination
  by (relation "measure (\<lambda>(at, funcName, n). size n)")
    (auto simp: less_Suc_eq_le intro: trans_le_add1 trans_le_add2 size_list_estimation' [OF _ order_refl])

declare scan_body.simps [simp del]

definition scanBody :: "ruleIndex \<Rightarrow> file_ctx \<Rightarrow> string \<Rightarrow> node \<Rightarrow> DetectFinding list" where
  "scanBody idx c = scan_body (\<lambda>funcName n. call_findings idx c funcName n @ range_findings c funcName n)"

definition ctx_of :: "GoFile \<Rightarrow> string \<Rightarrow> file_ctx" where
  "ctx_of f relPath = \<lparr>fc_rel = relPath, fc_module = ModuleFromPath relPath, fc_line = gf_Line f,
     fc_aliases = buildAliasMap f\<rparr>"

text \<open>The declarations of a file: functions with a body that are no block hooks.\<close>

definition scan_decls :: "(string \<Rightarrow> node \<Rightarrow> 'x list) \<Rightarrow> decl list \<Rightarrow> 'x list" where
  "scan_decls scan decls = concat (map (\<lambda>d.
     case d of
       FuncD fn \<Rightarrow> (case fd_Body fn of
           None \<Rightarrow> []
         | Some body \<Rightarrow> if fd_Name fn \<in> set abciHookFunctions then [] else scan (fd_Name fn) body)
     | GenD is_var names \<Rightarrow> []) decls)"

definition ScanFile :: "ruleIndex \<Rightarrow> GoFile \<Rightarrow> string \<Rightarrow> DetectFinding list" where
  "ScanFile idx f relPath = scan_decls (scanBody idx (ctx_of f relPath)) (gf_Decls f)"

definition scan_result :: "nat \<times> DetectFinding list \<Rightarrow> ScanResult" where
  "scan_result = (\<lambda>(n, fs). \<lparr>sc_Findings = fs, sc_Files = n\<rparr>)"

definition Scanner_ScanDir ::
  "Rule list \<Rightarrow> ('f \<Rightarrow> GoFile option) \<Rightarrow> 'f tree \<Rightarrow> string list \<Rightarrow> ScanResult \<times> go_error option" where
  "Scanner_ScanDir rules parse root excludePaths =
     (case scan_tree [''vendor'', ''testutil''] parse (ScanFile (rule_index rules)) excludePaths root of
        (r, e) \<Rightarrow> (scan_result r, e))"

section \<open>The scanner with types\<close>

definition isMapRange :: "node \<Rightarrow> types_info option \<Rightarrow> bool" where
  "isMapRange expr typesInfo =
     (case (case typesInfo of None \<Rightarrow> None | Some info \<Rightarrow> info expr) of
        Some t \<Rightarrow> underlying t = TMap
      | None \<Rightarrow> mapLikeName expr \<noteq> '''')"

definition exprName :: "node \<Rightarrow> string" where
  "exprName expr = (case expr of Ident p s \<Rightarrow> s | Selector x s \<Rightarrow> s | _ \<Rightarrow> ''map'')"

definition typed_range_findings :: "types_info option \<Rightarrow> file_ctx \<Rightarrow> string \<Rightarrow> node \<Rightarrow> DetectFinding list" where
  "typed_range_findings typesInfo c funcName n =
     (case n of
        Range p kv x body \<Rightarrow>
          (if isMapRange x typesInfo then [finding_at c CatMapIter n funcName (''range '' @ exprName x)] else [])
      | _ \<Rightarrow> [])"

definition scanBodyWithTypes :: "ruleIndex \<Rightarrow> types_info option \<Rightarrow> file_ctx \<Rightarrow> string \<Rightarrow> node \<Rightarrow> DetectFinding list" where
  "scanBodyWithTypes idx typesInfo c =
     scan_body (\<lambda>funcName n. call_findings idx c funcName n @ typed_range_findings typesInfo c funcName n)"

definition scanFileWithTypes :: "ruleIndex \<Rightarrow> types_info option \<Rightarrow> GoFile \<Rightarrow> string \<Rightarrow> DetectFinding list" where
  "scanFileWithTypes idx typesInfo f relPath = scan_decls (scanBodyWithTypes idx typesInfo (ctx_of f relPath)) (gf_Decls f)"

text \<open>\<open>TypeScanner.ScanDir\<close>: \<open>abs_root\<close> is \<open>filepath.Abs\<close> of the root, \<open>load\<close> is \<open>packages.Load\<close>.\<close>

definition TypeScanner_ScanDir ::
  "Rule list \<Rightarrow> ('f \<Rightarrow> GoFile option) \<Rightarrow> 'f tree \<Rightarrow> string go \<Rightarrow> (string \<Rightarrow> 'f Package list go) \<Rightarrow>
   (string \<Rightarrow> string \<Rightarrow> string go) \<Rightarrow> string list \<Rightarrow> ScanResult \<times> go_error option" where
  "TypeScanner_ScanDir rules parse root abs_root load rel excludePaths =
     (case abs_root of
        Ok absRoot \<Rightarrow>
          (case load absRoot of
             Ok pkgs \<Rightarrow>
               (if pkgs = [] then Scanner_ScanDir rules parse root []
                else (scan_result (scan_packages (rel absRoot) parse (scanFileWithTypes (rule_index rules))
                       excludePaths pkgs), None))
           | _ \<Rightarrow> Scanner_ScanDir rules parse root [])
      | _ \<Rightarrow> Scanner_ScanDir rules parse root [])"

section \<open>Reports\<close>

definition newline :: string where
  "newline = [CHR 0x0A]"

definition em_dash :: string where
  "em_dash = [CHR 0xE2, CHR 0x80, CHR 0x94]"

definition count_category :: "Category \<Rightarrow> DetectFinding list \<Rightarrow> nat" where
  "count_category cat fs = length (filter (\<lambda>f. df_Category f = cat) fs)"

text \<open>The text reporter, what each call writes.\<close>

definition text_Header :: "string \<Rightarrow> string" where
  "text_Header sdkPath = ''Detect  sdk-path='' @ sdkPath @ newline @ newline"

definition text_Finding :: "DetectFinding \<Rightarrow> string" where
  "text_Finding f = ''['' @ category_string (df_Category f) @ ''] '' @ df_File f @ '':'' @ itoa (df_Line f) @ ''  '' @
     df_FuncName f @ newline @ ''       '' @ df_Call f @ newline"

definition text_Footer :: "ScanResult \<Rightarrow> string \<Rightarrow> string" where
  "text_Footer result sdkPath =
     (let fs = sc_Findings result
      in newline @ ''Summary'' @ newline @ ''  '' @ nat_digits (length fs) @ '' findings / '' @
         nat_digits (count_category CatTime fs) @ '' time / '' @ nat_digits (count_category CatRand fs) @ '' rand / '' @
         nat_digits (count_category CatIO fs) @ '' io'' @ newline @
         ''  Scanned '' @ nat_digits (sc_Files result) @ '' files in '' @ sdkPath @ newline)"

text \<open>The two reporters that buffer findings until the footer have the same fields.\<close>

record BufferedReporter =
  br_sdkPath :: string
  br_findings :: "DetectFinding list"

definition NewBufferedReporter :: BufferedReporter where
  "NewBufferedReporter = \<lparr>br_sdkPath = '''', br_findings = []\<rparr>"

definition buffered_Header :: "string \<Rightarrow> BufferedReporter \<Rightarrow> BufferedReporter" where
  "buffered_Header sdkPath r = r\<lparr>br_sdkPath := sdkPath\<rparr>"

definition buffered_Finding :: "DetectFinding \<Rightarrow> BufferedReporter \<Rightarrow> BufferedReporter" where
  "buffered_Finding f r = r\<lparr>br_findings := br_findings r @ [f]\<rparr>"

record jsonDetectFinding =
  jd_Category :: string
  jd_File :: string
  jd_Line :: int
  jd_FuncName :: string
  jd_Call :: string
  jd_Module :: string

record jsonDetectSummary =
  js_Total :: nat
  js_Time :: nat
  js_Rand :: nat
  js_IO :: nat
  js_FilesScanned :: nat

record jsonDetectReport =
  jr_SchemaVersion :: int
  jr_SDKPath :: string
  jr_Summary :: jsonDetectSummary
  jr_Findings :: "jsonDetectFinding list"

definition json_detect_finding :: "DetectFinding \<Rightarrow> jsonDetectFinding" where
  "json_detect_finding f = \<lparr>jd_Category = category_string (df_Category f), jd_File = df_File f, jd_Line = df_Line f,
     jd_FuncName = df_FuncName f, jd_Call = df_Call f, jd_Module = df_Module f\<rparr>"

definition json_Footer :: "ScanResult \<Rightarrow> BufferedReporter \<Rightarrow> jsonDetectReport" where
  "json_Footer result r =
     (let fs = br_findings r
      in \<lparr>jr_SchemaVersion = 1, jr_SDKPath = br_sdkPath r,
          jr_Summary = \<lparr>js_Total = length fs, js_Time = count_category CatTime fs, js_Rand = count_category CatRand fs,
            js_IO = count_category CatIO fs, js_FilesScanned = sc_Files result\<rparr>,
          jr_Findings = map json_detect_finding fs\<rparr>)"

definition md_row :: "DetectFinding \<Rightarrow> string" where
  "md_row f = ''| `'' @ df_File f @ ''` | '' @ itoa (df_Line f) @ '' | `'' @ df_FuncName f @ ''` | `'' @ df_Call f @
     ''` | '' @ category_string (df_Category f) @ '' |'' @ newline"

definition md_modules :: "DetectFinding list \<Rightarrow> string list" where
  "md_modules fs = sort (remdups (map df_Module fs))"

definition md_module_findings :: "DetectFinding list \<Rightarrow> string \<Rightarrow> DetectFinding list" where
  "md_module_findings fs module = filter (\<lambda>f. df_Module f = module) fs"

definition md_section :: "DetectFinding list \<Rightarrow> string \<Rightarrow> string" where
  "md_section fs module = ''### '' @ module @ newline @ newline @
     ''| File | Line | Function | Call | Category |'' @ newline @
     ''|------|------|----------|------|----------|'' @ newline @
     concat (map md_row (md_module_findings fs module)) @ newline"

definition md_Footer :: "ScanResult \<Rightarrow> BufferedReporter \<Rightarrow> string" where
  "md_Footer result r =
     (let fs = br_findings r; mods = md_modules fs
      in ''# BlockSTM Sim '' @ em_dash @ '' Detect Report'' @ newline @ newline @
         ''**SDK Path:** '' @ br_sdkPath r @ newline @ newline @
         ''## Summary'' @ newline @ newline @
         ''| Category | Count |'' @ newline @ ''|----------|-------|'' @ newline @
         ''| time | '' @ nat_digits (count_category CatTime fs) @ '' |'' @ newline @
         ''| rand | '' @ nat_digits (count_category CatRand fs) @ '' |'' @ newline @
         ''| io | '' @ nat_digits (count_category CatIO fs) @ '' |'' @ newline @
         ''| **Total** | **'' @ nat_digits (length fs) @ ''** |'' @ newline @ newline @
         ''Scanned '' @ nat_digits (sc_Files result) @ '' files.'' @ newline @ newline @
         (if mods \<noteq> [] then ''## Findings by Module'' @ newline @ newline @ concat (map (md_section fs) mods) else '''') @
         ''## Reproduce'' @ newline @ newline @ ''```sh'' @ newline @
         ''blockstm-sim detect --sdk-path '' @ br_sdkPath r @ newline @ ''```'' @ newline)"

section \<open>The command\<close>

definition detect_less :: "DetectFinding \<Rightarrow> DetectFinding \<Rightarrow> bool" where
  "detect_less f g = (if df_File f \<noteq> df_File g then df_File f < df_File g else df_Line f < df_Line g)"

text \<open>\<open>sort.Slice\<close>, which is not stable, is the argument \<open>sort_slice\<close>; \<open>encode\<close> is the JSON encoder.\<close>

definition report_findings :: "(jsonDetectReport \<Rightarrow> string) \<Rightarrow> string \<Rightarrow> string \<Rightarrow> ScanResult \<Rightarrow> string" where
  "report_findings encode format sdkPath result =
     (let buffered = fold buffered_Finding (sc_Findings result) (buffered_Header sdkPath NewBufferedReporter)
      in if format = ''json'' then encode (json_Footer result buffered)
         else if format = ''markdown'' then md_Footer result buffered
         else text_Header sdkPath @ concat (map text_Finding (sc_Findings result)) @ text_Footer result sdkPath)"

definition detect_command ::
  "((DetectFinding \<Rightarrow> DetectFinding \<Rightarrow> bool) \<Rightarrow> DetectFinding list \<Rightarrow> DetectFinding list) \<Rightarrow>
   (jsonDetectReport \<Rightarrow> string) \<Rightarrow> ScanResult \<times> go_error option \<Rightarrow> string \<Rightarrow> string \<Rightarrow> string \<Rightarrow> string \<times> unit go" where
  "detect_command sort_slice encode scanned sdkPath category format =
     (case scanned of
        (_, Some e) \<Rightarrow> ('''', Err (ErrWrap ''scan'' e))
      | (result, None) \<Rightarrow>
         (let filtered = (if category \<noteq> ''''
                then filter (\<lambda>f. category_string (df_Category f) = category) (sc_Findings result)
                else sc_Findings result);
              result' = result\<lparr>sc_Findings := sort_slice detect_less filtered\<rparr>
          in (report_findings encode format sdkPath result',
              if sc_Findings result' \<noteq> []
              then Err (ErrMsg (nat_digits (length (sc_Findings result')) @ '' finding(s) detected''))
              else Ok ())))"

section \<open>What the scanners find\<close>

text \<open>A node occurs below a body under some number of closures.\<close>

inductive occurs :: "nat \<Rightarrow> node \<Rightarrow> node \<Rightarrow> bool" where
  occurs_self: "\<not> is_FuncLit n \<Longrightarrow> occurs 0 n n"
| occurs_closure: "occurs k x body \<Longrightarrow> occurs (Suc k) x (FuncLit p ty body)"
| occurs_child: "\<not> is_FuncLit n \<Longrightarrow> c \<in> set (children n) \<Longrightarrow> occurs k x c \<Longrightarrow> occurs k x n"

fun closures :: "nat \<Rightarrow> string" where
  "closures 0 = ''''"
| "closures (Suc k) = ''.closure'' @ closures k"

lemma scan_body_simps:
  "scan_body at name (FuncLit p ty body) = scan_body at (name @ ''.closure'') body"
  "\<not> is_FuncLit n \<Longrightarrow> scan_body at name n = at name n @ concat (map (scan_body at name) (children n))"
  by (subst scan_body.simps, simp)+ (subst scan_body.simps, cases n, auto)

lemma scan_body_exact:
  "f \<in> set (scan_body at name n) \<longleftrightarrow> (\<exists>k x. occurs k x n \<and> f \<in> set (at (name @ closures k) x))"
proof
  show "f \<in> set (scan_body at name n) \<Longrightarrow> \<exists>k x. occurs k x n \<and> f \<in> set (at (name @ closures k) x)"
  proof (induction "size n" arbitrary: name n rule: less_induct)
    case less
    show ?case
    proof (cases "is_FuncLit n")
      case True
      then obtain p ty body where n: "n = FuncLit p ty body" by (cases n) auto
      have "size body < size n" by (simp add: n)
      moreover have "f \<in> set (scan_body at (name @ ''.closure'') body)" using less.prems by (simp add: n scan_body_simps)
      ultimately obtain k x where "occurs k x body" "f \<in> set (at ((name @ ''.closure'') @ closures k) x)"
        using less.hyps by blast
      then show ?thesis by (intro exI [of _ "Suc k"] exI [of _ x]) (simp add: n occurs_closure)
    next
      case False
      then consider "f \<in> set (at name n)" | c where "c \<in> set (children n)" "f \<in> set (scan_body at name c)"
        using less.prems by (auto simp: scan_body_simps)
      then show ?thesis
      proof cases
        case 1
        then show ?thesis using occurs_self [OF False] by (intro exI [of _ 0] exI [of _ n]) simp
      next
        case 2
        then show ?thesis using less.hyps [of c name] occurs_child [OF False] by (blast dest: size_children)
      qed
    qed
  qed
next
  have "occurs k x n \<Longrightarrow> f \<in> set (at (name @ closures k) x) \<Longrightarrow> f \<in> set (scan_body at name n)" for k x
  proof (induction arbitrary: name rule: occurs.induct)
    case (occurs_child n c k x)
    then show ?case by (auto simp: scan_body_simps)
  qed (auto simp: scan_body_simps)
  then show "\<exists>k x. occurs k x n \<and> f \<in> set (at (name @ closures k) x) \<Longrightarrow> f \<in> set (scan_body at name n)" by blast
qed

text \<open>The rule that decides about a call is the last one that lists it, and the import that decides about
  an identifier the last one that binds it.\<close>

definition deciding_rule :: "Rule list \<Rightarrow> string \<Rightarrow> string \<Rightarrow> Rule option" where
  "deciding_rule rules path fn = find (\<lambda>r. ru_ImportPath r = path \<and> fn \<in> set (ru_FuncNames r)) (rev rules)"

lemma fold_map_upd: "fold (\<lambda>x m. m(x \<mapsto> v)) xs m y = (if y \<in> set xs then Some v else m y)"
  by (induction xs arbitrary: m) auto

lemma find_append: "find P (xs @ ys) = (case find P xs of None \<Rightarrow> find P ys | Some x \<Rightarrow> Some x)"
  by (induction xs) auto

lemma Lookup_index: "Lookup (rule_index rules) path fn = map_option ru_Category (deciding_rule rules path fn)"
proof (induction rules rule: rev_induct)
  case Nil
  then show ?case by (simp add: rule_index_def Lookup_def deciding_rule_def)
next
  case (snoc r rules)
  have "Lookup (index_rule r idx) path fn =
      (if ru_ImportPath r = path \<and> fn \<in> set (ru_FuncNames r) then Some (ru_Category r) else Lookup idx path fn)" for idx
    by (auto simp: Lookup_def index_rule_def Let_def fold_map_upd split: option.split)
  then show ?case using snoc.IH by (simp add: rule_index_def deciding_rule_def)
qed

definition import_name :: "string \<times> string option \<Rightarrow> string option" where
  "import_name = (\<lambda>(value, name). case name of
     Some alias \<Rightarrow> if alias = ''_'' \<or> alias = ''.'' then None else Some alias
   | None \<Rightarrow> Some (last (split_slash (trim_quotes value))))"

definition imported :: "GoFile \<Rightarrow> string \<Rightarrow> string option" where
  "imported f ident = map_option (\<lambda>(value, _). trim_quotes value)
     (find (\<lambda>i. import_name i = Some ident) (rev (gf_Imports f)))"

lemma buildAliasMap_imported: "buildAliasMap f ident = imported f ident"
proof -
  have "fold add_import is Map.empty ident = map_option (\<lambda>(value, _). trim_quotes value)
      (find (\<lambda>i. import_name i = Some ident) (rev is))" for "is"
    by (induction "is" rule: rev_induct)
      (auto simp: add_import_def import_name_def Let_def split: option.splits prod.splits if_splits)
  then show ?thesis by (simp add: buildAliasMap_def imported_def)
qed

text \<open>A node that is to be reported, as a category and a text: a call that a rule lists, or a range over an
  expression that \<open>ranged\<close> takes for a map.\<close>

definition reportable :: "Rule list \<Rightarrow> GoFile \<Rightarrow> (node \<Rightarrow> string option) \<Rightarrow> node \<Rightarrow> Category \<Rightarrow> string \<Rightarrow> bool" where
  "reportable rules f ranged x cat call \<longleftrightarrow>
     (\<exists>p ident sel args path r. x = Call (Selector (Ident p ident) sel) args \<and> imported f ident = Some path \<and>
        deciding_rule rules path sel = Some r \<and> cat = ru_Category r \<and> call = path @ ''.'' @ sel) \<or>
     (\<exists>p kv e body name. x = Range p kv e body \<and> ranged e = Some name \<and> cat = CatMapIter \<and> call = ''range '' @ name)"

definition by_name :: "node \<Rightarrow> string option" where
  "by_name e = (if mapLikeName e = '''' then None else Some (mapLikeName e))"

definition by_type :: "types_info option \<Rightarrow> node \<Rightarrow> string option" where
  "by_type typesInfo e = (if isMapRange e typesInfo then Some (exprName e) else None)"

text \<open>A finding of a file is a reportable node somewhere in a function that is no block hook.\<close>

definition is_finding :: "Rule list \<Rightarrow> GoFile \<Rightarrow> (node \<Rightarrow> string option) \<Rightarrow> string \<Rightarrow> DetectFinding \<Rightarrow> bool" where
  "is_finding rules file ranged relPath f \<longleftrightarrow>
     (\<exists>fn body k x. FuncD fn \<in> set (gf_Decls file) \<and> fd_Body fn = Some body \<and> fd_Name fn \<notin> set abciHookFunctions \<and>
        occurs k x body \<and> reportable rules file ranged x (df_Category f) (df_Call f) \<and>
        df_FuncName f = fd_Name fn @ closures k \<and> df_Line f = gf_Line file (node_pos x) \<and>
        df_File f = relPath \<and> df_Module f = ModuleFromPath relPath)"

lemma call_findings_iff:
  "f \<in> set (call_findings (rule_index rules) (ctx_of file relPath) name x) \<longleftrightarrow>
     (\<exists>p ident sel args path r. x = Call (Selector (Ident p ident) sel) args \<and> imported file ident = Some path \<and>
        deciding_rule rules path sel = Some r \<and>
        f = finding_at (ctx_of file relPath) (ru_Category r) x name (path @ ''.'' @ sel))"
proof (cases "\<exists>p ident sel args. x = Call (Selector (Ident p ident) sel) args")
  case True
  then obtain p ident sel args where x: "x = Call (Selector (Ident p ident) sel) args" by blast
  have al: "fc_aliases (ctx_of file relPath) ident = imported file ident" by (simp add: ctx_of_def buildAliasMap_imported)
  show ?thesis
  proof (cases "imported file ident")
    case None
    then show ?thesis by (simp add: x call_findings_def al)
  next
    case (Some path)
    then show ?thesis
      by (cases "deciding_rule rules path sel") (simp_all add: x call_findings_def al Lookup_index)
  qed
next
  case False
  then have "call_findings (rule_index rules) (ctx_of file relPath) name x = []"
    by (auto simp: call_findings_def split: node.split)
  then show ?thesis using False by auto
qed

lemma at_exact:
  assumes "\<And>x. f \<in> set (range_of x) \<longleftrightarrow> (\<exists>p kv e body n. x = Range p kv e body \<and> ranged e = Some n \<and>
      f = finding_at (ctx_of file relPath) CatMapIter x name (''range '' @ n))"
  shows "f \<in> set (call_findings (rule_index rules) (ctx_of file relPath) name x @ range_of x) \<longleftrightarrow>
    reportable rules file ranged x (df_Category f) (df_Call f) \<and>
    df_FuncName f = name \<and> df_Line f = gf_Line file (node_pos x) \<and> df_File f = relPath \<and> df_Module f = ModuleFromPath relPath"
proof -
  have eq: "f = finding_at (ctx_of file relPath) cat x name call \<longleftrightarrow> df_Category f = cat \<and> df_Call f = call \<and>
      df_FuncName f = name \<and> df_Line f = gf_Line file (node_pos x) \<and> df_File f = relPath \<and> df_Module f = ModuleFromPath relPath"
    for cat call by (cases f) (auto simp: finding_at_def ctx_of_def)
  show ?thesis
    unfolding set_append Un_iff call_findings_iff assms reportable_def eq by (intro iffI; elim disjE exE conjE) simp_all
qed

lemma range_findings_iff:
  "f \<in> set (range_findings c name x) \<longleftrightarrow> (\<exists>p kv e body n. x = Range p kv e body \<and> by_name e = Some n \<and>
     f = finding_at c CatMapIter x name (''range '' @ n))"
  "f \<in> set (typed_range_findings typesInfo c name x) \<longleftrightarrow> (\<exists>p kv e body n. x = Range p kv e body \<and> by_type typesInfo e = Some n \<and>
     f = finding_at c CatMapIter x name (''range '' @ n))"
  by (cases x; auto simp: range_findings_def typed_range_findings_def by_name_def by_type_def)+

lemma scan_decls_iff:
  "f \<in> set (scan_decls scan decls) \<longleftrightarrow> (\<exists>fn body. FuncD fn \<in> set decls \<and> fd_Body fn = Some body \<and>
     fd_Name fn \<notin> set abciHookFunctions \<and> f \<in> set (scan (fd_Name fn) body))"
  by (force simp: scan_decls_def split: decl.splits option.splits)

lemma scans_exact:
  "f \<in> set (ScanFile (rule_index rules) file relPath) \<longleftrightarrow> is_finding rules file by_name relPath f"
  "f \<in> set (scanFileWithTypes (rule_index rules) typesInfo file relPath) \<longleftrightarrow> is_finding rules file (by_type typesInfo) relPath f"
  unfolding ScanFile_def scanFileWithTypes_def scan_decls_iff scanBody_def scanBodyWithTypes_def scan_body_exact
    at_exact [OF range_findings_iff(1)] at_exact [OF range_findings_iff(2)] is_finding_def by blast+

section \<open>Properties\<close>

text \<open>C13. The findings of a file, for both scanners: a finding is a call that the deciding rule lists for the
  imported package, or a range over a map, at some depth of closures below the body of a function that is no
  block hook; it names the function with one \<open>.closure\<close> per closure, the line, the file and the module. What
  a map is goes by the name of the ranged expression in one scanner and by its type in the other.\<close>

theorem detect_findings_exact:
  "(f \<in> set (ScanFile (rule_index rules) file relPath) \<longleftrightarrow> is_finding rules file by_name relPath f) \<and>
   (f \<in> set (scanFileWithTypes (rule_index rules) typesInfo file relPath) \<longleftrightarrow>
      is_finding rules file (by_type typesInfo) relPath f)"
  by (simp only: scans_exact)

lemma mapLikeName_exprName: "mapLikeName e \<noteq> '''' \<Longrightarrow> exprName e = mapLikeName e"
  by (cases e) (auto simp: mapLikeName_def exprName_def Let_def ToLower_def split: if_splits)

text \<open>Without type information the scanner with types reports what the syntactic one reports, in the
  same order: the fallback for packages with errors is the old scanner.\<close>

theorem detect_without_types:
  "scanFileWithTypes idx None file relPath = ScanFile idx file relPath"
proof -
  have "typed_range_findings None c name x = range_findings c name x" for c name x
    by (cases x) (auto simp: typed_range_findings_def range_findings_def isMapRange_def mapLikeName_exprName)
  then show ?thesis by (simp add: scanFileWithTypes_def ScanFile_def scanBodyWithTypes_def scanBody_def)
qed

definition clock_file :: GoFile where
  "clock_file = \<lparr>gf_Imports = [([CHR 0x22] @ ''time'' @ [CHR 0x22], None)],
     gf_Decls = [FuncD \<lparr>fd_Name = ''Handle'', fd_Recv = None,
       fd_Body = Some (Other 1 [FuncLit 2 [] (Call (Selector (Ident 3 ''time'') ''Now'') [])])\<rparr>],
     gf_Line = int\<rparr>"

definition client_tree :: "nat tree" where
  "client_tree = TDir ''sdk'' None [TDir ''client'' None [TFile ''cli.go'' 0]]"

lemma client_findings:
  "map (\<lambda>f. (df_Category f, df_File f, df_FuncName f, df_Call f))
     (sc_Findings (fst (Scanner_ScanDir DefaultRules (\<lambda>_. Some clock_file) client_tree []))) =
   [(CatTime, ''client/cli.go'', ''Handle.closure'', ''time.Now'')]"
  "sc_Findings (fst (Scanner_ScanDir DefaultRules (\<lambda>_. Some clock_file) client_tree [''client''])) = []"
  by code_simp+

text \<open>When the packages cannot be loaded, the type-aware scanner falls back to the syntactic one without
  handing on the excluded paths: a file that the caller excluded is scanned and reported.\<close>

theorem detect_fallback_drops_excludes:
  "TypeScanner_ScanDir rules parse root (Err e) load rel excludePaths = Scanner_ScanDir rules parse root [] \<and>
   TypeScanner_ScanDir rules parse root (Ok r) (\<lambda>_. Err e) rel excludePaths = Scanner_ScanDir rules parse root [] \<and>
   (\<exists>f \<in> set (sc_Findings (fst (TypeScanner_ScanDir DefaultRules (\<lambda>_. Some clock_file) client_tree (Ok ''/sdk'')
        (\<lambda>_. Err e) rel [''client'']))). shouldSkipRelPath (df_File f) [''client''])"
proof -
  obtain f where "sc_Findings (fst (Scanner_ScanDir DefaultRules (\<lambda>_. Some clock_file) client_tree [])) = [f]"
      "df_File f = ''client/cli.go''"
    using client_findings(1) by (auto simp: map_eq_Cons_conv)
  then show ?thesis by (simp add: TypeScanner_ScanDir_def shouldSkipRelPath_def)
qed

lemma buffered_fold: "br_findings (fold buffered_Finding fs r) = br_findings r @ fs"
  by (induction fs arbitrary: r) (simp_all add: buffered_Finding_def)

lemma count_categories: "length fs = count_category CatTime fs + count_category CatRand fs + count_category CatIO fs +
  count_category CatMapIter fs + count_category CatPointer fs"
proof (induction fs)
  case (Cons f fs)
  then show ?case by (cases "df_Category f") (simp_all add: count_category_def)
qed (simp add: count_category_def)

text \<open>The command, for any sorting function that sorts: it fails exactly when the scan failed or a
  finding of the wanted category is left, and the JSON report holds each of these findings once, by file and
  line. The three counts of its summary leave out the categories \<open>map_iter\<close> and \<open>pointer\<close>.\<close>

theorem detect_command_outcome:
  assumes sorts: "\<And>xs. mset (sort_slice detect_less xs) = mset xs"
      "\<And>xs. sorted_wrt (\<lambda>f g. \<not> detect_less g f) (sort_slice detect_less xs)"
    and left: "left = filter (\<lambda>f. category = '''' \<or> category_string (df_Category f) = category) (sc_Findings result)"
  shows "(snd (detect_command sort_slice encode (result, e) sdkPath category format) = Ok () \<longleftrightarrow> e = None \<and> left = []) \<and>
    (e = None \<longrightarrow> (\<exists>fs. fst (detect_command sort_slice encode (result, e) sdkPath category ''json'') =
        encode \<lparr>jr_SchemaVersion = 1, jr_SDKPath = sdkPath,
          jr_Summary = \<lparr>js_Total = length left, js_Time = count_category CatTime fs, js_Rand = count_category CatRand fs,
            js_IO = count_category CatIO fs, js_FilesScanned = sc_Files result\<rparr>,
          jr_Findings = map json_detect_finding fs\<rparr> \<and>
      mset fs = mset left \<and> sorted_wrt (\<lambda>f g. \<not> detect_less g f) fs \<and>
      length left = count_category CatTime fs + count_category CatRand fs + count_category CatIO fs +
        count_category CatMapIter fs + count_category CatPointer fs))"
proof -
  let ?fs = "sort_slice detect_less left"
  have f: "(if category \<noteq> '''' then filter (\<lambda>f. category_string (df_Category f) = category) (sc_Findings result)
      else sc_Findings result) = left"
    by (simp add: left)
  have l: "length ?fs = length left" "?fs = [] \<longleftrightarrow> left = []"
    using sorts(1) [of left] by (metis size_mset, metis mset_zero_iff)
  have "br_findings (fold buffered_Finding ?fs (buffered_Header sdkPath NewBufferedReporter)) = ?fs"
      "br_sdkPath (fold buffered_Finding xs (buffered_Header sdkPath NewBufferedReporter)) = sdkPath" for xs
    by (simp add: buffered_fold buffered_Header_def NewBufferedReporter_def)
      (induction xs rule: rev_induct; simp add: buffered_Header_def buffered_Finding_def)
  then show ?thesis
    using sorts l count_categories [of ?fs]
    by (cases e) (auto simp: detect_command_def f Let_def report_findings_def json_Footer_def intro!: exI [of _ ?fs])
qed

text \<open>The Markdown report groups the findings by module: the modules are sorted and distinct, and their
  sections hold every finding exactly once, in the order of the findings within a module.\<close>

theorem detect_markdown_partition:
  "sorted (md_modules fs) \<and> distinct (md_modules fs) \<and>
   mset (concat (map (md_module_findings fs) (md_modules fs))) = mset fs \<and>
   [] \<notin> set (map (md_module_findings fs) (md_modules fs))"
proof -
  have part: "mset (concat (map (\<lambda>m. filter (\<lambda>f. df_Module f = m) fs) ms)) = mset (filter (\<lambda>f. df_Module f \<in> set ms) fs)"
    if "distinct ms" for ms
    using that
  proof (induction ms)
    case (Cons m ms)
    have "mset (filter (\<lambda>f. df_Module f = m \<or> df_Module f \<in> set ms) fs) =
        mset (filter (\<lambda>f. df_Module f = m) fs) + mset (filter (\<lambda>f. df_Module f \<in> set ms) fs)"
      using Cons.prems by (induction fs) auto
    then show ?case using Cons by simp
  qed simp
  have "filter (\<lambda>f. df_Module f \<in> set (md_modules fs)) fs = fs"
    by (auto simp: md_modules_def filter_id_conv)
  then have "mset (concat (map (md_module_findings fs) (md_modules fs))) = mset fs"
    using part [of "md_modules fs"] by (simp add: md_modules_def md_module_findings_def [abs_def])
  then show ?thesis
    by (auto simp: md_modules_def md_module_findings_def filter_empty_conv dest!: sym [of "[]"])
qed

definition finding_key :: "DetectFinding \<Rightarrow> string \<times> int" where
  "finding_key f = (df_File f, df_Line f)"

lemma detect_less_key: "detect_less f g \<longleftrightarrow> finding_key f < finding_key g"
  by (auto simp: detect_less_def finding_key_def less_prod_def)

lemma sort_key_slices:
  "mset (sort_key finding_key xs) = mset xs"
  "sorted_wrt (\<lambda>f g. \<not> detect_less g f) (sort_key finding_key xs)"
proof -
  have "sorted_wrt (\<le>) (map finding_key (sort_key finding_key xs))" by simp
  then show "sorted_wrt (\<lambda>f g. \<not> detect_less g f) (sort_key finding_key xs)"
    by (simp add: sorted_wrt_map detect_less_key not_less)
qed simp

definition two_findings :: "DetectFinding list" where
  "two_findings = [
     \<lparr>df_Category = CatMapIter, df_File = ''x/b.go'', df_Line = 9, df_FuncName = ''F'', df_Call = ''range cache'', df_Module = ''b.go''\<rparr>,
     \<lparr>df_Category = CatTime, df_File = ''x/a.go'', df_Line = 3, df_FuncName = ''G'', df_Call = ''time.Now'', df_Module = ''a.go''\<rparr>]"

lemma detect_command_outcome_witness:
  "snd (detect_command (\<lambda>_. sort_key finding_key) (\<lambda>_. '''')
      (\<lparr>sc_Findings = two_findings, sc_Files = 2\<rparr>, None) ''sdk'' ''time'' ''json'') \<noteq> Ok ()"
proof -
  have "filter (\<lambda>f. ''time'' = '''' \<or> category_string (df_Category f) = ''time'') two_findings = [two_findings ! 1]"
    by (simp add: two_findings_def)
  then show ?thesis
    using detect_command_outcome [of "\<lambda>_. sort_key finding_key", OF sort_key_slices refl, of "\<lambda>_. ''''" "\<lparr>sc_Findings = two_findings, sc_Files = 2\<rparr>" None
        "''sdk''" "''time''" "''json''"]
    by simp
qed

definition calling :: "string \<times> string option \<Rightarrow> node \<Rightarrow> GoFile" where
  "calling imp body = \<lparr>gf_Imports = [imp], gf_Decls = [FuncD \<lparr>fd_Name = ''Handle'', fd_Recv = None, fd_Body = Some body\<rparr>],
     gf_Line = int\<rparr>"

definition quote :: "nat \<Rightarrow> string \<Rightarrow> string" where
  "quote q s = [char_of q] @ s @ [char_of q]"

text \<open>Calls of the clock that are not found: through a dot import, through an import whose path is a raw
  string literal, whose back quotes are not stripped, and through a function value.\<close>

theorem detect_blind_spots:
  "map df_Call (ScanFile (rule_index DefaultRules)
     (calling (quote 34 ''time'', None) (Call (Selector (Ident 1 ''time'') ''Now'') [])) ''x/a.go'') = [''time.Now''] \<and>
   ScanFile (rule_index DefaultRules) (calling (quote 34 ''time'', Some ''.'') (Call (Ident 1 ''Now'') [])) ''x/a.go'' = [] \<and>
   ScanFile (rule_index DefaultRules)
     (calling (quote 96 ''time'', None) (Call (Selector (Ident 1 ''time'') ''Now'') [])) ''x/a.go'' = [] \<and>
   ScanFile (rule_index DefaultRules)
     (calling (quote 34 ''time'', None) (Other 1 [Assign [Ident 1 ''now''] [Selector (Ident 2 ''time'') ''Now''],
        Call (Ident 3 ''now'') []])) ''x/a.go'' = []"
  by code_simp

end
