(* ===== verification/Lint.thy ===== *)
theory Lint
  imports Go_Ast
begin

text \<open>
  \<open>lint/\<close>: the linter for keeper code. The classification of fields and variables and the syntactic scanner
  (\<open>keeper.go\<close>), the scanner that uses types (\<open>typekeeper.go\<close>) and the command. Warnings on standard error are
  left out.
\<close>

datatype Kind = KindKeeperField | KindPkgVar

fun kind_string :: "Kind \<Rightarrow> string" where
  "kind_string KindKeeperField = ''keeper_field''"
| "kind_string KindPkgVar = ''pkg_var''"

record LintFinding =
  lf_Kind :: Kind
  lf_File :: string
  lf_Line :: int
  lf_Method :: string
  lf_Target :: string
  lf_Module :: string

record LintResult =
  lr_Findings :: "LintFinding list"
  lr_Files :: nat

section \<open>Names\<close>

definition receiverIdent :: "FuncDecl \<Rightarrow> string option" where
  "receiverIdent fn =
     (case fd_Recv fn of
        None \<Rightarrow> None
      | Some [] \<Rightarrow> None
      | Some (names # _) \<Rightarrow> (case names of [] \<Rightarrow> None | name # _ \<Rightarrow> Some name))"

fun receiverField :: "node \<Rightarrow> string \<Rightarrow> string" where
  "receiverField (Selector (Ident p ident) sel) receiverName = (if ident = receiverName then sel else '''')"
| "receiverField (Index x is) receiverName = receiverField x receiverName"
| "receiverField _ receiverName = ''''"

definition isConstructor :: "string \<Rightarrow> bool" where
  "isConstructor name \<longleftrightarrow> prefix ''New'' name \<or> prefix ''Init'' name \<or> prefix ''Setup'' name \<or>
     prefix ''Unmarshal'' name \<or> prefix ''Marshal'' name \<or>
     name = ''Reset'' \<or> name = ''ProtoMessage'' \<or> name = ''init''"

definition safeFieldSuffixes :: "string list" where
  "safeFieldSuffixes = [''Key'', ''key'', ''cdc'', ''Cdc'', ''Codec'', ''codec'', ''Keeper'', ''keeper'', ''Router'',
     ''router'', ''Config'', ''config'', ''authority'', ''Authority'', ''Logger'', ''logger'']"

definition isSafeField :: "string \<Rightarrow> bool" where
  "isSafeField name \<longleftrightarrow> list_ex (\<lambda>s. suffix s name) safeFieldSuffixes"

definition collectPkgVars :: "GoFile \<Rightarrow> string set" where
  "collectPkgVars f = set (concat (map (\<lambda>d. case d of
       GenD is_var specs \<Rightarrow> if is_var then filter (\<lambda>n. n \<noteq> ''_'') (concat specs) else []
     | FuncD fn \<Rightarrow> []) (gf_Decls f)))"

definition pkgVarTarget :: "node \<Rightarrow> string set \<Rightarrow> string" where
  "pkgVarTarget expr pkgVars = (case expr of Ident p name \<Rightarrow> if name \<in> pkgVars then name else '''' | _ \<Rightarrow> '''')"

section \<open>Types\<close>

definition kvStorePkgPrefixes :: "string list" where
  "kvStorePkgPrefixes = [''cosmossdk.io/core/store'', ''cosmossdk.io/collections'', ''cosmossdk.io/store'',
     ''github.com/cosmos/cosmos-sdk/store'', ''github.com/cosmos/cosmos-sdk/types'',
     ''github.com/cosmos/cosmos-sdk/codec'', ''github.com/cosmos/cosmos-sdk/baseapp'',
     ''github.com/cosmos/cosmos-sdk/types/module'', ''github.com/cometbft/cometbft'', ''google.golang.org/grpc'',
     ''cosmossdk.io/log'']"

definition isKVStoreBacked :: "string \<Rightarrow> bool" where
  "isKVStoreBacked pkg \<longleftrightarrow> list_ex (\<lambda>p. prefix p pkg) kvStorePkgPrefixes"

text \<open>The loop that unwraps index expressions, which ends at the first node that is none.\<close>

fun fieldSelectorFromLHS :: "node \<Rightarrow> node" where
  "fieldSelectorFromLHS (Index x is) = fieldSelectorFromLHS x"
| "fieldSelectorFromLHS expr = expr"

definition isTypeSafeField :: "node \<Rightarrow> types_info option \<Rightarrow> bool" where
  "isTypeSafeField expr typesInfo =
     (case typesInfo of
        None \<Rightarrow> False
      | Some info \<Rightarrow>
          (case info expr of
             None \<Rightarrow> False
           | Some t \<Rightarrow>
               (case (case t of TPointer u \<Rightarrow> u | _ \<Rightarrow> t) of
                  TNamed (Some pkg) u \<Rightarrow> isKVStoreBacked pkg
                | _ \<Rightarrow> False)))"

section \<open>The scanners\<close>

text \<open>What a function contributes to the findings in it.\<close>

record fun_ctx =
  fx_rel :: string
  fx_line :: "nat \<Rightarrow> int"
  fx_pkgVars :: "string set"
  fx_method :: string
  fx_receiver :: "string option"

definition lint_finding :: "fun_ctx \<Rightarrow> Kind \<Rightarrow> node \<Rightarrow> string \<Rightarrow> LintFinding" where
  "lint_finding c kind lhs target = \<lparr>lf_Kind = kind, lf_File = fx_rel c, lf_Line = fx_line c (node_pos lhs),
     lf_Method = fx_method c, lf_Target = target, lf_Module = ModuleFromPath (fx_rel c)\<rparr>"

text \<open>The findings of one written expression; \<open>safe\<close> says which fields are not reported.\<close>

definition write_findings :: "(node \<Rightarrow> string \<Rightarrow> bool) \<Rightarrow> fun_ctx \<Rightarrow> node \<Rightarrow> LintFinding list" where
  "write_findings safe c lhs =
     (if isConstructor (fx_method c) then []
      else (case fx_receiver c of
              None \<Rightarrow> []
            | Some receiver \<Rightarrow>
                (let field = receiverField lhs receiver
                 in if field \<noteq> '''' \<and> \<not> safe lhs field then [lint_finding c KindKeeperField lhs field] else [])) @
           (let v = pkgVarTarget lhs (fx_pkgVars c)
            in if v \<noteq> '''' then [lint_finding c KindPkgVar lhs v] else []))"

definition node_findings :: "(node \<Rightarrow> string \<Rightarrow> bool) \<Rightarrow> fun_ctx \<Rightarrow> node \<Rightarrow> LintFinding list" where
  "node_findings safe c n =
     (case n of
        Assign ls rs \<Rightarrow> concat (map (write_findings safe c) ls)
      | IncDec x \<Rightarrow> write_findings safe c x
      | _ \<Rightarrow> [])"

definition fun_ctx_of :: "GoFile \<Rightarrow> string \<Rightarrow> FuncDecl \<Rightarrow> fun_ctx" where
  "fun_ctx_of f relPath fn = \<lparr>fx_rel = relPath, fx_line = gf_Line f, fx_pkgVars = collectPkgVars f,
     fx_method = fd_Name fn, fx_receiver = receiverIdent fn\<rparr>"

definition scan_functions :: "(node \<Rightarrow> string \<Rightarrow> bool) \<Rightarrow> GoFile \<Rightarrow> string \<Rightarrow> LintFinding list" where
  "scan_functions safe f relPath = concat (map (\<lambda>d.
     case d of
       FuncD fn \<Rightarrow> (case fd_Body fn of
           None \<Rightarrow> []
         | Some body \<Rightarrow> inspect (node_findings safe (fun_ctx_of f relPath fn)) body)
     | GenD is_var specs \<Rightarrow> []) (gf_Decls f))"

definition lint_ScanFile :: "GoFile \<Rightarrow> string \<Rightarrow> LintFinding list" where
  "lint_ScanFile = scan_functions (\<lambda>lhs field. isSafeField field)"

definition lint_scanFileWithTypes :: "types_info option \<Rightarrow> GoFile \<Rightarrow> string \<Rightarrow> LintFinding list" where
  "lint_scanFileWithTypes typesInfo =
     scan_functions (\<lambda>lhs field. isTypeSafeField (fieldSelectorFromLHS lhs) typesInfo \<or> isSafeField field)"

definition lint_result :: "nat \<times> LintFinding list \<Rightarrow> LintResult" where
  "lint_result = (\<lambda>(n, fs). \<lparr>lr_Findings = fs, lr_Files = n\<rparr>)"

definition lint_ScanDir :: "('f \<Rightarrow> GoFile option) \<Rightarrow> 'f tree \<Rightarrow> string list \<Rightarrow> LintResult \<times> go_error option" where
  "lint_ScanDir parse root excludePaths =
     (case scan_tree [''vendor'', ''testutil'', ''mock''] parse lint_ScanFile excludePaths root of
        (r, e) \<Rightarrow> (lint_result r, e))"

definition ScanDirWithTypes ::
  "('f \<Rightarrow> GoFile option) \<Rightarrow> 'f tree \<Rightarrow> string go \<Rightarrow> (string \<Rightarrow> 'f Package list go) \<Rightarrow> (string \<Rightarrow> string \<Rightarrow> string go) \<Rightarrow>
   string list \<Rightarrow> LintResult \<times> go_error option" where
  "ScanDirWithTypes parse root abs_root load rel excludePaths =
     (case abs_root of
        Ok absRoot \<Rightarrow>
          (case load absRoot of
             Ok pkgs \<Rightarrow>
               (if pkgs = [] then lint_ScanDir parse root excludePaths
                else (lint_result (scan_packages (rel absRoot) parse lint_scanFileWithTypes excludePaths pkgs), None))
           | _ \<Rightarrow> lint_ScanDir parse root excludePaths)
      | _ \<Rightarrow> lint_ScanDir parse root excludePaths)"

section \<open>The command\<close>

definition lint_less :: "LintFinding \<Rightarrow> LintFinding \<Rightarrow> bool" where
  "lint_less a b = (if lf_File a \<noteq> lf_File b then lf_File a < lf_File b else lf_Line a < lf_Line b)"

definition line_end :: string where
  "line_end = [CHR 0x0A]"

definition printText :: "LintResult \<Rightarrow> string \<Rightarrow> string" where
  "printText result sdkPath =
     ''blockstm-sim lint '' @ [CHR 0xE2, CHR 0x80, CHR 0x94] @ '' scanned '' @ nat_digits (lr_Files result) @ '' files in '' @
     sdkPath @ line_end @ line_end @
     (if lr_Findings result = [] then ''No findings.'' @ line_end
      else concat (map (\<lambda>f. ''['' @ kind_string (lf_Kind f) @ ''] '' @ lf_File f @ '':'' @ itoa (lf_Line f) @ ''  '' @
             lf_Method f @ ''()  '' @ [CHR 0xE2, CHR 0x86, CHR 0x92] @ ''  '' @ lf_Target f @ line_end) (lr_Findings result)) @
           line_end @ nat_digits (length (lr_Findings result)) @ '' finding(s)'' @ line_end)"

definition lint_command ::
  "((LintFinding \<Rightarrow> LintFinding \<Rightarrow> bool) \<Rightarrow> LintFinding list \<Rightarrow> LintFinding list) \<Rightarrow> (LintResult \<Rightarrow> string) \<Rightarrow>
   LintResult \<times> go_error option \<Rightarrow> string \<Rightarrow> string \<Rightarrow> string \<Rightarrow> bool \<Rightarrow> string \<times> unit go" where
  "lint_command sort_slice encode scanned sdkPath format kind failOnFindings =
     (case scanned of
        (_, Some e) \<Rightarrow> ('''', Err (ErrWrap ''lint'' e))
      | (result, None) \<Rightarrow>
         (let filtered = (if kind \<noteq> '''' then filter (\<lambda>f. kind_string (lf_Kind f) = kind) (lr_Findings result)
                          else lr_Findings result);
              result' = result\<lparr>lr_Findings := sort_slice lint_less filtered\<rparr>
          in (if format = ''json'' then encode result' else printText result' sdkPath,
              if failOnFindings \<and> lr_Findings result' \<noteq> []
              then Err (ErrMsg (nat_digits (length (lr_Findings result')) @ '' finding(s) detected''))
              else Ok ())))"

section \<open>What the linter finds\<close>

text \<open>The written expressions of a body: the left-hand sides of its assignments (definitions by \<open>:=\<close>
  included) and the operands of \<open>++\<close> and \<open>--\<close>, at any depth, also in closures.\<close>

definition written :: "node \<Rightarrow> node \<Rightarrow> bool" where
  "written lhs body \<longleftrightarrow> (\<exists>ls rs. within (Assign ls rs) body \<and> lhs \<in> set ls) \<or> within (IncDec lhs) body"

text \<open>\<open>k.field\<close> under any number of index expressions.\<close>

inductive field_of :: "string \<Rightarrow> string \<Rightarrow> node \<Rightarrow> bool" where
  field_of_selector: "field_of receiver field (Selector (Ident p receiver) field)"
| field_of_index: "field_of receiver field x \<Longrightarrow> field_of receiver field (Index x is)"

inductive_cases field_ofE [elim!]: "field_of receiver field (Selector x s)" "field_of receiver field (Index x is)"

definition is_lint_finding :: "(node \<Rightarrow> string \<Rightarrow> bool) \<Rightarrow> GoFile \<Rightarrow> string \<Rightarrow> LintFinding \<Rightarrow> bool" where
  "is_lint_finding safe file relPath f \<longleftrightarrow>
     (\<exists>fn body lhs. FuncD fn \<in> set (gf_Decls file) \<and> fd_Body fn = Some body \<and> \<not> isConstructor (fd_Name fn) \<and>
        written lhs body \<and> lf_Target f \<noteq> '''' \<and>
        ((\<exists>receiver. lf_Kind f = KindKeeperField \<and> receiverIdent fn = Some receiver \<and>
            field_of receiver (lf_Target f) lhs \<and> \<not> safe lhs (lf_Target f)) \<or>
         (\<exists>p. lf_Kind f = KindPkgVar \<and> lhs = Ident p (lf_Target f) \<and> lf_Target f \<in> collectPkgVars file)) \<and>
        lf_Method f = fd_Name fn \<and> lf_Line f = gf_Line file (node_pos lhs) \<and>
        lf_File f = relPath \<and> lf_Module f = ModuleFromPath relPath)"

lemma receiverField_iff: "field \<noteq> '''' \<Longrightarrow> receiverField e receiver = field \<longleftrightarrow> field_of receiver field e"
proof (induction e receiver rule: receiverField.induct)
  case (2 x "is" receiver)
  then show ?case by (auto intro: field_of.intros)
qed (auto intro: field_of.intros elim!: field_of.cases split: if_splits)

lemma write_findings_iff:
  "f \<in> set (write_findings safe (fun_ctx_of file relPath fn) lhs) \<longleftrightarrow>
     \<not> isConstructor (fd_Name fn) \<and> lf_Target f \<noteq> '''' \<and>
     ((\<exists>receiver. lf_Kind f = KindKeeperField \<and> receiverIdent fn = Some receiver \<and>
         field_of receiver (lf_Target f) lhs \<and> \<not> safe lhs (lf_Target f)) \<or>
      (\<exists>p. lf_Kind f = KindPkgVar \<and> lhs = Ident p (lf_Target f) \<and> lf_Target f \<in> collectPkgVars file)) \<and>
     lf_Method f = fd_Name fn \<and> lf_Line f = gf_Line file (node_pos lhs) \<and>
     lf_File f = relPath \<and> lf_Module f = ModuleFromPath relPath"
proof -
  have eq: "f = lint_finding (fun_ctx_of file relPath fn) kind lhs target \<longleftrightarrow> lf_Kind f = kind \<and> lf_Target f = target \<and>
      lf_Method f = fd_Name fn \<and> lf_Line f = gf_Line file (node_pos lhs) \<and>
      lf_File f = relPath \<and> lf_Module f = ModuleFromPath relPath" for kind target
    by (cases f) (auto simp: lint_finding_def fun_ctx_of_def)
  have pv: "pkgVarTarget lhs (collectPkgVars file) = t \<longleftrightarrow> (\<exists>p. lhs = Ident p t \<and> t \<in> collectPkgVars file)" if "t \<noteq> ''''" for t
    using that by (cases lhs) (auto simp: pkgVarTarget_def)
  have fx: "fx_method (fun_ctx_of file relPath fn) = fd_Name fn" "fx_receiver (fun_ctx_of file relPath fn) = receiverIdent fn"
      "fx_pkgVars (fun_ctx_of file relPath fn) = collectPkgVars file"
    by (simp_all add: fun_ctx_of_def)
  let ?c = "fun_ctx_of file relPath fn"
  have one: "f \<in> set (let t = e in if t \<noteq> '''' \<and> good t then [lint_finding ?c kind lhs t] else []) \<longleftrightarrow>
      lf_Target f \<noteq> '''' \<and> e = lf_Target f \<and> good (lf_Target f) \<and> lf_Kind f = kind \<and> lf_Method f = fd_Name fn \<and>
      lf_Line f = gf_Line file (node_pos lhs) \<and> lf_File f = relPath \<and> lf_Module f = ModuleFromPath relPath" for e good kind
    by (auto simp: Let_def eq)
  have kf: "lf_Target f \<noteq> '''' \<and> receiverField lhs r = lf_Target f \<longleftrightarrow> lf_Target f \<noteq> '''' \<and> field_of r (lf_Target f) lhs" for r
    using receiverField_iff [of "lf_Target f" lhs r] by blast
  have pk: "lf_Target f \<noteq> '''' \<and> pkgVarTarget lhs (collectPkgVars file) = lf_Target f \<longleftrightarrow>
      lf_Target f \<noteq> '''' \<and> (\<exists>p. lhs = Ident p (lf_Target f) \<and> lf_Target f \<in> collectPkgVars file)"
    using pv [of "lf_Target f"] by blast
  have pkg: "f \<in> set (let v = pkgVarTarget lhs (collectPkgVars file) in if v \<noteq> '''' then [lint_finding ?c KindPkgVar lhs v] else []) \<longleftrightarrow>
      (lf_Target f \<noteq> '''' \<and> (\<exists>p. lhs = Ident p (lf_Target f) \<and> lf_Target f \<in> collectPkgVars file)) \<and> lf_Kind f = KindPkgVar \<and>
      lf_Method f = fd_Name fn \<and> lf_Line f = gf_Line file (node_pos lhs) \<and> lf_File f = relPath \<and>
      lf_Module f = ModuleFromPath relPath"
    using one [of "pkgVarTarget lhs (collectPkgVars file)" "\<lambda>_. True" KindPkgVar] pk by (simp only: simp_thms) blast
  have keep: "f \<in> set (let t = receiverField lhs r in if t \<noteq> '''' \<and> \<not> safe lhs t then [lint_finding ?c KindKeeperField lhs t] else []) \<longleftrightarrow>
      (lf_Target f \<noteq> '''' \<and> field_of r (lf_Target f) lhs) \<and> \<not> safe lhs (lf_Target f) \<and> lf_Kind f = KindKeeperField \<and>
      lf_Method f = fd_Name fn \<and> lf_Line f = gf_Line file (node_pos lhs) \<and> lf_File f = relPath \<and>
      lf_Module f = ModuleFromPath relPath" for r
    using one [of "receiverField lhs r" "\<lambda>t. \<not> safe lhs t" KindKeeperField] kf [of r] by (simp only: simp_thms) blast
  show ?thesis
  proof (cases "isConstructor (fd_Name fn)")
    case True
    then show ?thesis by (simp add: write_findings_def fx)
  next
    case False
    show ?thesis
    proof (cases "receiverIdent fn")
      case None
      then show ?thesis using False by (simp only: write_findings_def fx if_False option.case append_Nil pkg) blast
    next
      case (Some r)
      show ?thesis
        unfolding write_findings_def fx Some option.case set_append Un_iff using False
        by (simp only: if_False set_append Un_iff pkg keep option.inject) blast
    qed
  qed
qed

lemma scan_functions_exact:
  "f \<in> set (scan_functions safe file relPath) \<longleftrightarrow> is_lint_finding safe file relPath f"
proof -
  have nf: "(\<exists>x. within x body \<and> f \<in> set (node_findings safe c x)) \<longleftrightarrow> (\<exists>lhs. written lhs body \<and> f \<in> set (write_findings safe c lhs))"
    for c body
  proof -
    have nd: "f \<in> set (node_findings safe c x) \<longleftrightarrow> (\<exists>ls rs lhs. x = Assign ls rs \<and> lhs \<in> set ls \<and> f \<in> set (write_findings safe c lhs)) \<or>
        (\<exists>lhs. x = IncDec lhs \<and> f \<in> set (write_findings safe c lhs))" for x
      by (cases x) (auto simp: node_findings_def)
    show ?thesis unfolding written_def nd by auto
  qed
  have "f \<in> set (scan_functions safe file relPath) \<longleftrightarrow> (\<exists>fn body. FuncD fn \<in> set (gf_Decls file) \<and> fd_Body fn = Some body \<and>
      f \<in> set (inspect (node_findings safe (fun_ctx_of file relPath fn)) body))"
    by (force simp: scan_functions_def split: decl.splits option.splits)
  then show ?thesis unfolding inspect_exact nf write_findings_iff is_lint_finding_def by blast
qed

section \<open>Properties\<close>

text \<open>C14. The findings of a file, for both scanners: a written expression of a function that is no
  constructor, and either it is a field of the receiver, under any indexing, that the scanner does not
  consider safe, or it is a variable that the file declares at package level.\<close>

theorem lint_findings_exact:
  "(f \<in> set (lint_ScanFile file relPath) \<longleftrightarrow> is_lint_finding (\<lambda>lhs field. isSafeField field) file relPath f) \<and>
   (f \<in> set (lint_scanFileWithTypes typesInfo file relPath) \<longleftrightarrow>
      is_lint_finding (\<lambda>lhs field. isTypeSafeField (fieldSelectorFromLHS lhs) typesInfo \<or> isSafeField field) file relPath f)"
  by (simp only: lint_ScanFile_def lint_scanFileWithTypes_def scan_functions_exact)

lemma is_lint_finding_mono:
  assumes "\<And>lhs field. safe lhs field \<Longrightarrow> safe' lhs field"
  shows "is_lint_finding safe' file relPath f \<Longrightarrow> is_lint_finding safe file relPath f"
    and "is_lint_finding safe file relPath f \<Longrightarrow> lf_Kind f = KindPkgVar \<Longrightarrow> is_lint_finding safe' file relPath f"
  unfolding is_lint_finding_def using assms by (blast, force)

text \<open>C38. Types only suppress findings: without types the two scanners report the same, in the same order;
  with types every finding is one of the syntactic scanner, and only keeper fields are left out.\<close>

theorem lint_types_only_suppress:
  "lint_scanFileWithTypes None file relPath = lint_ScanFile file relPath \<and>
   set (lint_scanFileWithTypes typesInfo file relPath) \<subseteq> set (lint_ScanFile file relPath) \<and>
   set (lint_ScanFile file relPath) - set (lint_scanFileWithTypes typesInfo file relPath) \<subseteq> {f. lf_Kind f = KindKeeperField}"
proof -
  let ?safe = "\<lambda>lhs field. isSafeField field"
  let ?safe' = "\<lambda>lhs field. isTypeSafeField (fieldSelectorFromLHS lhs) typesInfo \<or> isSafeField field"
  have 1: "lint_scanFileWithTypes None file relPath = lint_ScanFile file relPath"
    by (simp add: lint_scanFileWithTypes_def lint_ScanFile_def isTypeSafeField_def)
  have 2: "set (lint_scanFileWithTypes typesInfo file relPath) \<subseteq> set (lint_ScanFile file relPath)"
    unfolding lint_ScanFile_def lint_scanFileWithTypes_def
    by (auto simp: scan_functions_exact intro: is_lint_finding_mono(1) [of ?safe ?safe'])
  have "lf_Kind f = KindKeeperField" if "is_lint_finding ?safe file relPath f" "\<not> is_lint_finding ?safe' file relPath f" for f
    using is_lint_finding_mono(2) [of ?safe ?safe', OF _ that(1)] that(2) by (cases "lf_Kind f") auto
  then show ?thesis
    using 1 2 by (auto simp: lint_ScanFile_def lint_scanFileWithTypes_def scan_functions_exact)
qed

definition keeper_method :: "string list list \<Rightarrow> node list \<Rightarrow> GoFile" where
  "keeper_method vars stmts = \<lparr>gf_Imports = [], gf_Decls = [GenD True vars, FuncD \<lparr>fd_Name = ''Send'',
     fd_Recv = Some [[''k'']], fd_Body = Some (Other 1 stmts)\<rparr>], gf_Line = int\<rparr>"

definition targets :: "GoFile \<Rightarrow> string list" where
  "targets f = map lf_Target (lint_ScanFile f ''x/bank/keeper/send.go'')"

text \<open>A write to a field of the receiver and to an entry of one is found, but a write to a field of a
  field, through a pointer field, or to a variable of another file of the package is not; and a local
  variable with the name of a package variable is reported.\<close>

theorem lint_blind_spots:
  "targets (keeper_method [] [Assign [Selector (Ident 2 ''k'') ''total''] [],
      Assign [Index (Selector (Ident 3 ''k'') ''cache'') [Ident 3 ''addr'']] []]) = [''total'', ''cache''] \<and>
   targets (keeper_method [] [Assign [Selector (Selector (Ident 2 ''k'') ''state'') ''total''] []]) = [] \<and>
   targets (keeper_method [] [Assign [Other 2 [Selector (Ident 2 ''k'') ''total'']] []]) = [] \<and>
   targets (keeper_method [] [Assign [Ident 2 ''declaredElsewhere''] []]) = [] \<and>
   targets (keeper_method [[''total'']] [Assign [Ident 2 ''total''] [Ident 2 ''amount'']]) = [''total'']"
  by code_simp

text \<open>The command, for any sorting function that sorts: it fails exactly when the scan failed or, when it
  is told to, a finding of the wanted kind is left; the JSON output holds each of these findings once, by
  file and line.\<close>

theorem lint_command_outcome:
  assumes sorts: "\<And>xs. mset (sort_slice lint_less xs) = mset xs"
      "\<And>xs. sorted_wrt (\<lambda>f g. \<not> lint_less g f) (sort_slice lint_less xs)"
    and left: "left = filter (\<lambda>f. kind = '''' \<or> kind_string (lf_Kind f) = kind) (lr_Findings result)"
  shows "(snd (lint_command sort_slice encode (result, e) sdkPath format kind failOnFindings) = Ok () \<longleftrightarrow>
      e = None \<and> (failOnFindings \<longrightarrow> left = [])) \<and>
    (e = None \<longrightarrow> (\<exists>fs. fst (lint_command sort_slice encode (result, e) sdkPath ''json'' kind failOnFindings) =
        encode (result\<lparr>lr_Findings := fs\<rparr>) \<and> mset fs = mset left \<and> sorted_wrt (\<lambda>f g. \<not> lint_less g f) fs))"
proof -
  let ?fs = "sort_slice lint_less left"
  have f: "(if kind \<noteq> '''' then filter (\<lambda>f. kind_string (lf_Kind f) = kind) (lr_Findings result) else lr_Findings result) = left"
    by (simp add: left)
  have "?fs = [] \<longleftrightarrow> left = []" using sorts(1) [of left] by (metis mset_zero_iff)
  then show ?thesis
    using sorts by (cases e) (auto simp: lint_command_def f Let_def intro!: exI [of _ ?fs])
qed

definition lint_key :: "LintFinding \<Rightarrow> string \<times> int" where
  "lint_key f = (lf_File f, lf_Line f)"

lemma sort_key_lints:
  "mset (sort_key lint_key xs) = mset xs"
  "sorted_wrt (\<lambda>f g. \<not> lint_less g f) (sort_key lint_key xs)"
proof -
  have l: "lint_less f g \<longleftrightarrow> lint_key f < lint_key g" for f g
    by (auto simp: lint_less_def lint_key_def less_prod_def)
  have "sorted_wrt (\<le>) (map lint_key (sort_key lint_key xs))" by simp
  then show "sorted_wrt (\<lambda>f g. \<not> lint_less g f) (sort_key lint_key xs)"
    by (simp add: sorted_wrt_map l not_less)
qed simp

definition one_lint :: LintResult where
  "one_lint = \<lparr>lr_Findings = [\<lparr>lf_Kind = KindPkgVar, lf_File = ''x/bank/a.go'', lf_Line = 3, lf_Method = ''Send'',
     lf_Target = ''total'', lf_Module = ''bank''\<rparr>], lr_Files = 1\<rparr>"

lemma lint_command_outcome_witness:
  "snd (lint_command (\<lambda>_. sort_key lint_key) (\<lambda>_. '''') (one_lint, None) ''.'' ''text'' ''pkg_var'' True) \<noteq> Ok () \<and>
   snd (lint_command (\<lambda>_. sort_key lint_key) (\<lambda>_. '''') (one_lint, None) ''.'' ''text'' ''keeper_field'' True) = Ok ()"
proof -
  note c = lint_command_outcome [of "\<lambda>_. sort_key lint_key", OF sort_key_lints refl]
  show ?thesis by (simp add: c) (simp add: one_lint_def)
qed

end
