(* ===== verification/Commands.thy ===== *)
theory Commands
  imports Harness Snapshot_Run
begin

text \<open>
  The commands that drive the parts: \<open>compare/corpus.go\<close> (loading the corpora of a directory),
  \<open>cmd/extract/command.go\<close>, \<open>cmd/snapshot/command.go\<close>, \<open>run/command.go\<close> with their build-tagged halves
  \<open>command_sdk.go\<close>, and \<open>version/version.go\<close>. A command is a function of its flags that returns the error of
  \<open>RunE\<close> and what it did; cobra's own checks of required flags come before it. Files are read through
  \<open>DirFiles\<close>; the decoders and encoders of JSON and YAML, the block store and the printing are arguments.
\<close>

section \<open>Loading corpora\<close>

record DirFiles =
  df_stat :: "string \<Rightarrow> bool"
  df_read :: "string \<Rightarrow> bytes go"
  df_glob :: "string \<Rightarrow> string list go"

record Decoders =
  dc_fixture :: "bytes \<Rightarrow> Fixture go"
  dc_fuzz :: "bytes \<Rightarrow> FuzzConfig go"

definition loadFuzzCorpusStore ::
  "registry \<Rightarrow> (int \<Rightarrow> 's \<Rightarrow> int \<times> 's) \<Rightarrow> (int \<Rightarrow> 's) \<Rightarrow> DirFiles \<Rightarrow> Decoders \<Rightarrow> string \<Rightarrow> CorpusStore list go" where
  "loadFuzzCorpusStore registered intn new_source files dec path =
     (case df_read files path of
        Panic p \<Rightarrow> Panic p
      | Err e \<Rightarrow> Err (ErrWrap ''read fuzz.json'' e)
      | Ok data \<Rightarrow> (case dc_fuzz dec data of
           Panic p \<Rightarrow> Panic p
         | Err e \<Rightarrow> Err (ErrWrap ''parse fuzz.json'' e)
         | Ok cfg \<Rightarrow> Ok [fuzz_store registered intn new_source (NewFuzzCorpus cfg)]))"

definition fuzz_path :: "string \<Rightarrow> string" where
  "fuzz_path dir = path_join dir ''fuzz.json''"

definition LoadCorpusStores ::
  "registry \<Rightarrow> (int \<Rightarrow> 's \<Rightarrow> int \<times> 's) \<Rightarrow> (int \<Rightarrow> 's) \<Rightarrow> DirFiles \<Rightarrow> Decoders \<Rightarrow> string \<Rightarrow> CorpusStore list go" where
  "LoadCorpusStores registered intn new_source files dec dir =
     (if df_stat files (fuzz_path dir) then loadFuzzCorpusStore registered intn new_source files dec (fuzz_path dir)
      else (case LoadCorpus dir (df_glob files dir) (LoadFixture (df_read files) (dc_fixture dec)) of
              Panic p \<Rightarrow> Panic p
            | Err e \<Rightarrow> Err e
            | Ok fixtures \<Rightarrow> Ok (map NewFixtureCorpus fixtures)))"

section \<open>Opening and closing snapshot corpora\<close>

text \<open>The open handles of block stores, by directory. \<open>load_meta\<close> is \<open>LoadRangeMeta\<close> of a directory.\<close>

definition openBlockstoreDB :: "(string \<Rightarrow> BlockStore go) \<Rightarrow> string \<Rightarrow> string list \<Rightarrow> BlockStore go \<times> string list" where
  "openBlockstoreDB open_store dir handles =
     (case open_store dir of Ok bs \<Rightarrow> (Ok bs, dir # handles) | r \<Rightarrow> (wrap_err ''leveldb open'' r, handles))"

definition NewSnapshotCorpusFromDir ::
  "(string \<Rightarrow> BlockStore go) \<Rightarrow> (go_error \<Rightarrow> bool) \<Rightarrow> (string \<Rightarrow> RangeMeta go) \<Rightarrow> string \<Rightarrow> string list \<Rightarrow>
   CorpusStore go \<times> string list" where
  "NewSnapshotCorpusFromDir open_store not_exist load_meta dir handles =
     (case openBlockstoreDB open_store dir handles of
        (Panic p, hs) \<Rightarrow> (Panic p, hs)
      | (Err e, hs) \<Rightarrow> (Err (ErrWrap ''open blockstore.db'' e), hs)
      | (Ok bs, hs) \<Rightarrow> (case snapshot_meta not_exist (load_meta dir) bs of
           Panic p \<Rightarrow> (Panic p, hs)
         | Err e \<Rightarrow> (Err e, remove1 dir hs)
         | Ok meta \<Rightarrow> (Ok (NewSnapshotCorpus meta (bs_LoadBlock bs) dir), hs)))"

text \<open>\<open>close\<close> is what closing the database returns.\<close>

definition SnapshotCorpus_Close :: "unit go \<Rightarrow> CorpusStore \<Rightarrow> string list \<Rightarrow> unit go \<times> string list" where
  "SnapshotCorpus_Close close store handles = (wrap_err ''close blockstore'' close, remove1 (cs_SnapshotDir store) handles)"

text \<open>A corpus that does not open leaves no handle behind; one that opens owns one, which \<open>Close\<close> releases.\<close>

lemma snapshot_corpus_handles:
  assumes "NewSnapshotCorpusFromDir open_store not_exist load_meta dir handles = (r, hs)" "no_panic r"
  shows "case r of Ok store \<Rightarrow> hs = dir # handles \<and> cs_SnapshotDir store = dir \<and> snd (SnapshotCorpus_Close c store hs) = handles
    | _ \<Rightarrow> hs = handles"
  using assms
  by (auto simp: NewSnapshotCorpusFromDir_def openBlockstoreDB_def SnapshotCorpus_Close_def NewSnapshotCorpus_def
      split: go.splits prod.splits)

section \<open>\<open>extract\<close>\<close>

record ExtractFlags =
  xf_source :: string
  xf_out :: string
  xf_start :: int
  xf_end :: int
  xf_chain_id :: string
  xf_bond_denom :: string
  xf_app_version :: u64

text \<open>\<open>open_store\<close> opens the block store of a directory.\<close>

definition validateBlockstore :: "(string \<Rightarrow> BlockStore go) \<Rightarrow> string \<Rightarrow> int \<Rightarrow> int \<Rightarrow> unit go" where
  "validateBlockstore open_store dir start stop =
     (case open_store dir of
        Panic p \<Rightarrow> Panic p
      | Err e \<Rightarrow> Err (ErrWrap (''open blockstore.db in '' @ dir) e)
      | Ok bs \<Rightarrow>
          if start < bs_Base bs
          then Err (ErrMsg (''blockstore base height '' @ itoa (bs_Base bs) @ '' is above requested start '' @ itoa start))
          else if bs_Height bs < stop
          then Err (ErrMsg (''blockstore height '' @ itoa (bs_Height bs) @ '' is below requested end '' @ itoa stop))
          else if bs_LoadBlock bs start = None
          then Err (ErrMsg (''block '' @ itoa start @ '' not found in blockstore''))
          else if bs_LoadBlock bs stop = None
          then Err (ErrMsg (''block '' @ itoa stop @ '' not found in blockstore''))
          else Ok ())"

text \<open>What \<open>extract\<close> changes: the files it writes and what it prints. \<open>OutSys\<close> says which calls fail.\<close>

record ExtractWorld =
  xw_files :: "string \<rightharpoonup> bytes"
  xw_out :: "string list"

record OutSys =
  os_mkdir :: "string \<Rightarrow> unit go"
  os_write :: "string \<Rightarrow> unit go"
  os_print :: "unit go"

definition range_path :: "string \<Rightarrow> string" where
  "range_path dir = path_join dir ''range.json''"

definition writeRangeMeta ::
  "OutSys \<Rightarrow> (RangeMeta \<Rightarrow> bytes go) \<Rightarrow> string \<Rightarrow> RangeMeta \<Rightarrow> ExtractWorld \<Rightarrow> unit go \<times> ExtractWorld" where
  "writeRangeMeta sys marshal dir meta w =
     (case marshal meta of
        Panic p \<Rightarrow> (Panic p, w)
      | Err e \<Rightarrow> (Err e, w)
      | Ok data \<Rightarrow> (case os_write sys (range_path dir) of
           Ok _ \<Rightarrow> (Ok (), w\<lparr>xw_files := (xw_files w)(range_path dir \<mapsto> data @ [10])\<rparr>)
         | r \<Rightarrow> (r, w)))"

definition next_steps :: "ExtractFlags \<Rightarrow> string" where
  "next_steps fl = ''range.json written to '' @ xf_out fl @ nl @ nl @ ''Next steps:'' @ nl @
     ''  cp -r '' @ xf_source fl @ ''/blockstore.db '' @ xf_out fl @ ''/'' @ nl @
     ''  cp -r '' @ xf_source fl @ ''/application.db '' @ xf_out fl @ ''/'' @ nl"

definition flags_meta :: "ExtractFlags \<Rightarrow> RangeMeta" where
  "flags_meta fl = \<lparr>rm_ChainID = xf_chain_id fl, rm_AppVersion = xf_app_version fl, rm_Start = xf_start fl,
     rm_End = xf_end fl, rm_BondDenom = xf_bond_denom fl\<rparr>"

definition extract_command ::
  "(string \<Rightarrow> BlockStore go) \<Rightarrow> OutSys \<Rightarrow> (RangeMeta \<Rightarrow> bytes go) \<Rightarrow> ExtractFlags \<Rightarrow> ExtractWorld \<Rightarrow>
   unit go \<times> ExtractWorld" where
  "extract_command open_store sys marshal fl w =
     (if xf_start fl \<le> 0 \<or> xf_end fl \<le> 0 \<or> xf_end fl < xf_start fl
      then (Err (ErrMsg (''invalid height range: start='' @ itoa (xf_start fl) @ '' end='' @ itoa (xf_end fl))), w)
      else (case validateBlockstore open_store (xf_source fl) (xf_start fl) (xf_end fl) of
        Ok _ \<Rightarrow> (case os_mkdir sys (xf_out fl) of
            Ok _ \<Rightarrow> (case writeRangeMeta sys marshal (xf_out fl) (flags_meta fl) w of
                (Ok _, w1) \<Rightarrow> (case os_print sys of
                    Ok _ \<Rightarrow> (Ok (), w1\<lparr>xw_out := xw_out w1 @ [next_steps fl]\<rparr>)
                  | r \<Rightarrow> (wrap_err ''write next-steps message'' r, w1))
              | (r, w1) \<Rightarrow> (wrap_err ''write range.json'' r, w1))
          | r \<Rightarrow> (wrap_err ''create output dir'' r, w))
      | r \<Rightarrow> (wrap_err ''validate blockstore'' r, w)))"

section \<open>\<open>snapshot prune\<close>\<close>

record PruneFlags =
  pf_snapshot_dir :: string
  pf_target_version :: int

text \<open>\<open>pruneSnapshotFn\<close> is the variable that an SDK build sets; \<open>load_meta\<close> is \<open>LoadRangeMeta\<close> of a directory.\<close>

definition prune_target :: "(string \<Rightarrow> RangeMeta go) \<Rightarrow> PruneFlags \<Rightarrow> int go" where
  "prune_target load_meta fl =
     (if pf_target_version fl < 0
      then (case load_meta (pf_snapshot_dir fl) of
              Ok meta \<Rightarrow> Ok (rm_Start meta - 1)
            | Err e \<Rightarrow> Err (ErrWrap ''load range.json (needed to infer --target-version)'' e)
            | Panic p \<Rightarrow> Panic p)
      else Ok (pf_target_version fl))"

definition prune_command ::
  "(string \<Rightarrow> int \<Rightarrow> 'x \<Rightarrow> unit go \<times> 'x) option \<Rightarrow> (string \<Rightarrow> RangeMeta go) \<Rightarrow> unit go \<Rightarrow> PruneFlags \<Rightarrow> 'x \<Rightarrow>
   unit go \<times> 'x" where
  "prune_command pruneSnapshotFn load_meta print fl w =
     (case pruneSnapshotFn of
        None \<Rightarrow> (Err (ErrMsg (''snapshot prune requires an SDK hook-enabled build '' @
                  ''with a registered prune factory'')), w)
      | Some prune \<Rightarrow>
          if pf_snapshot_dir fl = '''' then (Err (ErrMsg ''--snapshot-dir is required''), w)
          else (case prune_target load_meta fl of
                  Err e \<Rightarrow> (Err e, w)
                | Panic p \<Rightarrow> (Panic p, w)
                | Ok target \<Rightarrow> (case prune (pf_snapshot_dir fl) target w of
                     (Ok _, w1) \<Rightarrow> (print, w1)
                   | (r, w1) \<Rightarrow> (wrap_err ''prune snapshot'' r, w1))))"

definition sdk_pruneSnapshotFn ::
  "sys \<Rightarrow> StoreOps \<Rightarrow> 'w snap_factory option \<Rightarrow> string \<Rightarrow> int \<Rightarrow> snap_world \<Rightarrow> unit go \<times> snap_world" where
  "sdk_pruneSnapshotFn sys ops slot snapshotDir targetVersion w =
     (case slot of
        None \<Rightarrow> (Err (ErrMsg (''no prune factory registered; chain side must call '' @
                  ''run.RegisterDefaultPruneFactory in an init()'')), w)
      | Some factory \<Rightarrow> PruneSnapshot sys ops snapshotDir targetVersion factory w)"

section \<open>\<open>run\<close>\<close>

record RunFlags =
  rf_corpus :: string
  rf_probes :: int
  rf_fail_on_divergence :: bool
  rf_format :: string
  rf_hot_key_min_txs :: int

text \<open>The three reporters behind the one interface.\<close>

datatype AnyReporter = RepCLI CLIReporter | RepJSON JSONReporter | RepMarkdown MarkdownReporter

record Formats =
  fo_fmt2 :: "rat \<Rightarrow> string"
  fo_log10 :: "int \<Rightarrow> int"
  fo_json :: "jsonRunReport \<Rightarrow> string"

fun on_reporter :: "Formats \<Rightarrow> (CLIReporter Reporter \<Rightarrow> CLIReporter \<Rightarrow> CLIReporter) \<Rightarrow>
    (JSONReporter Reporter \<Rightarrow> JSONReporter \<Rightarrow> JSONReporter) \<Rightarrow>
    (MarkdownReporter Reporter \<Rightarrow> MarkdownReporter \<Rightarrow> MarkdownReporter) \<Rightarrow> AnyReporter \<Rightarrow> AnyReporter" where
  "on_reporter fo c j m (RepCLI r) = RepCLI (c (cli_Reporter (fo_fmt2 fo) (fo_log10 fo)) r)"
| "on_reporter fo c j m (RepJSON r) = RepJSON (j (json_Reporter (fo_json fo)) r)"
| "on_reporter fo c j m (RepMarkdown r) = RepMarkdown (m (md_Reporter (fo_fmt2 fo)) r)"

definition any_Reporter :: "Formats \<Rightarrow> AnyReporter Reporter" where
  "any_Reporter fo =
     \<lparr>rp_Header = (\<lambda>corpus n probes. on_reporter fo (\<lambda>rp. rp_Header rp corpus n probes)
        (\<lambda>rp. rp_Header rp corpus n probes) (\<lambda>rp. rp_Header rp corpus n probes)),
      rp_Block = (\<lambda>b. on_reporter fo (\<lambda>rp. rp_Block rp b) (\<lambda>rp. rp_Block rp b) (\<lambda>rp. rp_Block rp b)),
      rp_Footer = (\<lambda>s failOnDiv. on_reporter fo (\<lambda>rp. rp_Footer rp s failOnDiv) (\<lambda>rp. rp_Footer rp s failOnDiv)
        (\<lambda>rp. rp_Footer rp s failOnDiv)),
      rp_Errors = (\<lambda>r. case r of RepCLI x \<Rightarrow> rp_Errors (cli_Reporter (fo_fmt2 fo) (fo_log10 fo)) x
        | RepJSON x \<Rightarrow> rp_Errors (json_Reporter (fo_json fo)) x
        | RepMarkdown x \<Rightarrow> rp_Errors (md_Reporter (fo_fmt2 fo)) x)\<rparr>"

text \<open>\<open>fails\<close> says which writes to standard output fail.\<close>

definition new_reporter :: "(nat \<Rightarrow> bool) \<Rightarrow> string \<Rightarrow> AnyReporter" where
  "new_reporter fails format =
     (if format = ''json'' then RepJSON NewJSON
      else if format = ''markdown'' then RepMarkdown NewMarkdown
      else RepCLI (NewCLI fails))"

definition flags_config :: "RunFlags \<Rightarrow> Config" where
  "flags_config fl = \<lparr>cf_CorpusDir = rf_corpus fl, cf_Probes = rf_probes fl,
     cf_FailOnDivergence = rf_fail_on_divergence fl, cf_HotKeyMinTxs = rf_hot_key_min_txs fl\<rparr>"

text \<open>The executor that the number of probes selects.\<close>

datatype ('w, 'a, 'raw, 'k) sdk_executor =
  FixtureMode "('w, 'a, 'raw, 'k) FixtureState" | RepeatMode "('a, 'k) RepeatState"

definition newExecutor :: "int \<Rightarrow> ('w, 'a, 'raw, 'k) sdk_executor" where
  "newExecutor probes =
     (if 1 < probes then RepeatMode (NewRepeatRunExecutor probes) else FixtureMode (NewFixtureExecutor []))"

text \<open>\<open>newExecutorFn\<close> is the variable an SDK build sets, \<open>load\<close> is \<open>LoadCorpusStores\<close>. The result has the state
  of the harness when it ran.\<close>

definition run_command ::
  "(int \<Rightarrow> 'e Executor \<times> 'e) option \<Rightarrow> (string \<Rightarrow> CorpusStore list go) \<Rightarrow> Formats \<Rightarrow> (nat \<Rightarrow> bool) \<Rightarrow> registry \<Rightarrow>
   RunFlags \<Rightarrow> unit go \<times> ('e, AnyReporter) harness option" where
  "run_command newExecutorFn load fo fails registered fl =
     (case newExecutorFn of
        None \<Rightarrow> (Err (ErrMsg ''simulation execution requires an SDK hook-enabled build''), None)
      | Some new_executor \<Rightarrow> (case load (rf_corpus fl) of
           Panic p \<Rightarrow> (Panic p, None)
         | Err e \<Rightarrow> (Err (ErrWrap ''load corpus'' e), None)
         | Ok stores \<Rightarrow> (case new_executor (rf_probes fl) of (ex, e0) \<Rightarrow>
             (case RunHarness (flags_config fl) ex stores (any_Reporter fo) registered e0 (new_reporter fails (rf_format fl)) of
                Panic p \<Rightarrow> (Panic p, None)
              | Err e \<Rightarrow> (Err e, None)
              | Ok (code, st) \<Rightarrow>
                  (if code \<noteq> 0 then Err (ErrMsg (''harness exited with code '' @ itoa code)) else Ok (), Some st)))))"

section \<open>\<open>version\<close> and the exit status\<close>

record Info =
  vi_Version :: string
  vi_GitCommit :: string
  vi_BuildTags :: string
  vi_GoVersion :: string
  vi_SDKVersion :: string

text \<open>A dependency of the build information: path, version, and the path that replaces it.\<close>

record Dep =
  dp_Path :: string
  dp_Version :: string
  dp_Replace :: "string option"

definition getSDKVersion :: "Dep list option \<Rightarrow> string" where
  "getSDKVersion build_info =
     (case build_info of
        None \<Rightarrow> ''unknown''
      | Some deps \<Rightarrow> (case find (\<lambda>d. dp_Path d = ''github.com/cosmos/cosmos-sdk'') deps of
          None \<Rightarrow> ''unknown''
        | Some dep \<Rightarrow> (case dp_Replace dep of Some path \<Rightarrow> path @ '' (local replace)'' | None \<Rightarrow> dp_Version dep)))"

text \<open>The link-time variables and what \<open>runtime\<close> says are arguments.\<close>

definition NewInfo :: "string \<Rightarrow> string \<Rightarrow> string \<Rightarrow> string \<Rightarrow> string \<Rightarrow> string \<Rightarrow> Dep list option \<Rightarrow> Info" where
  "NewInfo version commit tags go_version goos goarch build_info = \<lparr>vi_Version = version, vi_GitCommit = commit,
     vi_BuildTags = tags, vi_GoVersion = ''go version '' @ go_version @ '' '' @ goos @ ''/'' @ goarch,
     vi_SDKVersion = getSDKVersion build_info\<rparr>"

definition Info_String :: "Info \<Rightarrow> string" where
  "Info_String vi = ''blockstm-sim '' @ vi_Version vi @ nl @ ''git commit: '' @ vi_GitCommit vi @ nl @
     ''build tags: '' @ vi_BuildTags vi @ nl @ vi_GoVersion vi @ nl @ ''cosmos-sdk: '' @ vi_SDKVersion vi"

definition lower :: "string \<Rightarrow> string" where
  "lower = map (\<lambda>c. let n = of_char c :: nat in if 65 \<le> n \<and> n \<le> 90 then char_of (n + 32) else c)"

definition version_command :: "(Info \<Rightarrow> string go) \<Rightarrow> (Info \<Rightarrow> string go) \<Rightarrow> Info \<Rightarrow> bool \<Rightarrow> string \<Rightarrow> string go" where
  "version_command json yaml info long output =
     (if \<not> long then Ok (vi_Version info @ nl)
      else go_bind (if lower output = ''json'' then json info else yaml info) (\<lambda>bz. Ok (bz @ nl)))"

text \<open>\<open>main\<close>: the exit status of the process, from the error of the command that ran.\<close>

definition main_exit :: "'x go \<Rightarrow> nat" where
  "main_exit r = (case r of Ok x \<Rightarrow> 0 | Err e \<Rightarrow> 1 | Panic p \<Rightarrow> 2)"

section \<open>Properties\<close>

lemma validate_Ok:
  assumes "validateBlockstore open_store dir start stop = Ok u"
  shows "\<exists>bs. open_store dir = Ok bs \<and> bs_Base bs \<le> start \<and> stop \<le> bs_Height bs \<and> bs_LoadBlock bs start \<noteq> None \<and>
    bs_LoadBlock bs stop \<noteq> None"
  using assms by (auto simp: validateBlockstore_def split: go.splits if_splits)

lemma extract_Ok:
  assumes "extract_command open_store sys marshal fl w = (Ok (), w')"
  shows "0 < xf_start fl \<and> xf_start fl \<le> xf_end fl \<and>
    validateBlockstore open_store (xf_source fl) (xf_start fl) (xf_end fl) = Ok () \<and>
    (\<exists>data. marshal (flags_meta fl) = Ok data \<and>
       xw_files w' = (xw_files w)(range_path (xf_out fl) \<mapsto> data @ [10]) \<and> xw_out w' = xw_out w @ [next_steps fl])"
proof -
  have range: "0 < xf_start fl" "xf_start fl \<le> xf_end fl" "\<not> (xf_start fl \<le> 0 \<or> xf_end fl \<le> 0 \<or> xf_end fl < xf_start fl)"
    using assms by (auto simp: extract_command_def split: if_splits)
  note run = assms [unfolded extract_command_def if_not_P [OF range(3)]]
  obtain u1 where v: "validateBlockstore open_store (xf_source fl) (xf_start fl) (xf_end fl) = Ok u1"
    using run by (cases "validateBlockstore open_store (xf_source fl) (xf_start fl) (xf_end fl)") auto
  obtain u2 where m: "os_mkdir sys (xf_out fl) = Ok u2"
    using run v by (cases "os_mkdir sys (xf_out fl)") auto
  obtain r w1 where wr: "writeRangeMeta sys marshal (xf_out fl) (flags_meta fl) w = (r, w1)"
    by (cases "writeRangeMeta sys marshal (xf_out fl) (flags_meta fl) w")
  obtain u3 where r: "r = Ok u3" using run v m wr by (cases r) auto
  obtain data where "marshal (flags_meta fl) = Ok data" "w1 = w\<lparr>xw_files := (xw_files w)(range_path (xf_out fl) \<mapsto> data @ [10])\<rparr>"
    using wr r by (auto simp: writeRangeMeta_def split: go.splits)
  moreover have "w' = w1\<lparr>xw_out := xw_out w1 @ [next_steps fl]\<rparr>"
    using run v m wr r by (auto split: go.splits)
  ultimately show ?thesis using range v by simp
qed


definition example_flags :: ExtractFlags where
  "example_flags = \<lparr>xf_source = ''node'', xf_out = ''snap'', xf_start = 3, xf_end = 5, xf_chain_id = '''',
     xf_bond_denom = ''uatom'', xf_app_version = 1\<rparr>"

definition example_bs :: BlockStore where
  "example_bs = \<lparr>bs_Base = 1, bs_Height = 9, bs_LoadBlock = (\<lambda>h. Some \<lparr>cb_ChainID = ''c'', cb_App = 1, cb_Txs = []\<rparr>)\<rparr>"

definition example_out :: OutSys where
  "example_out = \<lparr>os_mkdir = (\<lambda>_. Ok ()), os_write = (\<lambda>_. Ok ()), os_print = Ok ()\<rparr>"


lemma prune_Ok:
  assumes "prune_command (Some prune) load_meta print fl w = (Ok (), w')"
  shows "\<exists>v. prune_target load_meta fl = Ok v \<and> prune (pf_snapshot_dir fl) v w = (Ok (), w')"
  using assms by (auto simp: prune_command_def wrap_err_def split: go.splits prod.splits if_splits)

lemma loadAndTruncate_zero:
  assumes "store_laws ops factory" "v \<le> 0" "loadAndTruncate ops v db = (Ok (), db')"
  shows "so_LatestVersion ops db' = so_LatestVersion ops db"
proof -
  have "so_LoadVersion ops v db = (Ok (), db')"
    using assms(2,3) by (auto simp: loadAndTruncate_def Let_def wrap_err_def split: prod.splits go.splits)
  then show ?thesis using assms(1) by (simp add: store_laws_def)
qed

lemma PruneSnapshot_zero:
  assumes "store_laws ops factory" "v \<le> 0" "PruneSnapshot sys ops dir v factory w = (Ok (), w')" "sw_source w = Some db0"
  shows "\<exists>db. sw_source w' = Some db \<and> so_LatestVersion ops db = so_LatestVersion ops db0"
proof -
  obtain w1 w2 w3 where w1: "openDB sys dir w = (Ok (), w1)" "on_source (sf_create factory False) w1 = (Ok (), w2)"
      "on_source (loadAndTruncate ops v) w2 = (Ok (), w3)" "w' = closeDB dir w3"
    using assms(3) by (auto simp: PruneSnapshot_def wrap_err_def split: prod.splits go.splits)
  have s1: "sw_source w1 = Some db0" using w1(1) assms(4) by (auto simp: openDB_def split: option.splits)
  obtain db1 where db1: "sf_create factory False db0 = (Ok (), db1)" "sw_source w2 = Some db1"
    using w1(2) s1 by (auto simp: on_source_def split: prod.splits)
  obtain db2 where db2: "loadAndTruncate ops v db1 = (Ok (), db2)" "sw_source w3 = Some db2"
    using w1(3) db1(2) by (auto simp: on_source_def split: prod.splits)
  have "so_LatestVersion ops db1 = so_LatestVersion ops db0"
    using assms(1) db1(1) by (auto simp: store_laws_def)
  then show ?thesis using loadAndTruncate_zero [OF assms(1,2) db2(1)] db2(2) w1(4) by (simp add: closeDB_def)
qed

text \<open>C35. What \<open>snapshot prune\<close> removes: when it succeeds, the last version of the snapshot's database is
  the target version if that is positive; for target 0, which is also what is inferred from a range that
  starts at block 1, the command succeeds too and removes nothing. The multistore obeys \<open>store_laws\<close>.\<close>

theorem prune_command_effect:
  assumes "store_laws ops factory"
    and "prune_command (Some (sdk_pruneSnapshotFn sys ops (Some factory))) load_meta print fl w = (Ok (), w')"
    and "sw_source w = Some db0"
  shows "\<exists>v db. prune_target load_meta fl = Ok v \<and> sw_source w' = Some db \<and>
    so_LatestVersion ops db = (if 0 < v then v else so_LatestVersion ops db0)"
proof -
  obtain v where v: "prune_target load_meta fl = Ok v"
      "PruneSnapshot sys ops (pf_snapshot_dir fl) v factory w = (Ok (), w')"
    using prune_Ok [OF assms(2)] by (auto simp: sdk_pruneSnapshotFn_def)
  have "\<exists>db. sw_source w' = Some db \<and> so_LatestVersion ops db = (if 0 < v then v else so_LatestVersion ops db0)"
    using PruneSnapshot_pinned [OF assms(1) _ v(2)] PruneSnapshot_zero [OF assms(1) _ v(2) assms(3)] by force
  then show ?thesis using v(1) by blast
qed

definition example_prune :: PruneFlags where
  "example_prune = \<lparr>pf_snapshot_dir = ''snap'', pf_target_version = -1\<rparr>"

theorem prune_command_effect_witness:
  "\<exists>w' db. prune_command (Some (sdk_pruneSnapshotFn example_no_sys example_ops (Some example_factory)))
      (\<lambda>_. Ok (example_meta\<lparr>rm_Start := 1\<rparr>)) (Ok ()) example_prune example_snapshot = (Ok (), w') \<and>
    sw_source w' = Some db \<and> so_LatestVersion example_ops db = 3"
proof -
  let ?load = "\<lambda>_ :: string. Ok (example_meta\<lparr>rm_Start := 1\<rparr>)"
  let ?prune = "sdk_pruneSnapshotFn example_no_sys example_ops (Some example_factory)"
  obtain w' where run: "prune_command (Some ?prune) ?load (Ok ()) example_prune example_snapshot = (Ok (), w')"
    by (simp add: prune_command_def prune_target_def example_prune_def sdk_pruneSnapshotFn_def PruneSnapshot_def
        openDB_def example_no_sys_def on_source_def example_snapshot_def example_factory_def example_ops_def
        loadAndTruncate_def call_def)
  obtain db0 where db0: "sw_source example_snapshot = Some db0" "so_LatestVersion example_ops db0 = 3"
    by (simp add: example_snapshot_def example_ops_def)
  have "prune_target ?load example_prune = Ok 0" by (simp add: prune_target_def example_prune_def)
  then show ?thesis
    using prune_command_effect [OF example_store_laws run db0(1)] run db0(2) by auto
qed

lemma any_fold_json:
  "fold (rp_Block (any_Reporter fo)) outs (RepJSON r) = RepJSON (fold (rp_Block (json_Reporter (fo_json fo))) outs r)"
  by (induction outs arbitrary: r) (simp_all add: any_Reporter_def)

lemma fixture_stores_ok:
  "list_all store_ok (map NewFixtureCorpus fxs)"
  "list_all (\<lambda>s. iter_no_panic (cs_Iter s (\<lambda>_. None))) (map NewFixtureCorpus fxs)"
proof -
  have "iter_no_panic (fixture_iter ctx i bs)" for ctx i bs
    by (induction bs arbitrary: i) (auto split: option.split)
  then show "list_all store_ok (map NewFixtureCorpus fxs)"
    "list_all (\<lambda>s. iter_no_panic (cs_Iter s (\<lambda>_. None))) (map NewFixtureCorpus fxs)"
    using fixture_corpus.corpus_store_ok by (auto simp: list_all_iff NewFixtureCorpus_def)
qed

lemma count_where_pos: "0 < count_where P outs \<longleftrightarrow> list_ex P outs"
  by (auto simp: count_where_def list_ex_iff filter_empty_conv)

text \<open>The outcomes that make a run fail.\<close>

definition run_failed :: "bool \<Rightarrow> BlockOutcome list \<Rightarrow> bool" where
  "run_failed failOnDiv outs \<longleftrightarrow> list_ex (\<lambda>b. bo_IsCanary b \<and> bo_Verdict b = Match) outs \<or>
     failOnDiv \<and> list_ex (\<lambda>b. \<not> bo_IsCanary b \<and> bo_Verdict b = Divergence) outs"

text \<open>The JSON document of a run with the outcomes \<open>outs\<close>.\<close>

definition run_doc :: "Summary \<Rightarrow> bool \<Rightarrow> string \<Rightarrow> int \<Rightarrow> BlockOutcome list \<Rightarrow> jsonRunReport" where
  "run_doc sm f corpus probes outs = json_doc \<lparr>json_out = [], json_corpus = corpus, json_probes = probes,
     json_blocks = map json_block outs\<rparr> sm f"

lemma json_document:
  "rp_Footer (any_Reporter fo) sm f (fold (rp_Block (any_Reporter fo)) outs
      (rp_Header (any_Reporter fo) corpus n probes (RepJSON NewJSON))) =
    RepJSON \<lparr>json_out = [fo_json fo (run_doc sm f corpus probes outs)],
      json_corpus = corpus, json_probes = probes, json_blocks = map json_block outs\<rparr>"
proof -
  let ?h = "NewJSON\<lparr>json_corpus := corpus, json_probes := probes\<rparr>"
  have fold: "fold (rp_Block (json_Reporter enc)) outs r = r\<lparr>json_blocks := json_blocks r @ map json_block outs\<rparr>" for enc r
    by (induction outs arbitrary: r) (simp_all add: json_Reporter_def)
  have "rp_Header (any_Reporter fo) corpus n probes (RepJSON NewJSON) = RepJSON ?h"
    by (simp add: any_Reporter_def json_Reporter_def)
  then have "fold (rp_Block (any_Reporter fo)) outs (rp_Header (any_Reporter fo) corpus n probes (RepJSON NewJSON)) =
      RepJSON (?h\<lparr>json_blocks := map json_block outs\<rparr>)"
    by (simp add: any_fold_json fold NewJSON_def)
  then show ?thesis by (simp add: any_Reporter_def json_Reporter_def run_doc_def NewJSON_def)
qed

lemma run_doc_simps:
  "jr_Blocks (run_doc sm f corpus probes outs) = map json_block outs"
  "js_ExitCode (jr_Summary (run_doc sm f corpus probes outs)) = ExitCode sm f"
  by (simp_all add: run_doc_def json_doc_def)

lemma json_parts:
  "\<exists>r doc. rp_Footer (any_Reporter fo) sm f (fold (rp_Block (any_Reporter fo)) outs
      (rp_Header (any_Reporter fo) corpus n probes (RepJSON NewJSON))) = RepJSON r \<and> json_out r = [fo_json fo doc] \<and>
    jr_Blocks doc = map json_block outs \<and> js_ExitCode (jr_Summary doc) = ExitCode sm f"
  unfolding json_document
  by (rule exI, rule exI [of _ "run_doc sm f corpus probes outs"]) (intro conjI run_doc_simps, rule refl, simp)

lemma load_fixture_stores:
  assumes "\<not> df_stat files (fuzz_path dir)" "LoadCorpus dir (df_glob files dir) (LoadFixture (df_read files) (dc_fixture dec)) = Ok fxs"
  shows "LoadCorpusStores registered intn src files dec dir = Ok (map NewFixtureCorpus fxs)"
  using assms by (simp add: LoadCorpusStores_def)


definition demo_fixture :: Fixture where
  "demo_fixture = \<lparr>fx_Name = ''f'', fx_Description = '''', fx_Kind = '''', fx_Genesis = \<lparr>gs_Accounts = []\<rparr>,
     fx_Blocks = [zero_block, zero_block]\<rparr>"

definition demo_files :: DirFiles where
  "demo_files = \<lparr>df_stat = (\<lambda>_. False), df_read = (\<lambda>_. Ok []), df_glob = (\<lambda>_. Ok [''fixtures/f.yaml''])\<rparr>"

definition demo_decoders :: Decoders where
  "demo_decoders = \<lparr>dc_fixture = (\<lambda>_. Ok demo_fixture), dc_fuzz = (\<lambda>_. Err (ErrMsg ''no fuzz.json''))\<rparr>"

definition demo_flags :: RunFlags where
  "demo_flags = \<lparr>rf_corpus = ''fixtures'', rf_probes = 1, rf_fail_on_divergence = True, rf_format = ''json'',
     rf_hot_key_min_txs = 2\<rparr>"


end
