(* ===== verification/Pipeline.thy ===== *)
theory Pipeline
  imports Commands
begin

text \<open>
  The executors behind the harness's interface: the state of \<open>Init\<close> and \<open>Close\<close> (Executor_Init) with the block
  runs of Executors and Repeat_Run, as the \<open>Executor\<close> that \<open>RunHarness\<close> drives. \<open>FixturePkg\<close> holds the
  package variables of \<open>run/executor.go\<close> that \<open>RunBlock\<close> reads and what an application does. A block on an
  executor that is not initialised dereferences nil; the harness runs none.
\<close>

record ('w, 'a, 'k, 'c, 'm, 't) FixturePkg =
  fp_App :: "'a \<Rightarrow> 'w App"
  fp_Lib :: "('k, 'c, 'm, 't) TxLib"
  fp_RawBuilders :: "'k raw_builders"
  fp_PackageBuilders :: "('k, 'm) builders"
  fp_Builders :: "('k, 'm) builders"
  fp_BlockCtx :: "(int \<Rightarrow> 'w \<Rightarrow> ('w MutationTracker \<times> ('w \<Rightarrow> BlockContextMutation list)) \<times> 'w) option"
  fp_PreProbeSetup :: "('w \<Rightarrow> 'w) option"
  fp_PostRunBlock :: "('w \<Rightarrow> 'w) option"
  fp_NonDet :: "(('w \<Rightarrow> NonDetCall list \<times> 'w) \<times> (int \<Rightarrow> 'w \<Rightarrow> 'w)) option"

text \<open>The executor's fields, the conflict detection flag, the memory.\<close>

type_synonym ('w, 'a, 'raw, 'k) fixture_state = "('w, 'a, 'raw, 'k) FixtureState \<times> bool \<times> 'w"

definition fixture_view ::
  "('w, 'a, 'raw, 'key, 'r, 'k, 'c, 'v) InitEnv \<Rightarrow> ('w, 'a, 'k, 'd, 'm, 't) FixturePkg \<Rightarrow> (string \<rightharpoonup> 'k) \<Rightarrow> (string \<Rightarrow> u64) \<Rightarrow> 'w MutationTracker list \<Rightarrow> bool \<Rightarrow>
   'a \<Rightarrow> 'a \<Rightarrow> ('w, 'k, 'd, 'm, 't) FixtureExecutor" where
  "fixture_view env pkg keys accountNums trackers conflictDetection oracle probe = \<lparr>
     fe_Lib = fp_Lib pkg, fe_Oracle = fp_App pkg oracle, fe_Probe = fp_App pkg probe, fe_Keys = keys,
     fe_AccountNums = accountNums, fe_Trackers = trackers, fe_RawBuilders = fp_RawBuilders pkg,
     fe_PackageBuilders = fp_PackageBuilders pkg, fe_Builders = fp_Builders pkg,
     fe_ConflictDetection = conflictDetection,
     fe_ConflictInstaller = (conflictInstaller (ev_Hooks env) \<noteq> None),
     fe_StatsInstaller = (execStatsInstaller (ev_Hooks env) \<noteq> None), fe_BlockCtx = fp_BlockCtx pkg,
     fe_PreProbeSetup = fp_PreProbeSetup pkg, fe_PostRunBlock = fp_PostRunBlock pkg, fe_NonDet = fp_NonDet pkg\<rparr>"

definition nil_app :: string where
  "nil_app = ''runtime error: invalid memory address or nil pointer dereference''"

definition fixture_Executor ::
  "('w, 'a, 'raw, 'key, 'r, 'k, 'c, 'v) InitEnv \<Rightarrow> ('w, 'a, 'k, 'd, 'm, 't) FixturePkg \<Rightarrow>
   ('w, 'a, 'raw, 'k) fixture_state Executor" where
  "fixture_Executor env pkg = \<lparr>
     ex_Init = (\<lambda>genesis (e, cd, w). case fixture_Init env genesis (e, w) of (r, e', w') \<Rightarrow> (r, e', cd, w')),
     ex_RunBlock = (\<lambda>b height (e, cd, w).
       case (fx_oracle e, fx_probe e) of
         (Some oracle, Some probe) \<Rightarrow>
           (case fixture_RunBlock (fixture_view env pkg (fx_keys e) (fx_accountNums e) (fx_oracleTrackers e) cd oracle probe)
                    b height (fx_sequences e, w) of
              (r, seqs, w') \<Rightarrow> (r, e\<lparr>fx_sequences := seqs\<rparr>, cd, w'))
       | _ \<Rightarrow> (Panic nil_app, e, cd, w)),
     ex_Close = (\<lambda>(e, cd, w). (fixture_Close e, cd, w)),
     ex_SetConflictDetection = Some (\<lambda>enabled (e, cd, w). (e, enabled, w)),
     ex_InitFromState = None\<rparr>"

definition repeat_view ::
  "('w, 'a, 'k, 'c, 'm, 't) FixturePkg \<Rightarrow> ('a, 'k) RepeatState \<Rightarrow> 'a \<Rightarrow> ('w, 'k, 'c, 'm, 't) RepeatRunExecutor" where
  "repeat_view pkg e oracle = \<lparr>rr_n = rs_n e, rr_Oracle = fp_App pkg oracle, rr_Probes = map (fp_App pkg) (rs_probes e),
     rr_Lib = fp_Lib pkg, rr_Keys = rs_keys e, rr_AccountNums = rs_accountNums e,
     rr_PackageBuilders = fp_PackageBuilders pkg\<rparr>"

definition repeat_Executor ::
  "('w, 'a, 'raw, 'key, 'r, 'k, 'c, 'v) InitEnv \<Rightarrow> ('w, 'a, 'k, 'd, 'm, 't) FixturePkg \<Rightarrow>
   (('a, 'k) RepeatState \<times> 'w) Executor" where
  "repeat_Executor env pkg = \<lparr>
     ex_Init = repeat_Init env,
     ex_RunBlock = (\<lambda>b height (e, w).
       case rs_oracle e of
         Some oracle \<Rightarrow>
           (case repeat_RunBlock (repeat_view pkg e oracle) b height (rs_sequences e, w) of
              (r, seqs, w') \<Rightarrow> (r, e\<lparr>rs_sequences := seqs\<rparr>, w'))
       | None \<Rightarrow> (Panic nil_app, e, w)),
     ex_Close = (\<lambda>(e, w). (repeat_Close e, w)),
     ex_SetConflictDetection = None,
     ex_InitFromState = None\<rparr>"

section \<open>What a run says about its blocks\<close>

text \<open>One block run of the harness with the fixture executor: the executor was initialised for the genesis of the
  block's store, the block was built and run on the oracle and then on the probe that this made, from the state
  the executor had, and the verdict is \<open>Match\<close> exactly when the two agree.\<close>

definition initialised_for ::
  "('w, 'a, 'raw, 'key, 'r, 'k, 'c, 'v) InitEnv \<Rightarrow> GenesisSpec \<Rightarrow> ('w, 'a, 'raw, 'k) FixtureState \<Rightarrow> 'a \<Rightarrow> 'a \<Rightarrow> bool" where
  "initialised_for env genesis e oracle probe \<longleftrightarrow>
     (\<exists>e0 w0 e1 w1. fixture_Init env genesis (e0, w0) = (Ok (), e1, w1) \<and>
        fx_oracle e1 = Some oracle \<and> fx_probe e1 = Some probe \<and> e = e1\<lparr>fx_sequences := fx_sequences e\<rparr>)"

definition compared_run ::
  "('w, 'a, 'raw, 'key, 'r, 'k, 'c, 'v) InitEnv \<Rightarrow> ('w, 'a, 'k, 'd, 'm, 't) FixturePkg \<Rightarrow>
   ('w, 'a, 'raw, 'k) fixture_state block_run \<Rightarrow> Verdict \<Rightarrow> bool" where
  "compared_run env pkg = (\<lambda>(s, b, h, (e, cd, w), r) v.
     \<exists>oracle probe fe built seqs' trackers ctxMuts w1 ora st1 st2 prb st3.
        initialised_for env (cs_Genesis s) e oracle probe \<and>
        fe = fixture_view env pkg (fx_keys e) (fx_accountNums e) (fx_oracleTrackers e) cd oracle probe \<and>
        fe_build fe b (fx_sequences e) = (Ok built, seqs') \<and> block_trackers fe h w = (trackers, ctxMuts, w1) \<and>
        block_stages fe h (block_txs b built) trackers w1 ora st1 st2 prb st3 \<and>
        (v = Match \<longleftrightarrow> block_agrees fe (block_txs b built) trackers ctxMuts w1 ora st1 st2 prb st3))"

lemma initialised_apps:
  "initialised_for env genesis e oracle probe \<Longrightarrow> fx_oracle e = Some oracle \<and> fx_probe e = Some probe"
  unfolding initialised_for_def by (elim exE conjE) (erule ssubst [where P = "\<lambda>e. fx_oracle e = _ \<and> fx_probe e = _"], simp)

lemma initialised_sequences:
  "initialised_for env genesis e oracle probe \<Longrightarrow> initialised_for env genesis (e\<lparr>fx_sequences := q\<rparr>) oracle probe"
  unfolding initialised_for_def
  by (elim exE conjE, intro exI conjI, assumption+) (metis FixtureState.select_convs(5) FixtureState.surjective FixtureState.update_convs(5))

lemma fixture_Executor_RunBlock:
  assumes "ex_RunBlock (fixture_Executor env pkg) b h (e, cd, w) = (Ok r, s')"
    and "initialised_for env (cs_Genesis s) e oracle probe"
  shows "compared_run env pkg (s, b, h, (e, cd, w), r') (r_Verdict r)"
proof -
  note a = initialised_apps [OF assms(2)]
  let ?fe = "fixture_view env pkg (fx_keys e) (fx_accountNums e) (fx_oracleTrackers e) cd oracle probe"
  obtain seqs' w' where "fixture_RunBlock ?fe b h (fx_sequences e, w) = (Ok r, seqs', w')"
    using assms(1) by (auto simp: fixture_Executor_def a split: prod.splits)
  from fixture_exact [OF this] obtain built trackers ctxMuts w1 ora st1 st2 prb st3 where
      "fe_build ?fe b (fx_sequences e) = (Ok built, seqs')" "block_trackers ?fe h w = (trackers, ctxMuts, w1)"
      "block_stages ?fe h (block_txs b built) trackers w1 ora st1 st2 prb st3"
      "r_Verdict r = Match \<longleftrightarrow> block_agrees ?fe (block_txs b built) trackers ctxMuts w1 ora st1 st2 prb st3"
    by blast
  then show ?thesis unfolding compared_run_def prod.case using assms(2) by blast
qed

text \<open>A block changes only the sequences of the executor, so that it stays the one \<open>Init\<close> made.\<close>

lemma block_keeps_initialised:
  assumes "ex_RunBlock (fixture_Executor env pkg) b h (e, cd, w) = (r, e', cd', w')"
    and "initialised_for env genesis e oracle probe"
  shows "initialised_for env genesis e' oracle probe"
proof -
  obtain q where "e' = e\<lparr>fx_sequences := q\<rparr>"
    using assms(1) initialised_apps [OF assms(2)] by (auto simp: fixture_Executor_def split: prod.splits)
  then show ?thesis using initialised_sequences [OF assms(2)] by simp
qed

text \<open>A run that succeeded, with the verdict it gave.\<close>

definition run_verdict :: "'e block_run \<Rightarrow> Verdict \<Rightarrow> bool" where
  "run_verdict = (\<lambda>(s, b, h, e, r) v. \<exists>x. r = Ok x \<and> v = r_Verdict x)"

lemma block_runs_compared:
  assumes "initialised_for env (cs_Genesis s) (fst e) oracle probe"
    and "c \<in> set (fst (block_runs (fixture_Executor env pkg) s i bs e))" "run_verdict c v"
  shows "compared_run env pkg c v"
  using assms
proof (induction bs arbitrary: i e)
  case (Cons b bs)
  obtain e0 cd w where e: "e = (e0, cd, w)" by (cases e)
  obtain r e1 cd1 w1 where r: "ex_RunBlock (fixture_Executor env pkg) b (effective_height b i) e = (r, e1, cd1, w1)"
    by (metis prod_cases4)
  have ini: "initialised_for env (cs_Genesis s) e0 oracle probe" using Cons.prems(1) e by simp
  have "c = (s, b, effective_height b i, e, r) \<or>
      c \<in> set (fst (block_runs (fixture_Executor env pkg) s (i + 1) bs (e1, cd1, w1)))"
    using Cons.prems(2) r by (auto split: prod.splits)
  then show ?case
  proof
    assume c: "c = (s, b, effective_height b i, e, r)"
    then obtain x where "r = Ok x" "v = r_Verdict x" using Cons.prems(3) by (auto simp: run_verdict_def)
    then show ?thesis using fixture_Executor_RunBlock [OF _ ini, of pkg b "effective_height b i" cd w x] r c e by simp
  next
    assume "c \<in> set (fst (block_runs (fixture_Executor env pkg) s (i + 1) bs (e1, cd1, w1)))"
    from Cons.IH [OF _ this Cons.prems(3)] block_keeps_initialised [OF r [unfolded e] ini] show ?thesis by simp
  qed
qed simp

text \<open>The executor cannot initialise from a state, so a store with a snapshot runs no block.\<close>

lemma harness_runs_compared:
  assumes "c \<in> set (harness_runs (fixture_Executor env pkg) stores e)" "run_verdict c v"
  shows "compared_run env pkg c v"
  using assms(1)
proof (induction stores arbitrary: e)
  case (Cons s stores)
  let ?ex = "fixture_Executor env pkg"
  obtain rs e1 where sr: "store_run ?ex s e = (rs, e1)" by (cases "store_run ?ex s e")
  show ?case
  proof (cases "c \<in> set rs")
    case True
    obtain e2 where i: "h_init ?ex s e = (Ok None, e2)"
        and c: "c \<in> set (fst (block_runs ?ex s 0 (iter_blocks (cs_Iter s (\<lambda>_. None))) e2))"
      by (rule store_run_member [OF sr True])
    obtain e0 cd w where e: "e = (e0, cd, w)" by (cases e)
    obtain e3 w3 where f: "fixture_Init env (cs_Genesis s) (e0, w) = (Ok (), e3, w3)" "e2 = (e3, cd, w3)"
      using i e by (auto simp: h_init_def fixture_Executor_def split: go.splits prod.splits if_splits)
    obtain ora prb where a: "fx_oracle e3 = Some ora" "fx_probe e3 = Some prb"
      using f(1) by (auto simp: fixture_Init_Ok)
    have "initialised_for env (cs_Genesis s) (fst e2) ora prb"
      unfolding initialised_for_def using f a by (intro exI [of _ e0] exI [of _ w] exI [of _ e3] exI [of _ w3]) simp
    then show ?thesis by (rule block_runs_compared [OF _ c assms(2)])
  next
    case False
    then show ?thesis using Cons.IH [of e1] Cons.prems sr by simp
  qed
qed simp

text \<open>The outcomes of the reporter are the verdicts of the runs that succeeded.\<close>

lemma outcome_block: "list_all2 R cs outs \<Longrightarrow> o1 \<in> set outs \<Longrightarrow> \<exists>c \<in> set cs. R c o1"
  by (induction rule: list_all2_induct) auto

lemma block_outcome_of: "list_all2 R cs outs \<Longrightarrow> c \<in> set cs \<Longrightarrow> \<exists>o1 \<in> set outs. R c o1"
  by (induction rule: list_all2_induct) auto

lemma outcome_verdict:
  assumes "outcome_of cfg tot c o1"
  shows "run_verdict c (bo_Verdict o1) \<and> bo_IsCanary o1 = cs_IsCanary (fst c)"
proof -
  obtain s b h e r where c: "c = (s, b, h, e, r)" by (cases c)
  then obtain x where "r = Ok x" and o1: "o1 = block_outcome cfg tot (cs_Name s) (cs_IsCanary s) (bo_Index o1) x"
    using assms by (auto simp: outcome_of_def)
  moreover have "bo_Verdict o1 = r_Verdict x" "bo_IsCanary o1 = cs_IsCanary s"
    by (subst o1, simp add: block_outcome_def)+
  ultimately show ?thesis using c by (simp add: run_verdict_def)
qed

lemma outcomes_of_runs:
  assumes "outcomes_of cfg tot runs outs" "c \<in> set runs" "run_ok c"
  shows "\<exists>o1 \<in> set outs. run_verdict c (bo_Verdict o1) \<and> bo_IsCanary o1 = cs_IsCanary (fst c)"
proof -
  have "c \<in> set (filter run_ok runs)" using assms(2,3) by simp
  then obtain o1 where o1: "o1 \<in> set outs" "outcome_of cfg tot c o1"
    using assms(1) block_outcome_of unfolding outcomes_of_def by metis
  then show ?thesis using outcome_verdict by metis
qed

lemma runs_of_outcomes:
  assumes "outcomes_of cfg tot runs outs" "o1 \<in> set outs"
  shows "\<exists>c \<in> set runs. run_verdict c (bo_Verdict o1) \<and> bo_IsCanary o1 = cs_IsCanary (fst c)"
proof -
  obtain c where c: "c \<in> set (filter run_ok runs)" "outcome_of cfg tot c o1"
    using assms outcome_block unfolding outcomes_of_def by metis
  then have "c \<in> set runs" by simp
  then show ?thesis using outcome_verdict [OF c(2)] by blast
qed

text \<open>What \<open>RunHarness\<close> reports, and its exit code.\<close>

lemma harness_reported:
  assumes "RunHarness cfg ex stores rep reg e r = Ok (code, st)" "list_all store_ok stores"
    and "runs = harness_runs ex stores (harness_start cfg ex e)"
  obtains outs sm where
    "hs_rep st = rp_Footer rep sm (cf_FailOnDivergence cfg) (fold (rp_Block rep) outs
       (rp_Header rep (cf_CorpusDir cfg) (total_blocks stores) (cf_Probes cfg) r))"
    "outcomes_of cfg (total_blocks stores) runs outs"
    "hs_errOut st \<noteq> [] \<or> list_all run_ok runs \<and> map run_block runs = concat (map store_blocks stores)"
    "code = (if run_failed (cf_FailOnDivergence cfg) outs then 1 else 0)"
    "sm_HotKeyBlocks sm = count_where (\<lambda>b. bo_HotKeys b \<noteq> []) outs" "sm_MaxExecRatio sm = max_ratio (results runs)"
  using harness_outcomes [OF assms(1,2)] unfolding Let_def assms(3) [symmetric] run_failed_def [symmetric] by blast

lemma run_ok_verdict: "run_ok c \<longleftrightarrow> (\<exists>v. run_verdict c v)"
  by (cases c) (auto simp: run_ok_def run_verdict_def split: go.splits)

lemma run_failed_runs:
  assumes "outcomes_of cfg tot runs outs"
  shows "run_failed True outs \<longleftrightarrow> (\<exists>c \<in> set runs. run_verdict c (if cs_IsCanary (fst c) then Match else Divergence))"
proof
  assume "run_failed True outs"
  then obtain o1 where o1: "o1 \<in> set outs" "bo_Verdict o1 = (if bo_IsCanary o1 then Match else Divergence)"
    by (auto simp: run_failed_def list_ex_iff)
  then show "\<exists>c \<in> set runs. run_verdict c (if cs_IsCanary (fst c) then Match else Divergence)"
    using runs_of_outcomes [OF assms o1(1)] by auto
next
  assume "\<exists>c \<in> set runs. run_verdict c (if cs_IsCanary (fst c) then Match else Divergence)"
  then obtain c where c: "c \<in> set runs" "run_verdict c (if cs_IsCanary (fst c) then Match else Divergence)" by blast
  then obtain o1 where o1: "o1 \<in> set outs" "run_verdict c (bo_Verdict o1)" "bo_IsCanary o1 = cs_IsCanary (fst c)"
    using outcomes_of_runs [OF assms c(1)] run_ok_verdict by blast
  have "bo_Verdict o1 = (if cs_IsCanary (fst c) then Match else Divergence)"
    using o1(2) c(2) by (auto simp: run_verdict_def split: prod.splits)
  with o1 show "run_failed True outs" by (auto simp: run_failed_def list_ex_iff split: if_splits)
qed

section \<open>An instance\<close>

text \<open>Applications that answer every block alike, and a fixture with one empty block.\<close>

definition quiet_app :: "nat App" where
  "quiet_app = \<lparr>ap_FinalizeBlock = (\<lambda>h txs w. (Ok \<lparr>rs_AppHash = [1], rs_TxResults = []\<rparr>, [])), ap_Commit = (\<lambda>w. (Ok (), w))\<rparr>"

definition quiet_pkg :: "(nat, nat, string, nat, nat, nat list) FixturePkg" where
  "quiet_pkg = \<lparr>fp_App = (\<lambda>_. quiet_app),
     fp_Lib = \<lparr>tl_ParseCoins = (\<lambda>s. Ok (length s)), tl_MsgSend = (\<lambda>a b c. c), tl_GenSigned = (\<lambda>ms gas num s k. Ok ms),
       tl_Encode = (\<lambda>t. Ok (map of_nat t))\<rparr>,
     fp_RawBuilders = Map.empty, fp_PackageBuilders = Map.empty, fp_Builders = Map.empty, fp_BlockCtx = None,
     fp_PreProbeSetup = None, fp_PostRunBlock = None, fp_NonDet = None\<rparr>"

definition quiet_store :: CorpusStore where
  "quiet_store = NewFixtureCorpus \<lparr>fx_Name = ''quiet'', fx_Description = '''', fx_Kind = '''',
     fx_Genesis = example_genesis, fx_Blocks = [zero_block]\<rparr>"

definition quiet_run :: "(int \<times> ((nat, nat, nat, string) fixture_state, JSONReporter) harness) go" where
  "quiet_run = RunHarness demo_config (fixture_Executor (example_env True) quiet_pkg) [quiet_store]
     (json_Reporter (\<lambda>_. '''')) [] (NewFixtureExecutor [], False, 0) NewJSON"

lemma quiet_run_exits: "(case quiet_run of Ok (code, st) \<Rightarrow> code = 0 \<and> hs_errOut st = [] | _ \<Rightarrow> False)"
  by code_simp

end
