(* ===== verification/Sdk_Adapter.thy ===== *)
theory Sdk_Adapter
  imports Pipeline
begin

text \<open>
  \<open>cmd/blockstm-sim/sdkimpl/sdkimpl.go\<close>, the adapter that a build with SDK hooks links in, and
  \<open>simharness/simharness.go\<close> with its build-tagged halves: what \<open>init\<close> registers in the slots of Sdkhook, the
  wrapped application, and what follows for runs of the executors. \<open>'x\<close> is \<open>*runtime.App\<close>, whose module map
  \<open>modules\<close> ranges over in some order; the fork's runner is what its constructor was given.
\<close>

section \<open>The adapter\<close>

datatype 'x appAdapter = AppAdapter 'x

text \<open>\<open>txnrunner.NewSTMRunner\<close>: the decoder and the store keys are those of the application.\<close>

record 'a STMRunner =
  rn_app :: 'a
  rn_workers :: int
  rn_perturb :: "int option"

definition discover_modules :: "('x \<Rightarrow> 'mod list) \<Rightarrow> 'x \<Rightarrow> 'mod list" where
  "discover_modules modules app = foldl (\<lambda>mods m. mods @ [m]) [] (modules app)"

fun sdk_STMRunner :: "'a \<times> int \<times> int \<Rightarrow> 'a STMRunner" where
  "sdk_STMRunner (app, workers, perturbSeed) =
     (if perturbSeed = 0 then \<lparr>rn_app = app, rn_workers = workers, rn_perturb = None\<rparr>
      else \<lparr>rn_app = app, rn_workers = workers, rn_perturb = Some perturbSeed\<rparr>)"

definition sdkimpl_init ::
  "('x \<Rightarrow> 'mod list) \<Rightarrow> ('x, 'mod, 'x appAdapter, 'a \<times> int \<times> int, 'a STMRunner, 'w) hooks \<Rightarrow>
   ('x, 'mod, 'x appAdapter, 'a \<times> int \<times> int, 'a STMRunner, 'w) hooks go" where
  "sdkimpl_init modules h =
     go_bind (RegisterKeeperDiscovery (Some (discover_modules modules)) h) (\<lambda>h1.
     go_bind (RegisterAppWrapper (Some AppAdapter) h1) (\<lambda>h2.
     RegisterSTMRunnerFactory (Some sdk_STMRunner) h2))"

text \<open>The two methods that assert the type of what they forward: a nil interface has none. The switches are
  those of the wrapped application.\<close>

definition adapter_SetLifecycleObserver :: "'o option \<Rightarrow> ('o, 'r) app_switches \<Rightarrow> ('o, 'r) app_switches go" where
  "adapter_SetLifecycleObserver obs app =
     (case obs of None \<Rightarrow> Panic ''interface conversion: interface is nil''
      | Some x \<Rightarrow> Ok (app\<lparr>as_observer := Some x\<rparr>))"

definition adapter_SetBlockSTMTxRunner :: "'r option \<Rightarrow> ('o, 'r) app_switches \<Rightarrow> ('o, 'r) app_switches go" where
  "adapter_SetBlockSTMTxRunner runner app =
     (case runner of None \<Rightarrow> Panic ''interface conversion: interface is nil''
      | Some r \<Rightarrow> Ok (app\<lparr>as_runner := Some r\<rparr>))"

section \<open>Builds\<close>

text \<open>The tags that select files. \<open>Enabled\<close> and \<open>CanaryEnabled\<close> read variables that \<open>init\<close> functions of
  tagged files set; without \<open>sdk_hooks\<close> the adapter is an empty package.\<close>

record build_tags =
  tag_sdk_hooks :: bool
  tag_simharness :: bool
  tag_canary :: bool

definition Enabled :: "build_tags \<Rightarrow> bool" where
  "Enabled tags = (let enabled = False in if tag_simharness tags then True else enabled)"

definition CanaryEnabled :: "build_tags \<Rightarrow> bool" where
  "CanaryEnabled tags = (let canaryEnabled = False in if tag_canary tags then True else canaryEnabled)"

definition program_hooks ::
  "build_tags \<Rightarrow> ('x \<Rightarrow> 'mod list) \<Rightarrow> ('x, 'mod, 'x appAdapter, 'a \<times> int \<times> int, 'a STMRunner, 'w) hooks go" where
  "program_hooks tags modules = (if tag_sdk_hooks tags then sdkimpl_init modules no_hooks else Ok no_hooks)"

section \<open>What the adapter registers\<close>

lemma discover_modules [simp]: "discover_modules modules = modules"
proof -
  have "foldl (\<lambda>mods m. mods @ [m]) acc xs = acc @ xs" for acc xs :: "'b list"
    by (induction xs arbitrary: acc) simp_all
  then show ?thesis by (simp add: fun_eq_iff discover_modules_def)
qed

lemma sdkimpl_init_no_hooks:
  "sdkimpl_init modules no_hooks = Ok (no_hooks\<lparr>keeperDiscoveryFn := Some modules, appWrapFn := Some AppAdapter,
     runnerFactory := Some sdk_STMRunner\<rparr>)"
  by (simp add: sdkimpl_init_def RegisterKeeperDiscovery_def RegisterAppWrapper_def RegisterSTMRunnerFactory_def no_hooks_def)

lemma adapted_hooks:
  assumes "sdkimpl_init modules no_hooks = Ok h"
  shows "DiscoverKeepers raw h = modules raw" "WrapApp raw h = Ok (AppAdapter raw)"
    "NewSTMRunner args h = Ok (sdk_STMRunner args)" "conflictInstaller h = None" "execStatsInstaller h = None"
proof -
  have h: "h = no_hooks\<lparr>keeperDiscoveryFn := Some modules, appWrapFn := Some AppAdapter, runnerFactory := Some sdk_STMRunner\<rparr>"
    using assms unfolding sdkimpl_init_no_hooks by simp
  show "DiscoverKeepers raw h = modules raw" "WrapApp raw h = Ok (AppAdapter raw)"
    "NewSTMRunner args h = Ok (sdk_STMRunner args)" "conflictInstaller h = None" "execStatsInstaller h = None"
    by (simp_all add: h DiscoverKeepers_def WrapApp_def NewSTMRunner_def no_hooks_def)
qed

text \<open>\<open>InstrumentApp\<close> never hands a nil observer to the adapter, so its type assertion holds.\<close>

lemma instrument_observer_not_nil:
  "op_Observer opts \<noteq> None \<Longrightarrow> no_panic (adapter_SetLifecycleObserver (op_Observer opts) app)"
  by (cases "op_Observer opts") (simp_all add: adapter_SetLifecycleObserver_def)

section \<open>The runners of the executors\<close>

lemma install_runner_adapted:
  assumes "sdkimpl_init modules no_hooks = Ok (ev_Hooks env)"
  shows "install_runner env app workers seed w =
    (Ok (), ev_InstrumentSTM env app (sdk_STMRunner (app, workers, seed)) w)"
  by (simp add: install_runner_def adapted_hooks [OF assms] st_bind_def st_lift_def st_modify_def)

text \<open>Without an installer a run reports neither hot keys nor a ratio.\<close>

lemma no_installer_reports_nothing:
  assumes "fixture_RunBlock fe b height (seqs, w) = (Ok r, seqs', w')"
    and "\<not> fe_ConflictInstaller fe" "\<not> fe_StatsInstaller fe"
  shows "r_HotKeys r = [] \<and> r_ExecutionRatio r = 0"
  using fixture_observed [OF assms(1)] assms(2,3) by (auto simp: AggregateHotKeys_def latest_def)

lemma fixture_results_bare:
  assumes "conflictInstaller (ev_Hooks env) = None" "execStatsInstaller (ev_Hooks env) = None"
    and "ex_RunBlock (fixture_Executor env pkg) b h e = (Ok r, e')"
  shows "r_HotKeys r = [] \<and> r_ExecutionRatio r = 0"
proof -
  obtain e0 cd w where e: "e = (e0, cd, w)" by (cases e)
  obtain ora prb where a: "fx_oracle e0 = Some ora" "fx_probe e0 = Some prb"
    using assms(3) e by (auto simp: fixture_Executor_def split: option.splits)
  let ?fe = "fixture_view env pkg (fx_keys e0) (fx_accountNums e0) (fx_oracleTrackers e0) cd ora prb"
  obtain seqs' w' where "fixture_RunBlock ?fe b h (fx_sequences e0, w) = (Ok r, seqs', w')"
    using assms(3) by (auto simp: fixture_Executor_def e a split: prod.splits)
  then show ?thesis
    by (rule no_installer_reports_nothing) (simp_all add: fixture_view_def assms)
qed

lemma block_runs_results:
  assumes "\<And>b h e r e'. ex_RunBlock ex b h e = (Ok r, e') \<Longrightarrow> P r"
  shows "list_all P (results (fst (block_runs ex s i bs e)))"
proof (induction bs arbitrary: i e)
  case (Cons b bs)
  obtain r e1 where r: "ex_RunBlock ex b (effective_height b i) e = (r, e1)" by fastforce
  obtain rs e2 where rs: "block_runs ex s (i + 1) bs e1 = (rs, e2)" by fastforce
  show ?case using Cons.IH [of "i + 1" e1] assms r rs by (cases r) (auto simp: results_def)
qed simp

lemma store_runs_results:
  assumes "\<And>b h e r e'. ex_RunBlock ex b h e = (Ok r, e') \<Longrightarrow> P r"
  shows "list_all P (results (fst (store_run ex s e)))"
proof -
  obtain res e1 where i: "h_init ex s e = (res, e1)" by fastforce
  show ?thesis
  proof (cases "res = Ok None")
    case True
    then have "fst (store_run ex s e) = fst (block_runs ex s 0 (iter_blocks (cs_Iter s (\<lambda>_. None))) e1)"
      using i by (simp add: store_run_def split: prod.split)
    then show ?thesis using block_runs_results [of ex P, OF assms] by simp
  next
    case False
    then have "fst (store_run ex s e) = []"
      using i by (cases res) (auto simp: store_run_def split: option.splits)
    then show ?thesis by simp
  qed
qed

lemma harness_results:
  assumes "\<And>b h e r e'. ex_RunBlock ex b h e = (Ok r, e') \<Longrightarrow> P r"
  shows "list_all P (results (harness_runs ex stores e))"
proof (induction stores arbitrary: e)
  case (Cons s stores)
  obtain rs e1 where r: "store_run ex s e = (rs, e1)" by fastforce
  have "list_all P (results (fst (store_run ex s e)))" by (rule store_runs_results) (rule assms)
  then show ?case using Cons.IH [of e1] r by simp
qed simp

lemma max_ratio_zero: "list_all (\<lambda>r. r_ExecutionRatio r = 0) rs \<Longrightarrow> max_ratio rs = 0"
  unfolding max_ratio_def by (induction rs) simp_all

lemma outcome_result:
  assumes "outcome_of cfg tot c o1"
  shows "\<exists>x \<in> set (results [c]). bo_HotKeys o1 = reported_hot_keys cfg (r_HotKeys x) \<and> bo_ExecutionRatio o1 = r_ExecutionRatio x"
proof -
  obtain s b h e r where c: "c = (s, b, h, e, r)" by (cases c)
  then obtain x where "r = Ok x" and o1: "o1 = block_outcome cfg tot (cs_Name s) (cs_IsCanary s) (bo_Index o1) x"
    using assms by (auto simp: outcome_of_def)
  moreover have "bo_HotKeys o1 = reported_hot_keys cfg (r_HotKeys x)" "bo_ExecutionRatio o1 = r_ExecutionRatio x"
    by (subst o1, simp add: block_outcome_def)+
  ultimately show ?thesis using c by (simp add: results_def)
qed

lemma results_member: "c \<in> set runs \<Longrightarrow> set (results [c]) \<subseteq> set (results runs)"
  by (auto simp: results_def)

lemma outcome_in_results:
  assumes "outcomes_of cfg tot runs outs" "o1 \<in> set outs"
  shows "\<exists>x \<in> set (results runs). bo_HotKeys o1 = reported_hot_keys cfg (r_HotKeys x) \<and> bo_ExecutionRatio o1 = r_ExecutionRatio x"
proof -
  obtain c where c: "c \<in> set (filter run_ok runs)" "outcome_of cfg tot c o1"
    using outcome_block [OF assms(1) [unfolded outcomes_of_def] assms(2)] by blast
  have "c \<in> set runs" using c(1) by simp
  then have "set (results [c]) \<subseteq> set (results runs)" by (rule results_member)
  then show ?thesis using outcome_result [OF c(2)] by blast
qed

lemma program_installers:
  assumes "program_hooks tags modules = Ok h"
  shows "conflictInstaller h = None" "execStatsInstaller h = None"
proof -
  have "sdkimpl_init modules no_hooks = Ok h \<or> h = no_hooks" using assms by (auto simp: program_hooks_def split: if_splits)
  then show "conflictInstaller h = None" "execStatsInstaller h = None"
    using adapted_hooks(4,5) [of modules h] by (auto simp: no_hooks_def)
qed

section \<open>Properties\<close>

text \<open>The wiring of a build. With SDK hooks the adapter's \<open>init\<close> registers the discovery of all modules, the
  wrapper and the runner factory, whose runners are perturbed exactly when the seed is not 0; running it a second
  time panics. It registers no installer, so observers of conflicts and of execution statistics are never
  installed. Without SDK hooks wrapping an application or making a runner panics.\<close>

theorem sdk_build_wiring:
  fixes modules :: "'x \<Rightarrow> 'mod list" and app :: 'a and w :: 'w
  shows "\<exists>h. program_hooks tags modules = Ok h \<and>
     (if tag_sdk_hooks tags
      then DiscoverKeepers raw h = modules raw \<and> WrapApp raw h = Ok (AppAdapter raw) \<and>
        NewSTMRunner (app, workers, seed) h =
          Ok \<lparr>rn_app = app, rn_workers = workers, rn_perturb = (if seed = 0 then None else Some seed)\<rparr> \<and>
        \<not> no_panic (sdkimpl_init modules h)
      else DiscoverKeepers raw h = [] \<and> \<not> no_panic (WrapApp raw h) \<and> \<not> no_panic (NewSTMRunner (app, workers, seed) h)) \<and>
     InstallConflictObserver h f w = w \<and> InstallExecStatsObserver h g w = w"
proof (cases "tag_sdk_hooks tags")
  case True
  obtain h :: "('x, 'mod, 'x appAdapter, 'a \<times> int \<times> int, 'a STMRunner, 'w) hooks"
    where h: "sdkimpl_init modules no_hooks = Ok h" by (simp add: sdkimpl_init_no_hooks)
  have "keeperDiscoveryFn h \<noteq> None" using h unfolding sdkimpl_init_no_hooks by auto
  then have again: "\<not> no_panic (sdkimpl_init modules h)" by (simp add: sdkimpl_init_def RegisterKeeperDiscovery_def)
  show ?thesis
    by (rule exI [of _ h])
      (simp add: program_hooks_def True h again adapted_hooks [OF h] InstallConflictObserver_def InstallExecStatsObserver_def)
next
  case False
  then show ?thesis
    by (simp add: program_hooks_def no_hooks_def WrapApp_def NewSTMRunner_def DiscoverKeepers_def
        InstallConflictObserver_def InstallExecStatsObserver_def)
qed

text \<open>C22. In the build with SDK hooks no conflict and no execution statistics are ever seen: in every run of the
  harness with the fixture executor, whatever the probes report and whatever \<open>--hot-key-min-txs\<close> says, each
  outcome given to the reporter has no hot keys and ratio 0, and so has the summary.\<close>

theorem sdk_build_reports_no_hot_keys:
  assumes "program_hooks tags modules = Ok (ev_Hooks env)"
    and "RunHarness cfg (fixture_Executor env pkg) stores rep reg s r = Ok (code, st)" "list_all store_ok stores"
  shows "\<exists>outs sm. hs_rep st = rp_Footer rep sm (cf_FailOnDivergence cfg) (fold (rp_Block rep) outs
      (rp_Header rep (cf_CorpusDir cfg) (total_blocks stores) (cf_Probes cfg) r)) \<and>
    (\<forall>o1 \<in> set outs. bo_HotKeys o1 = [] \<and> bo_ExecutionRatio o1 = 0) \<and>
    sm_HotKeyBlocks sm = 0 \<and> sm_MaxExecRatio sm = 0"
proof -
  let ?ex = "fixture_Executor env pkg"
  let ?runs = "harness_runs ?ex stores (harness_start cfg ?ex s)"
  have none: "conflictInstaller (ev_Hooks env) = None" "execStatsInstaller (ev_Hooks env) = None"
    using program_installers [OF assms(1)] by simp_all
  have bare: "list_all (\<lambda>r. r_HotKeys r = [] \<and> r_ExecutionRatio r = 0) (results ?runs)"
    by (rule harness_results) (rule fixture_results_bare [OF none])
  obtain outs sm where outs: "hs_rep st = rp_Footer rep sm (cf_FailOnDivergence cfg) (fold (rp_Block rep) outs
      (rp_Header rep (cf_CorpusDir cfg) (total_blocks stores) (cf_Probes cfg) r))"
      "outcomes_of cfg (total_blocks stores) ?runs outs"
      "sm_HotKeyBlocks sm = count_where (\<lambda>b. bo_HotKeys b \<noteq> []) outs" "sm_MaxExecRatio sm = max_ratio (results ?runs)"
    by (rule harness_reported [OF assms(2,3) refl])
  have o1: "bo_HotKeys o1 = [] \<and> bo_ExecutionRatio o1 = 0" if "o1 \<in> set outs" for o1
    using outcome_in_results [OF outs(2) that] bare by (auto simp: list_all_iff reported_hot_keys_def)
  then have "sm_HotKeyBlocks sm = 0" using outs(3) by (simp add: count_where_def filter_empty_conv)
  moreover have "sm_MaxExecRatio sm = 0" unfolding outs(4) using bare by (intro max_ratio_zero) (simp add: list_all_iff)
  ultimately show ?thesis using outs(1) o1 by blast
qed

text \<open>C21. \<open>Init\<close> of the fixture executor in the build with SDK hooks: before the probe is set up the oracle gets
  an unperturbed runner, with one worker unless \<open>WithSTMOracle\<close> set another number; the probe gets a runner with
  four workers that is perturbed by the number drawn, unless that is 0; and the trackers are those of the oracle's
  modules that are not denied, after the ones the executor held.\<close>

theorem sdk_init_runners:
  assumes "program_hooks tags modules = Ok (ev_Hooks env)" "tag_sdk_hooks tags"
    and "fixture_Init env genesis (e, w) = (Ok (), e', w')"
  shows "\<exists>gs ora raw prb rawp w2 w4 seed w5. fx_oracle e' = Some ora \<and> fx_probe e' = Some prb \<and>
    setup_app env (fx_appFactory (bind_factory genesis e)) gs False ''setup probe app''
      (ev_InstrumentSTM env ora \<lparr>rn_app = ora, rn_workers = (if fx_oracleWorkers e = 0 then 1 else fx_oracleWorkers e),
         rn_perturb = None\<rparr> w2) = (Ok (prb, rawp), w4) \<and>
    ev_Int63 env w4 = (Ok seed, w5) \<and>
    w' = ev_InstrumentSTM env prb \<lparr>rn_app = prb, rn_workers = 4, rn_perturb = (if seed = 0 then None else Some seed)\<rparr> w5 \<and>
    fx_oracleTrackers e' = fx_oracleTrackers e @
      filter (\<lambda>t. \<not> ShouldSkipTracker (tk_Name t)) (map (ev_Tracker env) (modules raw))"
proof -
  have h: "sdkimpl_init modules no_hooks = Ok (ev_Hooks env)" using assms(1,2) by (simp add: program_hooks_def)
  obtain gs ora raw w3 prb rawp w4 seed w5 where o: "oracle_stages env genesis e w gs ora raw w3"
      and p: "setup_app env (fx_appFactory (bind_factory genesis e)) gs False ''setup probe app'' w3 = (Ok (prb, rawp), w4)"
        "ev_Int63 env w4 = (Ok seed, w5)" "install_runner env prb 4 seed w5 = (Ok (), w')"
      and e': "e' = (bind_factory genesis e)\<lparr>fx_oracleTrackers := fx_oracleTrackers e @ discovered_trackers env raw,
          fx_oracle := Some ora, fx_probe := Some prb, fx_keys := gn_keys gs,
          fx_accountNums := gn_accountNums gs, fx_sequences := gn_sequences gs\<rparr>"
    using assms(3) unfolding fixture_Init_Ok by blast
  obtain w2 where "install_runner env ora (if fx_oracleWorkers e = 0 then 1 else fx_oracleWorkers e) 0 w2 = (Ok (), w3)"
    using o unfolding oracle_stages_def by blast
  then have w3: "w3 = ev_InstrumentSTM env ora \<lparr>rn_app = ora, rn_workers = (if fx_oracleWorkers e = 0 then 1 else fx_oracleWorkers e),
         rn_perturb = None\<rparr> w2"
    by (simp add: install_runner_adapted [OF h])
  have w': "w' = ev_InstrumentSTM env prb \<lparr>rn_app = prb, rn_workers = 4, rn_perturb = (if seed = 0 then None else Some seed)\<rparr> w5"
    using p(3) by (auto simp: install_runner_adapted [OF h])
  have tr: "discovered_trackers env raw = filter (\<lambda>t. \<not> ShouldSkipTracker (tk_Name t)) (map (ev_Tracker env) (modules raw))"
    by (simp add: discovered_trackers_def adapted_hooks [OF h])
  have ap: "fx_oracle e' = Some ora" "fx_probe e' = Some prb"
      "fx_oracleTrackers e' = fx_oracleTrackers e @ discovered_trackers env raw"
    by (simp_all add: e')
  show ?thesis
    by (intro exI [of _ gs] exI [of _ ora] exI [of _ raw] exI [of _ prb] exI [of _ rawp] exI [of _ w2] exI [of _ w4]
        exI [of _ seed] exI [of _ w5] conjI) (use ap p w3 w' tr in simp_all)
qed

section \<open>An instance\<close>

text \<open>Applications that report a conflict and statistics, in an SDK build, with hot keys asked for.\<close>

definition noisy_app :: "nat App" where
  "noisy_app = \<lparr>ap_FinalizeBlock = (\<lambda>h txs w. (Ok \<lparr>rs_AppHash = [1], rs_TxResults = []\<rparr>,
       [AppConflict (example_conflict ''p''), AppStats \<lparr>es_BlockSize = 1, es_ExecutedTxns = 2, es_ValidatedTxns = 2\<rparr>])),
     ap_Commit = (\<lambda>w. (Ok (), w))\<rparr>"

definition noisy_pkg :: "(nat, nat appAdapter, string, nat, nat, nat list) FixturePkg" where
  "noisy_pkg = \<lparr>fp_App = (\<lambda>_. noisy_app), fp_Lib = fp_Lib quiet_pkg,
     fp_RawBuilders = Map.empty, fp_PackageBuilders = Map.empty, fp_Builders = Map.empty, fp_BlockCtx = None,
     fp_PreProbeSetup = None, fp_PostRunBlock = None, fp_NonDet = None\<rparr>"

definition sdk_env :: "(nat, nat appAdapter, nat, nat, nat appAdapter STMRunner, string, nat, unit) InitEnv" where
  "sdk_env = \<lparr>ev_Hooks = (case sdkimpl_init (\<lambda>raw. [raw]) no_hooks of Ok h \<Rightarrow> h | _ \<Rightarrow> no_hooks),
     ev_Derive = (\<lambda>name. name), ev_ParseCoins = (\<lambda>s. Ok (length s)), ev_ValidatorSet = (\<lambda>w. (Ok (), w)),
     ev_Int63 = (\<lambda>w. (Ok 7, w)), ev_PreOracleSetup = None, ev_Setup = (\<lambda>gs outputs w. (Ok w, Suc w)),
     ev_InstrumentSTM = (\<lambda>_ _ w. w), ev_Unset = (\<lambda>_ w. w),
     ev_Tracker = (\<lambda>k. \<lparr>tk_Name = ''bank'', tk_Snapshot = (\<lambda>_. [of_nat k]), tk_Setter = None\<rparr>)\<rparr>"

definition noisy_config :: Config where
  "noisy_config = demo_config\<lparr>cf_HotKeyMinTxs := 1\<rparr>"

definition noisy_run :: "(int \<times> ((nat, nat appAdapter, nat, string) fixture_state, JSONReporter) harness) go" where
  "noisy_run = RunHarness noisy_config (fixture_Executor sdk_env noisy_pkg) [quiet_store]
     (json_Reporter (\<lambda>_. '''')) [] (NewFixtureExecutor [], False, 0) NewJSON"

lemma noisy_run_returns: "(case noisy_run of Ok (code, st) \<Rightarrow> code = 0 | _ \<Rightarrow> False)"
  by code_simp

theorem sdk_build_reports_no_hot_keys_witness:
  "\<exists>st outs sm. noisy_run = Ok (0, st) \<and>
     hs_rep st = rp_Footer (json_Reporter (\<lambda>_. '''')) sm True (fold (rp_Block (json_Reporter (\<lambda>_. ''''))) outs
       (rp_Header (json_Reporter (\<lambda>_. '''')) ''fixtures'' (total_blocks [quiet_store]) 1 NewJSON)) \<and>
     sm_HotKeyBlocks sm = 0"
proof -
  obtain st where run: "noisy_run = Ok (0, st)"
    using noisy_run_returns by (auto split: go.splits prod.splits)
  have ok: "list_all store_ok [quiet_store]"
    using fixture_corpus.corpus_store_ok by (simp add: quiet_store_def)
  have hooks: "program_hooks \<lparr>tag_sdk_hooks = True, tag_simharness = False, tag_canary = False\<rparr> (\<lambda>raw. [raw]) = Ok (ev_Hooks sdk_env)"
    by (simp add: program_hooks_def sdk_env_def sdkimpl_init_no_hooks)
  from sdk_build_reports_no_hot_keys [OF hooks run [unfolded noisy_run_def] ok] run show ?thesis
    by (simp add: noisy_config_def demo_config_def) blast
qed

lemma sdk_env_initialises:
  "(case fixture_Init sdk_env example_genesis (NewFixtureExecutor [], 0) of (Ok _, e, w) \<Rightarrow> True | _ \<Rightarrow> False)"
  by code_simp

theorem sdk_init_runners_witness:
  "\<exists>e ora. fst (snd (fixture_Init sdk_env example_genesis (NewFixtureExecutor [], 0))) = e \<and> fx_oracle e = Some ora \<and>
     length (fx_oracleTrackers e) = 1"
proof -
  obtain e w where i: "fixture_Init sdk_env example_genesis (NewFixtureExecutor [], 0) = (Ok (), e, w)"
    using sdk_env_initialises
    by (cases "fst (fixture_Init sdk_env example_genesis (NewFixtureExecutor [], 0))") (auto split: go.splits prod.splits)
  have hooks: "program_hooks \<lparr>tag_sdk_hooks = True, tag_simharness = False, tag_canary = False\<rparr> (\<lambda>raw. [raw]) = Ok (ev_Hooks sdk_env)"
    by (simp add: program_hooks_def sdk_env_def sdkimpl_init_no_hooks)
  have bank: "\<not> ShouldSkipTracker ''bank''" by code_simp
  have tr: "tk_Name (ev_Tracker sdk_env raw) = ''bank''" for raw by (simp add: sdk_env_def)
  have e0: "fx_oracleTrackers (NewFixtureExecutor []) = []" by (simp add: NewFixtureExecutor_def NewFixtureState_def)
  from sdk_init_runners [OF hooks _ i] obtain ora raw where "fx_oracle e = Some ora"
      "fx_oracleTrackers e = filter (\<lambda>t. \<not> ShouldSkipTracker (tk_Name t)) (map (ev_Tracker sdk_env) [raw])"
    unfolding e0 by auto
  then show ?thesis using i bank tr by simp
qed

end
