(* ===== verification/Canary_Wiring.thy ===== *)
theory Canary_Wiring
  imports Descriptor Sdk_Adapter
begin

text \<open>
  How the canary module gets into a program: the package variables of \<open>run/executor.go\<close> that \<open>init\<close> functions
  extend, \<open>buildAppConfig\<close>, the \<open>init\<close> of \<open>run/executor_canary.go\<close>, which only a build with the tags
  \<open>sdk_hooks\<close> and \<open>simharness_canary\<close> has, \<open>RegisterInterfaces\<close> of \<open>x/simcanary/types/codec.go\<close> and the
  constants of \<open>x/simcanary/module.go\<close>. Module options and outputs are given by name; depinject fills the outputs.
\<close>

section \<open>The package variables\<close>

record ('w, 'k, 'm) RunVars =
  extraModuleOpts :: "string list"
  extraTxBuilders :: "('k, 'm) builders"
  extraOracleOutputs :: "string list"
  extraOracleBlockCtxTracker :: "(int \<Rightarrow> 'w \<Rightarrow> ('w MutationTracker \<times> ('w \<Rightarrow> BlockContextMutation list)) \<times> 'w) option"
  extraPreOracleSetup :: "('w \<Rightarrow> 'w) option"
  extraPreProbeSetup :: "('w \<Rightarrow> 'w) option"
  extraPostRunBlockHook :: "('w \<Rightarrow> 'w) option"

definition initial_vars :: "('w, 'k, 'm) RunVars" where
  "initial_vars = \<lparr>extraModuleOpts = [], extraTxBuilders = Map.empty, extraOracleOutputs = [],
     extraOracleBlockCtxTracker = None, extraPreOracleSetup = None, extraPreProbeSetup = None,
     extraPostRunBlockHook = None\<rparr>"

definition buildAppConfig :: "('w, 'k, 'm) RunVars \<Rightarrow> string list" where
  "buildAppConfig vars = [''auth'', ''bank'', ''staking'', ''mint'', ''distribution'', ''protocolpool'', ''consensus'', ''tx'']
     @ extraModuleOpts vars"

section \<open>The canary's \<open>init\<close>\<close>

text \<open>The variable \<open>oracleCanaryKeeper\<close> is nil or points to the oracle's keeper.\<close>

record canary_world =
  cw_hasKeeper :: bool
  cw_keeper :: Keeper

definition on_keeper :: "(Keeper \<Rightarrow> Keeper) \<Rightarrow> canary_world \<Rightarrow> canary_world" where
  "on_keeper f w = w\<lparr>cw_keeper := f (cw_keeper w)\<rparr>"

definition lift_tracker :: "Keeper MutationTracker \<Rightarrow> canary_world MutationTracker" where
  "lift_tracker t = \<lparr>tk_Name = tk_Name t, tk_Snapshot = (\<lambda>w. tk_Snapshot t (cw_keeper w)),
     tk_Setter = map_option (\<lambda>set_tx i. on_keeper (set_tx i)) (tk_Setter t)\<rparr>"

definition canary_ModuleName :: string where
  "canary_ModuleName = ''simcanary''"

definition oracle_block_ctx :: "int \<Rightarrow> canary_world \<Rightarrow>
   (canary_world MutationTracker \<times> (canary_world \<Rightarrow> BlockContextMutation list)) \<times> canary_world" where
  "oracle_block_ctx height w =
     (case canary_BlockCtxTracker (cw_hasKeeper w) height (cw_keeper w) of ((t, muts), k) \<Rightarrow>
        ((lift_tracker t, \<lambda>w. muts (cw_keeper w)), w\<lparr>cw_keeper := k\<rparr>))"

definition canary_init :: "('k \<Rightarrow> string) \<Rightarrow> (canary_world, 'k, canary_msg) RunVars \<Rightarrow> (canary_world, 'k, canary_msg) RunVars" where
  "canary_init addr vars = \<lparr>extraModuleOpts = extraModuleOpts vars @ [canary_ModuleName],
     extraTxBuilders = extraTxBuilders vars ++ canary_builders addr,
     extraOracleOutputs = extraOracleOutputs vars @ [''oracleCanaryKeeper''],
     extraOracleBlockCtxTracker = Some oracle_block_ctx,
     extraPreOracleSetup = Some (\<lambda>w. w\<lparr>cw_hasKeeper := False\<rparr>),
     extraPreProbeSetup = Some (on_keeper canary_PreProbeSetup),
     extraPostRunBlockHook = Some (on_keeper canary_PostRunBlock)\<rparr>"

definition run_vars :: "build_tags \<Rightarrow> ('k \<Rightarrow> string) \<Rightarrow> (canary_world, 'k, canary_msg) RunVars" where
  "run_vars tags addr =
     (if tag_sdk_hooks tags \<and> tag_canary tags then canary_init addr initial_vars else initial_vars)"

section \<open>The interface registry\<close>

text \<open>What \<open>RegisterInterfaces\<close> adds: the implementations of \<open>sdk.Msg\<close>, and the service with the
  types of its requests; both by the names of the message types.\<close>

record InterfaceRegistry =
  ir_Msgs :: "string list"
  ir_Services :: "string list"

definition canary_RegisterInterfaces :: "InterfaceRegistry \<Rightarrow> InterfaceRegistry" where
  "canary_RegisterInterfaces registry = registry\<lparr>
     ir_Msgs := ir_Msgs registry @ [''simcanary.v1.MsgCanaryMapSet'', ''simcanary.v1.MsgCanaryMapReadAndWrite'',
       ''simcanary.v1.MsgCanaryBlockContextSet'', ''simcanary.v1.MsgCanaryBlockContextRead''],
     ir_Services := ir_Services registry @ [''simcanary.v1.Msg'']\<rparr>"

section \<open>A build without the canary\<close>

definition canary_keys :: "string list" where
  "canary_keys = [''canary-map-set'', ''canary-map-read-write'', ''canary-ctx-write'', ''canary-ctx-read'']"

lemma canary_builders_dom: "dom (canary_builders addr) = set canary_keys"
  by (auto simp: canary_builders_def canary_keys_def split: if_splits)

lemma no_canary_builders:
  assumes "\<not> (tag_sdk_hooks tags \<and> tag_canary tags)"
  shows "mergedTxBuilders (extraTxBuilders (run_vars tags addr)) inst k = inst k"
  using assms by (auto simp: run_vars_def initial_vars_def mergedTxBuilders_def map_add_def split: option.split)

text \<open>A transaction whose message no builder knows cannot be built, and neither can a block with one.\<close>

lemma unknown_message_not_built:
  assumes "build_txs lib keys nums raw builders specs seqs = (r, seqs')" "spec \<in> set specs"
    and "tx_Msg spec \<noteq> ''bank-send''" "raw (tx_Msg spec) = None" "builders (tx_Msg spec) = None"
  shows "\<nexists>txs. r = Ok txs"
proof
  assume "\<exists>txs. r = Ok txs"
  then obtain txs where b: "build_txs lib keys nums raw builders specs seqs = (Ok txs, seqs')" using assms(1) by blast
  obtain i where i: "i < length specs" "specs ! i = spec" using assms(2) by (metis in_set_conv_nth)
  have "signed_with lib keys nums builders spec (advanced raw (take i specs) seqs (tx_Signer spec)) (txs ! i)"
    using build_txs_Ok [OF b] i assms(4) by (auto split: option.splits)
  then show False using assms(3,5) by (simp add: signed_with_def tx_msgs_def)
qed

definition has_canary_tx :: "BlockSpec \<Rightarrow> bool" where
  "has_canary_tx b \<longleftrightarrow> (\<exists>spec \<in> set (bl_Txs b). tx_Msg spec \<in> set canary_keys)"

definition no_instance_builders :: "('w, 'a, 'k, 'd, 'm, 't) FixturePkg \<Rightarrow> bool" where
  "no_instance_builders pkg \<longleftrightarrow> (\<forall>k \<in> set canary_keys. fp_Builders pkg k = None \<and> fp_RawBuilders pkg k = None)"

lemma canary_block_fails:
  assumes "\<not> (tag_sdk_hooks tags \<and> tag_canary tags)" "fp_PackageBuilders pkg = extraTxBuilders (run_vars tags addr)"
    and "no_instance_builders pkg" "has_canary_tx b"
  shows "\<not> (\<exists>r. fst (ex_RunBlock (fixture_Executor env pkg) b h e) = Ok r)"
proof
  assume "\<exists>r. fst (ex_RunBlock (fixture_Executor env pkg) b h e) = Ok r"
  then obtain r e' where run: "ex_RunBlock (fixture_Executor env pkg) b h e = (Ok r, e')" by (metis prod.collapse)
  obtain e0 cd w where e: "e = (e0, cd, w)" by (cases e)
  obtain ora prb where a: "fx_oracle e0 = Some ora" "fx_probe e0 = Some prb"
    using run e by (auto simp: fixture_Executor_def split: option.splits)
  let ?fe = "fixture_view env pkg (fx_keys e0) (fx_accountNums e0) (fx_oracleTrackers e0) cd ora prb"
  obtain seqs' w' where "fixture_RunBlock ?fe b h (fx_sequences e0, w) = (Ok r, seqs', w')"
    using run by (auto simp: fixture_Executor_def e a split: prod.splits)
  then obtain built where b: "fe_build ?fe b (fx_sequences e0) = (Ok built, seqs')" by (rule fixture_Ok)
  obtain spec where s: "spec \<in> set (bl_Txs b)" "tx_Msg spec \<in> set canary_keys"
    using assms(4) by (auto simp: has_canary_tx_def)
  have inst: "fp_Builders pkg (tx_Msg spec) = None" "fp_RawBuilders pkg (tx_Msg spec) = None"
    using assms(3) s(2) by (simp_all add: no_instance_builders_def)
  have "tx_Msg spec \<noteq> ''bank-send''" using s(2) by (auto simp: canary_keys_def)
  moreover have "mergedTxBuilders (fe_PackageBuilders ?fe) (fe_Builders ?fe) (tx_Msg spec) = None"
    using inst(1) by (simp add: fixture_view_def assms(2) no_canary_builders [OF assms(1)])
  moreover have "fe_RawBuilders ?fe (tx_Msg spec) = None" using inst(2) by (simp add: fixture_view_def)
  ultimately show False using unknown_message_not_built [OF b s(1)] by blast
qed

lemma runs_come_from_stores:
  "c \<in> set (harness_runs ex stores e) \<Longrightarrow> run_block c \<in> set (concat (map store_blocks stores))"
proof (induction stores arbitrary: e)
  case (Cons s stores)
  obtain rs e1 where r: "store_run ex s e = (rs, e1)" by fastforce
  have "run_block d \<in> set (store_blocks s)" if d: "d \<in> set rs" for d
  proof -
    obtain e2 where "d \<in> set (fst (block_runs ex s 0 (iter_blocks (cs_Iter s (\<lambda>_. None))) e2))"
      by (rule store_run_member [OF r d])
    then have "run_block d \<in> set (map run_block (fst (block_runs ex s 0 (iter_blocks (cs_Iter s (\<lambda>_. None))) e2)))"
      by simp
    then show ?thesis unfolding block_runs_blocks by (simp add: store_blocks_def)
  qed
  moreover have "c \<in> set rs \<or> c \<in> set (harness_runs ex stores e1)" using Cons.prems r by simp
  ultimately show ?case using Cons.IH [of e1] by (metis UnCI concat.simps(2) list.simps(9) set_append)
qed simp

lemma runs_are_runs:
  "c \<in> set (fst (block_runs ex s i bs e)) \<Longrightarrow> \<exists>b h e0 r. c = (s, b, h, e0, r) \<and> fst (ex_RunBlock ex b h e0) = r"
proof (induction bs arbitrary: i e)
  case (Cons b bs)
  obtain r e1 where r: "ex_RunBlock ex b (effective_height b i) e = (r, e1)" by fastforce
  obtain rs e2 where rs: "block_runs ex s (i + 1) bs e1 = (rs, e2)" by fastforce
  have "c = (s, b, effective_height b i, e, r) \<or> c \<in> set (fst (block_runs ex s (i + 1) bs e1))"
    using Cons.prems r rs by simp
  then show ?case using Cons.IH [of "i + 1" e1] r by (metis fst_conv)
qed simp

lemma harness_runs_are_runs:
  "c \<in> set (harness_runs ex stores e) \<Longrightarrow> \<exists>s b h e0 r. c = (s, b, h, e0, r) \<and> fst (ex_RunBlock ex b h e0) = r"
proof (induction stores arbitrary: e)
  case (Cons s stores)
  obtain rs e1 where r: "store_run ex s e = (rs, e1)" by fastforce
  show ?case
  proof (cases "c \<in> set rs")
    case True
    obtain e2 where "c \<in> set (fst (block_runs ex s 0 (iter_blocks (cs_Iter s (\<lambda>_. None))) e2))"
      by (rule store_run_member [OF r True])
    from runs_are_runs [OF this] show ?thesis by auto
  next
    case False
    then show ?thesis using Cons.IH [of e1] Cons.prems r by auto
  qed
qed simp

section \<open>Properties\<close>

text \<open>C23. A corpus of canary blocks in a build that lacks one of the canary's tags passes: no builder knows the
  canary messages, so no block can be built, none is reported, and the exit code is 0 whatever
  \<open>FailOnDivergence\<close> says; only the error output shows that blocks did not run.\<close>

theorem canary_corpus_needs_tag:
  assumes "\<not> (tag_sdk_hooks tags \<and> tag_canary tags)" "fp_PackageBuilders pkg = extraTxBuilders (run_vars tags addr)"
    and "no_instance_builders pkg" "\<forall>(s, b) \<in> set (concat (map store_blocks stores)). has_canary_tx b"
    and "RunHarness cfg (fixture_Executor env pkg) stores rep reg e r = Ok (code, st)" "list_all store_ok stores"
  shows "code = 0 \<and>
    (\<exists>sm. hs_rep st = rp_Footer rep sm (cf_FailOnDivergence cfg)
       (rp_Header rep (cf_CorpusDir cfg) (total_blocks stores) (cf_Probes cfg) r)) \<and>
    (hs_errOut st \<noteq> [] \<or> concat (map store_blocks stores) = [])"
proof -
  let ?ex = "fixture_Executor env pkg"
  let ?runs = "harness_runs ?ex stores (harness_start cfg ?ex e)"
  have fail: "\<not> run_ok c" if "c \<in> set ?runs" for c
  proof -
    from harness_runs_are_runs [OF that] obtain s b h e0 q where
        c: "c = (s, b, h, e0, q)" "fst (ex_RunBlock ?ex b h e0) = q" by blast
    have "(s, b) \<in> set (concat (map store_blocks stores))"
      using runs_come_from_stores [OF that] by (simp add: c run_block_def)
    then have "has_canary_tx b" using assms(4) by blast
    then show ?thesis
      using canary_block_fails [OF assms(1-3), of b env h e0] c by (auto simp: run_ok_def split: go.splits)
  qed
  obtain outs sm where outs: "hs_rep st = rp_Footer rep sm (cf_FailOnDivergence cfg) (fold (rp_Block rep) outs
      (rp_Header rep (cf_CorpusDir cfg) (total_blocks stores) (cf_Probes cfg) r))"
      "outcomes_of cfg (total_blocks stores) ?runs outs"
      "hs_errOut st \<noteq> [] \<or> list_all run_ok ?runs \<and> map run_block ?runs = concat (map store_blocks stores)"
      "code = (if run_failed (cf_FailOnDivergence cfg) outs then 1 else 0)"
    by (rule harness_reported [OF assms(5,6) refl])
  have "filter run_ok ?runs = []" using fail by (simp add: filter_empty_conv)
  then have "outs = []" using outs(2) by (simp add: outcomes_of_def)
  moreover have "?runs = []" if "list_all run_ok ?runs" using that fail by (cases ?runs) auto
  ultimately show ?thesis using outs(1,3,4) by (auto simp: run_failed_def)
qed

text \<open>The canary's tables agree: the messages registered as \<open>sdk.Msg\<close> are the request types of the service's
  methods in the file descriptor, in order, and all are messages of the descriptor; the keys registered for
  coverage are exactly the keys with a builder, each naming a method of the service and the request type of that
  method; the registry of a build is well-formed.\<close>

theorem canary_tables_agree:
  "map (\<lambda>n. CHR ''.'' # n) (ir_Msgs (canary_RegisterInterfaces \<lparr>ir_Msgs = [], ir_Services = []\<rparr>)) =
     map mt_InputType (fd_Methods canary_file) \<and>
   set (ir_Msgs (canary_RegisterInterfaces \<lparr>ir_Msgs = [], ir_Services = []\<rparr>)) \<subseteq>
     (\<lambda>d. fd_Package canary_file @ ''.'' @ ds_Name d) ` set (fd_MessageType canary_file) \<and>
   set (map en_Key canary_entries) = dom (extraTxBuilders (canary_init addr initial_vars)) \<and>
   map (\<lambda>e. (en_HandlerFn e, ''.simcanary.v1.'' @ en_MsgType e)) canary_entries =
     map (\<lambda>d. (mt_Name d, mt_InputType d)) (fd_Methods canary_file) \<and>
   registry_ok initial_registry"
proof (intro conjI)
  show "set (map en_Key canary_entries) = dom (extraTxBuilders (canary_init addr initial_vars))"
    by (simp add: canary_init_def initial_vars_def canary_builders_dom canary_keys_def canary_entries_def canary_entry_def)
qed (simp_all add: canary_RegisterInterfaces_def canary_file_def service_method_def msgDescriptor_def
    msgDescriptorWithOpts_def canary_entries_def canary_entry_def canary_registry_consistent)

section \<open>An instance\<close>

text \<open>A canary fixture of one block, run in a build with SDK hooks but without the canary.\<close>

definition plain_tags :: build_tags where
  "plain_tags = \<lparr>tag_sdk_hooks = True, tag_simharness = False, tag_canary = False\<rparr>"

definition plain_pkg :: "(nat, nat, string, nat, canary_msg, canary_msg list) FixturePkg" where
  "plain_pkg = \<lparr>fp_App = (\<lambda>_. quiet_app),
     fp_Lib = \<lparr>tl_ParseCoins = (\<lambda>s. Ok (length s)), tl_MsgSend = (\<lambda>a b c. CBlockContextRead \<lparr>br_Sender = a, br_Field = b\<rparr>),
       tl_GenSigned = (\<lambda>ms gas num s k. Ok ms), tl_Encode = (\<lambda>t. Ok [])\<rparr>,
     fp_RawBuilders = Map.empty, fp_PackageBuilders = extraTxBuilders (run_vars plain_tags (\<lambda>k. k)),
     fp_Builders = Map.empty, fp_BlockCtx = None, fp_PreProbeSetup = None, fp_PostRunBlock = None, fp_NonDet = None\<rparr>"

definition canary_block :: BlockSpec where
  "canary_block = zero_block\<lparr>bl_Txs := [(example_send ''bob'')\<lparr>tx_Msg := ''canary-map-set''\<rparr>]\<rparr>"

definition canary_store :: CorpusStore where
  "canary_store = NewFixtureCorpus \<lparr>fx_Name = ''canary'', fx_Description = '''', fx_Kind = KindCanary,
     fx_Genesis = example_genesis, fx_Blocks = [canary_block]\<rparr>"

definition plain_run :: "(int \<times> ((nat, nat, nat, string) fixture_state, JSONReporter) harness) go" where
  "plain_run = RunHarness demo_config (fixture_Executor (example_env True) plain_pkg) [canary_store]
     (json_Reporter (\<lambda>_. '''')) [] (NewFixtureExecutor [], False, 0) NewJSON"

lemma plain_run_returns: "(case plain_run of Ok (code, st) \<Rightarrow> True | _ \<Rightarrow> False)"
  by code_simp

theorem canary_corpus_needs_tag_witness:
  "\<exists>st. plain_run = Ok (0, st) \<and> hs_errOut st \<noteq> []"
proof -
  obtain code st where run: "plain_run = Ok (code, st)"
    using plain_run_returns by (auto split: go.splits prod.splits)
  have ok: "list_all store_ok [canary_store]"
    using fixture_corpus.corpus_store_ok by (simp add: canary_store_def)
  have tags: "\<not> (tag_sdk_hooks plain_tags \<and> tag_canary plain_tags)" by (simp add: plain_tags_def)
  have pkg: "fp_PackageBuilders plain_pkg = extraTxBuilders (run_vars plain_tags (\<lambda>k. k))" "no_instance_builders plain_pkg"
    by (simp_all add: plain_pkg_def no_instance_builders_def)
  have blocks: "concat (map store_blocks [canary_store]) = [(canary_store, canary_block)]"
    by (simp add: store_blocks_def canary_store_def NewFixtureCorpus_def)
  have "\<forall>(s, b) \<in> set (concat (map store_blocks [canary_store])). has_canary_tx b"
    unfolding blocks by (simp add: has_canary_tx_def canary_block_def canary_keys_def)
  from canary_corpus_needs_tag [OF tags pkg this run [unfolded plain_run_def] ok] show ?thesis
    using run blocks by auto
qed

end
