(* ===== verification/Canary_App.thy ===== *)
theory Canary_App
  imports Canary_Wiring
begin

text \<open>
  \<open>x/simcanary/module.go\<close>: the application module around the keeper, what depinject gets from \<open>ProvideModule\<close>
  and what \<open>RegisterServices\<close> registers, over a heap of keepers. And the methods of the message types
  that do not touch the wire (\<open>Reset\<close>, \<open>Descriptor\<close>, \<open>String\<close>), the types without fields with their wire methods, and
  the registration of the types: \<open>x/simcanary/types/msgs.go\<close> and \<open>module_config.go\<close>.
\<close>

section \<open>Message types\<close>

text \<open>\<open>Descriptor\<close> returns the bytes of the file descriptor with the path of the message in it.\<close>

record 'm proto_methods =
  pm_Reset :: "'m \<Rightarrow> 'm"
  pm_Descriptor :: "bytes \<Rightarrow> bytes \<times> nat list"
  pm_String :: "'m \<Rightarrow> string"

definition MapSet_methods :: "MsgCanaryMapSet proto_methods" where
  "MapSet_methods = \<lparr>pm_Reset = (\<lambda>m. m), pm_Descriptor = (\<lambda>fd. (fd, [0])),
     pm_String = (\<lambda>m. ''MsgCanaryMapSet{sender:'' @ ms_Sender m @ '', key:'' @ ms_Key m @ '', value:'' @
       itoa (sint (ms_Value m)) @ ''}'')\<rparr>"

definition MapSetResponse_methods :: "unit proto_methods" where
  "MapSetResponse_methods = \<lparr>pm_Reset = (\<lambda>m. m), pm_Descriptor = (\<lambda>fd. (fd, [1])),
     pm_String = (\<lambda>m. ''MsgCanaryMapSetResponse{}'')\<rparr>"

definition MapReadAndWrite_methods :: "MsgCanaryMapReadAndWrite proto_methods" where
  "MapReadAndWrite_methods = \<lparr>pm_Reset = (\<lambda>m. m), pm_Descriptor = (\<lambda>fd. (fd, [2])),
     pm_String = (\<lambda>m. ''MsgCanaryMapReadAndWrite{sender:'' @ rw_Sender m @ '', key:'' @ rw_Key m @ ''}'')\<rparr>"

definition MapReadAndWriteResponse_methods :: "MsgCanaryMapReadAndWriteResponse proto_methods" where
  "MapReadAndWriteResponse_methods = \<lparr>pm_Reset = (\<lambda>m. m), pm_Descriptor = (\<lambda>fd. (fd, [3])),
     pm_String = (\<lambda>m. ''MsgCanaryMapReadAndWriteResponse{observed_value:'' @ itoa (sint (rr_ObservedValue m)) @ ''}'')\<rparr>"

definition BlockContextSet_methods :: "MsgCanaryBlockContextSet proto_methods" where
  "BlockContextSet_methods = \<lparr>pm_Reset = (\<lambda>m. m), pm_Descriptor = (\<lambda>fd. (fd, [4])),
     pm_String = (\<lambda>m. ''MsgCanaryBlockContextSet{sender:'' @ bs_Sender m @ '', field:'' @ bs_Field m @ '', value:'' @
       bs_Value m @ ''}'')\<rparr>"

definition BlockContextSetResponse_methods :: "unit proto_methods" where
  "BlockContextSetResponse_methods = \<lparr>pm_Reset = (\<lambda>m. m), pm_Descriptor = (\<lambda>fd. (fd, [5])),
     pm_String = (\<lambda>m. ''MsgCanaryBlockContextSetResponse{}'')\<rparr>"

definition BlockContextRead_methods :: "MsgCanaryBlockContextRead proto_methods" where
  "BlockContextRead_methods = \<lparr>pm_Reset = (\<lambda>m. m), pm_Descriptor = (\<lambda>fd. (fd, [6])),
     pm_String = (\<lambda>m. ''MsgCanaryBlockContextRead{sender:'' @ br_Sender m @ '', field:'' @ br_Field m @ ''}'')\<rparr>"

definition BlockContextReadResponse_methods :: "MsgCanaryBlockContextReadResponse proto_methods" where
  "BlockContextReadResponse_methods = \<lparr>pm_Reset = (\<lambda>m. m), pm_Descriptor = (\<lambda>fd. (fd, [7])),
     pm_String = (\<lambda>m. ''MsgCanaryBlockContextReadResponse{value:'' @ rs_Value m @ ''}'')\<rparr>"

text \<open>The wire methods of a type without fields; a buffer that is not written stays as it is.\<close>

record wire_methods =
  wm_Marshal :: "bytes go"
  wm_MarshalTo :: "bytes \<Rightarrow> (bytes \<times> int) go"
  wm_MarshalToSizedBuffer :: "bytes \<Rightarrow> (bytes \<times> int) go"
  wm_Unmarshal :: "bytes \<Rightarrow> unit go"
  wm_Size :: int

definition MapSetResponse_wire :: wire_methods where
  "MapSetResponse_wire = \<lparr>wm_Marshal = Ok [], wm_MarshalTo = (\<lambda>dAtA. Ok (dAtA, 0)),
     wm_MarshalToSizedBuffer = (\<lambda>dAtA. Ok (dAtA, 0)), wm_Unmarshal = (\<lambda>dAtA. Ok ()), wm_Size = 0\<rparr>"

definition BlockContextSetResponse_wire :: wire_methods where
  "BlockContextSetResponse_wire = \<lparr>wm_Marshal = Ok [], wm_MarshalTo = (\<lambda>dAtA. Ok (dAtA, 0)),
     wm_MarshalToSizedBuffer = (\<lambda>dAtA. Ok (dAtA, 0)), wm_Unmarshal = (\<lambda>dAtA. Ok ()), wm_Size = 0\<rparr>"

definition Module_wire :: wire_methods where
  "Module_wire = \<lparr>wm_Marshal = Ok [], wm_MarshalTo = (\<lambda>dAtA. Ok (dAtA, 0)),
     wm_MarshalToSizedBuffer = (\<lambda>dAtA. Ok (dAtA, 0)), wm_Unmarshal = (\<lambda>dAtA. Ok ()), wm_Size = 0\<rparr>"

text \<open>The names that the types are registered with, in order, and the name of the module's configuration.\<close>

definition registered_types :: "string list" where
  "registered_types = [''simcanary.v1.MsgCanaryMapSet'', ''simcanary.v1.MsgCanaryMapSetResponse'',
     ''simcanary.v1.MsgCanaryMapReadAndWrite'', ''simcanary.v1.MsgCanaryMapReadAndWriteResponse'',
     ''simcanary.v1.MsgCanaryBlockContextSet'', ''simcanary.v1.MsgCanaryBlockContextSetResponse'',
     ''simcanary.v1.MsgCanaryBlockContextRead'', ''simcanary.v1.MsgCanaryBlockContextReadResponse'']"

definition moduleConfigProtoName :: string where
  "moduleConfigProtoName = ''simcanary.module.v1.Module''"

section \<open>The module\<close>

text \<open>A pointer to a keeper is its index in the heap.\<close>

record AppModule =
  am_keeper :: nat

record ModuleOutputs =
  mo_Module :: AppModule
  mo_Keeper :: nat

type_synonym services = "(string \<times> nat) list"

definition NewAppModule :: "nat \<Rightarrow> AppModule" where
  "NewAppModule k = \<lparr>am_keeper = k\<rparr>"

definition module_Name :: "AppModule \<Rightarrow> string" where
  "module_Name am = canary_ModuleName"

definition ConsensusVersion :: "AppModule \<Rightarrow> u64" where
  "ConsensusVersion am = 1"

definition module_RegisterInterfaces :: "AppModule \<Rightarrow> InterfaceRegistry \<Rightarrow> InterfaceRegistry" where
  "module_RegisterInterfaces am registry = canary_RegisterInterfaces registry"

text \<open>The message server is a pointer to its keeper; registering a service appends it.\<close>

definition NewMsgServer :: "nat \<Rightarrow> nat" where
  "NewMsgServer k = k"

definition RegisterMsgServer :: "services \<Rightarrow> nat \<Rightarrow> services" where
  "RegisterMsgServer s srv = s @ [(''simcanary.v1.Msg'', srv)]"

definition RegisterServices :: "AppModule \<Rightarrow> services \<Rightarrow> services" where
  "RegisterServices am cfg = RegisterMsgServer cfg (NewMsgServer (am_keeper am))"

definition ProvideModule :: "(bytes \<rightharpoonup> bytes) \<Rightarrow> Keeper list \<Rightarrow> ModuleOutputs \<times> Keeper list" where
  "ProvideModule store heap =
     (let k = length heap in (\<lparr>mo_Module = NewAppModule k, mo_Keeper = k\<rparr>, heap @ [NewKeeper store]))"

text \<open>A handler of the service on the server registered last under the service's name.\<close>

definition serve :: "services \<Rightarrow> (Keeper \<Rightarrow> (canary_response go \<times> Keeper) option) \<Rightarrow> Keeper list \<Rightarrow>
   (canary_response go \<times> Keeper list) option" where
  "serve s handler heap =
     (case map_of (rev s) ''simcanary.v1.Msg'' of
        None \<Rightarrow> None
      | Some p \<Rightarrow> map_option (\<lambda>(r, k). (r, heap[p := k])) (handler (heap ! p)))"

section \<open>Facts\<close>

lemma msg_server_keeps_writer: "kp_blockCtxWriter (snd (msg_server kv_set m k)) = kp_blockCtxWriter k"
  by (cases m) (auto simp: MapSet_def SetMapValue_def MapReadAndWrite_def WriteToStore_def Let_def BlockContextSet_def
      WriteBlockCtxField_def BlockContextRead_def ReadBlockCtxField_def split: go.splits prod.splits)

lemma read_without_writer:
  "\<not> kp_blockCtxWriter k \<Longrightarrow> msg_server kv_set (CBlockContextRead m) k = (Ok (RespBlockContextRead \<lparr>rs_Value = ''''\<rparr>), k)"
  by (simp add: BlockContextRead_def ReadBlockCtxField_def)

lemma serve_module:
  "serve (RegisterServices am s) handler heap =
     map_option (\<lambda>(r, k). (r, heap[am_keeper am := k])) (handler (heap ! am_keeper am))"
  by (simp add: serve_def RegisterServices_def RegisterMsgServer_def NewMsgServer_def)

text \<open>Calls of canary messages, each on the services of one application.\<close>

fun calls :: "kv_set \<Rightarrow> (services \<times> canary_msg) list \<Rightarrow> Keeper list \<Rightarrow> Keeper list" where
  "calls kv_set [] heap = heap"
| "calls kv_set ((s, m) # cs) heap =
     (case serve s (\<lambda>k. Some (msg_server kv_set m k)) heap of
        None \<Rightarrow> calls kv_set cs heap
      | Some (r, heap1) \<Rightarrow> calls kv_set cs heap1)"

lemma calls_module:
  "calls kv_set ((RegisterServices am s, m) # cs) heap =
     calls kv_set cs (heap[am_keeper am := snd (msg_server kv_set m (heap ! am_keeper am))])"
  by (simp add: serve_module split: prod.split)

lemma calls_keep:
  assumes "set (map fst cs) \<subseteq> (\<lambda>am. RegisterServices am []) ` mods"
  shows "length (calls kv_set cs heap) = length heap \<and>
    (p < length heap \<longrightarrow> kp_blockCtxWriter (calls kv_set cs heap ! p) = kp_blockCtxWriter (heap ! p)) \<and>
    (p \<notin> am_keeper ` mods \<longrightarrow> calls kv_set cs heap ! p = heap ! p)"
  using assms
proof (induction cs arbitrary: heap)
  case (Cons c cs)
  obtain am m where c: "c = (RegisterServices am [], m)" "am \<in> mods" using Cons.prems by (cases c) auto
  let ?heap1 = "heap[am_keeper am := snd (msg_server kv_set m (heap ! am_keeper am))]"
  have step: "calls kv_set (c # cs) heap = calls kv_set cs ?heap1" unfolding c(1) by (rule calls_module)
  have "kp_blockCtxWriter (?heap1 ! p) = kp_blockCtxWriter (heap ! p)" if "p < length heap"
    using that by (cases "am_keeper am = p") (simp_all add: msg_server_keeps_writer)
  moreover have "?heap1 ! p = heap ! p" if "p \<notin> am_keeper ` mods"     by (rule nth_list_update_neq) (use that c(2) in blast)
  ultimately show ?case unfolding step using Cons.IH [of ?heap1] Cons.prems by simp
qed simp

section \<open>Properties\<close>

text \<open>The canary's types have one identity: they are registered under the names of the messages of the file
  descriptor, in order; \<open>Descriptor\<close> of each gives the index of its message there and \<open>String\<close> starts with its name;
  and the types without fields, which write nothing, write what the descriptor prescribes.\<close>

theorem canary_types_identified:
  "registered_types = map (\<lambda>d. fd_Package canary_file @ ''.'' @ ds_Name d) (fd_MessageType canary_file) \<and>
   [pm_Descriptor MapSet_methods fd, pm_Descriptor MapSetResponse_methods fd, pm_Descriptor MapReadAndWrite_methods fd,
    pm_Descriptor MapReadAndWriteResponse_methods fd, pm_Descriptor BlockContextSet_methods fd,
    pm_Descriptor BlockContextSetResponse_methods fd, pm_Descriptor BlockContextRead_methods fd,
    pm_Descriptor BlockContextReadResponse_methods fd] =
     map (\<lambda>i. (fd, [i])) [0..<length (fd_MessageType canary_file)] \<and>
   map (takeWhile (\<lambda>c. c \<noteq> CHR ''{''))
     [pm_String MapSet_methods m0, pm_String MapSetResponse_methods m1, pm_String MapReadAndWrite_methods m2,
      pm_String MapReadAndWriteResponse_methods m3, pm_String BlockContextSet_methods m4,
      pm_String BlockContextSetResponse_methods m5, pm_String BlockContextRead_methods m6,
      pm_String BlockContextReadResponse_methods m7] = map ds_Name (fd_MessageType canary_file) \<and>
   wm_Marshal MapSetResponse_wire = Ok (proto_message ''MsgCanaryMapSetResponse'' []) \<and>
   wm_Marshal BlockContextSetResponse_wire = Ok (proto_message ''MsgCanaryBlockContextSetResponse'' [])"
proof (intro conjI)
  show "registered_types = map (\<lambda>d. fd_Package canary_file @ ''.'' @ ds_Name d) (fd_MessageType canary_file)"
    by code_simp
qed (simp_all add: canary_file_def msgDescriptor_def msgDescriptorWithOpts_def upt_rec MapSet_methods_def
    MapSetResponse_methods_def MapReadAndWrite_methods_def MapReadAndWriteResponse_methods_def BlockContextSet_methods_def
    BlockContextSetResponse_methods_def BlockContextRead_methods_def BlockContextReadResponse_methods_def
    MapSetResponse_wire_def BlockContextSetResponse_wire_def proto_message_def)

text \<open>\<open>Reset\<close> clears nothing, so decoding into a message that was reset, as protobuf's \<open>Unmarshal\<close> does, gives
  the encoded message exactly when the target had zero values wherever the encoded message has them: fields of
  an earlier message survive otherwise.\<close>

theorem reset_keeps_fields:
  assumes "MapSet_wf m"
  shows "\<exists>d. MapSet_Marshal m = Ok d \<and>
    (MapSet_Unmarshal d (pm_Reset MapSet_methods t) = Some (Ok m) \<longleftrightarrow>
       (ms_Sender m = '''' \<longrightarrow> ms_Sender t = '''') \<and> (ms_Key m = '''' \<longrightarrow> ms_Key t = '''') \<and>
       (ms_Value m = 0 \<longrightarrow> ms_Value t = 0))"
proof -
  have "MapSet_Unmarshal (MapSet_image m) (pm_Reset MapSet_methods t) = Some (Ok (MapSet_merge t m))"
    using MapSet_decode [OF assms] by (simp add: MapSet_methods_def)
  moreover have "MapSet_merge t m = m \<longleftrightarrow> (ms_Sender m = '''' \<longrightarrow> ms_Sender t = '''') \<and>
      (ms_Key m = '''' \<longrightarrow> ms_Key t = '''') \<and> (ms_Value m = 0 \<longrightarrow> ms_Value t = 0)"
    by (cases m; cases t) (auto simp: MapSet_merge_def or_old_def)
  ultimately show ?thesis by (simp add: MapSet_Marshal_def map_set_msg.marshal_ok)
qed

theorem reset_keeps_fields_witness:
  "\<exists>d. MapSet_Marshal \<lparr>ms_Sender = ''bob'', ms_Key = ''k'', ms_Value = 0\<rparr> = Ok d \<and>
     MapSet_Unmarshal d (pm_Reset MapSet_methods \<lparr>ms_Sender = ''alice'', ms_Key = ''x'', ms_Value = 7\<rparr>) \<noteq>
       Some (Ok \<lparr>ms_Sender = ''bob'', ms_Key = ''k'', ms_Value = 0\<rparr>)"
proof -
  have "MapSet_wf \<lparr>ms_Sender = ''bob'', ms_Key = ''k'', ms_Value = 0\<rparr>" by (simp add: MapSet_wf_def short_def)
  from reset_keeps_fields [OF this, of "\<lparr>ms_Sender = ''alice'', ms_Key = ''x'', ms_Value = 7\<rparr>"] show ?thesis by auto
qed

text \<open>C31. The keepers of the two applications. The service that a provided module registers works on the keeper that
  \<open>ProvideModule\<close> hands out, the one the executor's hooks get. When the oracle's hook gave its keeper the block's
  height, a read of the height answers it on the oracle, but whatever messages the two applications have
  handled in between, a read on the probe answers the empty string: the hook never reaches the probe's keeper.
  And messages handled by the probe alone leave the oracle's keeper as it was.\<close>

theorem probe_lacks_block_context:
  assumes "ProvideModule st heap0 = (oo, heap1)" "ProvideModule st' heap1 = (po, heap2)"
    and "ora = RegisterServices (mo_Module oo) []" "prb = RegisterServices (mo_Module po) []"
    and "heap = heap2[mo_Keeper oo := snd (canary_BlockCtxTracker True height (heap2 ! mo_Keeper oo))]"
    and "set (map fst cs) \<subseteq> {ora, prb}"
  shows "map_option fst (serve ora (\<lambda>k. Some (msg_server kv_set (CBlockContextRead \<lparr>br_Sender = a, br_Field = ''height''\<rparr>) k)) heap) =
      Some (Ok (RespBlockContextRead \<lparr>rs_Value = itoa height\<rparr>)) \<and>
    map_option fst (serve prb (\<lambda>k. Some (msg_server kv_set (CBlockContextRead q) k)) (calls kv_set cs heap)) =
      Some (Ok (RespBlockContextRead \<lparr>rs_Value = ''''\<rparr>)) \<and>
    (set (map fst cs) \<subseteq> {prb} \<longrightarrow> calls kv_set cs heap ! mo_Keeper oo = heap ! mo_Keeper oo)"
proof -
  let ?o = "length heap0" and ?p = "Suc (length heap0)"
  have oo: "am_keeper (mo_Module oo) = ?o" "mo_Keeper oo = ?o" and po: "am_keeper (mo_Module po) = ?p"
    and h2: "heap2 = heap0 @ [NewKeeper st, NewKeeper st']"
    using assms(1,2) by (auto simp: ProvideModule_def NewAppModule_def Let_def)
  have ho: "heap ! ?o = snd (canary_BlockCtxTracker True height (NewKeeper st))" and len: "length heap = Suc ?p"
    by (simp_all add: assms(5) oo h2 nth_append)
  have hp: "heap ! ?p = NewKeeper st'" by (simp add: assms(5) oo h2 nth_append)
  have "kp_blockCtxWriter (heap ! ?p) = False" by (simp add: hp NewKeeper_def)
  then have "\<not> kp_blockCtxWriter (calls kv_set cs heap ! ?p)"
    using calls_keep [of cs "{mo_Module oo, mo_Module po}" kv_set heap ?p] assms(3,4,6) len by auto
  then have "map_option fst (serve prb (\<lambda>k. Some (msg_server kv_set (CBlockContextRead q) k)) (calls kv_set cs heap)) =
      Some (Ok (RespBlockContextRead \<lparr>rs_Value = ''''\<rparr>))"
    using read_without_writer by (simp add: assms(4) serve_module po)
  moreover have "calls kv_set cs heap ! mo_Keeper oo = heap ! mo_Keeper oo" if "set (map fst cs) \<subseteq> {prb}"
    using calls_keep [of cs "{mo_Module po}" kv_set heap ?o] that by (simp add: assms(4) po oo)
  moreover have "map_option fst (serve ora (\<lambda>k. Some (msg_server kv_set (CBlockContextRead \<lparr>br_Sender = a, br_Field = ''height''\<rparr>) k)) heap) =
      Some (Ok (RespBlockContextRead \<lparr>rs_Value = itoa height\<rparr>))"
    by (simp add: assms(3) serve_module oo ho canary_BlockCtxTracker_def Let_def SetBlockContextWriter_def BlockContextRead_def
        ReadBlockCtxField_def ReadField_def bt_Reset_def)
  ultimately show ?thesis by blast
qed

theorem probe_lacks_block_context_witness:
  "\<exists>ora prb heap. map_option fst (serve ora (\<lambda>k. Some (msg_server (\<lambda>_ _. Ok ())
       (CBlockContextRead \<lparr>br_Sender = ''a'', br_Field = ''height''\<rparr>) k)) heap) = Some (Ok (RespBlockContextRead \<lparr>rs_Value = itoa 7\<rparr>)) \<and>
     map_option fst (serve prb (\<lambda>k. Some (msg_server (\<lambda>_ _. Ok ())
       (CBlockContextRead \<lparr>br_Sender = ''a'', br_Field = ''height''\<rparr>) k)) (calls (\<lambda>_ _. Ok ()) [] heap)) =
       Some (Ok (RespBlockContextRead \<lparr>rs_Value = ''''\<rparr>))"
proof -
  obtain oo heap1 po heap2 where
      "ProvideModule Map.empty [] = (oo, heap1)" "ProvideModule Map.empty heap1 = (po, heap2)" by fastforce
  from probe_lacks_block_context [OF this refl refl refl, of "[]" "\<lambda>_ _. Ok ()" "''a''" 7
      "\<lparr>br_Sender = ''a'', br_Field = ''height''\<rparr>"] show ?thesis by auto
qed

end
