(* ===== verification/Command_Line.thy ===== *)
theory Command_Line
  imports Commands Detect Lint
begin

text \<open>
  The command line of \<open>cmd/blockstm-sim/main.go\<close>: the commands with the flags that \<open>version\<close>, \<open>run\<close>, \<open>extract\<close>,
  \<open>detect\<close>, \<open>lint\<close> and \<open>snapshot prune\<close> declare, and the flags their \<open>RunE\<close> reads. Parsing is cobra's: \<open>given\<close>
  are the values of the flags that were set, each of the type its flag was declared with. A getter returns an
  error and the zero value for a flag that is not declared or has another type; the code ignores these errors.
\<close>

section \<open>Flags\<close>

datatype flag_val = FString string | FInt int | FInt64 int | FUint64 u64 | FBool bool | FStrings "string list"

datatype flag_type = TString | TInt | TInt64 | TUint64 | TBool | TStrings

fun type_of :: "flag_val \<Rightarrow> flag_type" where
  "type_of (FString s) = TString"
| "type_of (FInt n) = TInt"
| "type_of (FInt64 n) = TInt64"
| "type_of (FUint64 n) = TUint64"
| "type_of (FBool b) = TBool"
| "type_of (FStrings ss) = TStrings"

record flag =
  fl_name :: string
  fl_default :: flag_val
  fl_required :: bool

type_synonym given = "string \<rightharpoonup> flag_val"

definition opt :: "string \<Rightarrow> flag_val \<Rightarrow> flag" where
  "opt name d = \<lparr>fl_name = name, fl_default = d, fl_required = False\<rparr>"

definition req :: "string \<Rightarrow> flag_val \<Rightarrow> flag" where
  "req name d = \<lparr>fl_name = name, fl_default = d, fl_required = True\<rparr>"

definition get_flag :: "flag_type \<Rightarrow> flag list \<Rightarrow> given \<Rightarrow> string \<Rightarrow> flag_val option" where
  "get_flag ty flags given name =
     (case find (\<lambda>f. fl_name f = name) flags of
        None \<Rightarrow> None
      | Some f \<Rightarrow> (let v = (case given name of Some v \<Rightarrow> v | None \<Rightarrow> fl_default f)
                  in if type_of v = ty then Some v else None))"

definition GetString :: "flag list \<Rightarrow> given \<Rightarrow> string \<Rightarrow> string" where
  "GetString flags given name = (case get_flag TString flags given name of Some (FString s) \<Rightarrow> s | _ \<Rightarrow> '''')"

definition GetInt :: "flag list \<Rightarrow> given \<Rightarrow> string \<Rightarrow> int" where
  "GetInt flags given name = (case get_flag TInt flags given name of Some (FInt n) \<Rightarrow> n | _ \<Rightarrow> 0)"

definition GetInt64 :: "flag list \<Rightarrow> given \<Rightarrow> string \<Rightarrow> int" where
  "GetInt64 flags given name = (case get_flag TInt64 flags given name of Some (FInt64 n) \<Rightarrow> n | _ \<Rightarrow> 0)"

definition GetUint64 :: "flag list \<Rightarrow> given \<Rightarrow> string \<Rightarrow> u64" where
  "GetUint64 flags given name = (case get_flag TUint64 flags given name of Some (FUint64 n) \<Rightarrow> n | _ \<Rightarrow> 0)"

definition GetBool :: "flag list \<Rightarrow> given \<Rightarrow> string \<Rightarrow> bool" where
  "GetBool flags given name = (case get_flag TBool flags given name of Some (FBool b) \<Rightarrow> b | _ \<Rightarrow> False)"

definition GetStringSlice :: "flag list \<Rightarrow> given \<Rightarrow> string \<Rightarrow> string list" where
  "GetStringSlice flags given name = (case get_flag TStrings flags given name of Some (FStrings ss) \<Rightarrow> ss | _ \<Rightarrow> [])"

section \<open>What the commands declare\<close>

definition run_flags :: "flag list" where
  "run_flags = [opt ''corpus'' (FString ''fixtures''), opt ''probes'' (FInt 1), opt ''fail-on-divergence'' (FBool False),
     opt ''format'' (FString ''text''), opt ''hot-key-min-txs'' (FInt 2)]"

definition extract_flags :: "flag list" where
  "extract_flags = [req ''source'' (FString ''''), req ''out'' (FString ''''), req ''start'' (FInt64 0), req ''end'' (FInt64 0),
     req ''chain-id'' (FString ''''), req ''bond-denom'' (FString ''''), opt ''app-version'' (FUint64 0)]"

definition prune_flags :: "flag list" where
  "prune_flags = [req ''snapshot-dir'' (FString ''''), opt ''target-version'' (FInt64 (-1))]"

definition detect_flags :: "flag list" where
  "detect_flags = [opt ''sdk-path'' (FString ''../cosmos-sdk''), opt ''category'' (FString ''''), opt ''format'' (FString ''text''),
     opt ''exclude-path'' (FStrings [])]"

definition lint_flags :: "flag list" where
  "lint_flags = [opt ''sdk-path'' (FString ''.''), opt ''format'' (FString ''text''), opt ''kind'' (FString ''''),
     opt ''fail-on-findings'' (FBool False), opt ''exclude-path'' (FStrings [])]"

definition version_flags :: "flag list" where
  "version_flags = [opt ''long'' (FBool False), opt ''output'' (FString ''text'')]"

text \<open>The root command: its persistent flags, and its commands in the order they are added.\<close>

definition persistent_flags :: "flag list" where
  "persistent_flags = [opt ''record-dir'' (FString ''.run-records''), opt ''record-off'' (FBool False)]"

definition root_commands :: "(string \<times> flag list) list" where
  "root_commands = [(''version'', version_flags), (''run'', run_flags), (''extract'', extract_flags),
     (''detect'', detect_flags), (''lint'', lint_flags), (''snapshot prune'', prune_flags)]"

section \<open>What the commands read\<close>

definition run_reads :: "given \<Rightarrow> RunFlags" where
  "run_reads given = \<lparr>rf_corpus = GetString run_flags given ''corpus'', rf_probes = GetInt run_flags given ''probes'',
     rf_fail_on_divergence = GetBool run_flags given ''fail-on-divergence'',
     rf_format = GetString run_flags given ''format'', rf_hot_key_min_txs = GetInt run_flags given ''hot-key-min-txs''\<rparr>"

definition extract_reads :: "given \<Rightarrow> ExtractFlags" where
  "extract_reads given = \<lparr>xf_source = GetString extract_flags given ''source'', xf_out = GetString extract_flags given ''out'',
     xf_start = GetInt64 extract_flags given ''start'', xf_end = GetInt64 extract_flags given ''end'',
     xf_chain_id = GetString extract_flags given ''chain-id'', xf_bond_denom = GetString extract_flags given ''bond-denom'',
     xf_app_version = GetUint64 extract_flags given ''app-version''\<rparr>"

definition prune_reads :: "given \<Rightarrow> PruneFlags" where
  "prune_reads given = \<lparr>pf_snapshot_dir = GetString prune_flags given ''snapshot-dir'',
     pf_target_version = GetInt64 prune_flags given ''target-version''\<rparr>"

definition version_run :: "(Info \<Rightarrow> string go) \<Rightarrow> (Info \<Rightarrow> string go) \<Rightarrow> Info \<Rightarrow> given \<Rightarrow> string go" where
  "version_run json yaml info given =
     version_command json yaml info (GetBool version_flags given ''long'') (GetString version_flags given ''output'')"

text \<open>\<open>scan\<close> is the scanner on a path with excluded paths.\<close>

definition detect_run ::
  "((DetectFinding \<Rightarrow> DetectFinding \<Rightarrow> bool) \<Rightarrow> DetectFinding list \<Rightarrow> DetectFinding list) \<Rightarrow> (jsonDetectReport \<Rightarrow> string) \<Rightarrow>
   (string \<Rightarrow> string list \<Rightarrow> ScanResult \<times> go_error option) \<Rightarrow> given \<Rightarrow> string \<times> unit go" where
  "detect_run sort_slice encode scan given =
     (let sdkPath = GetString detect_flags given ''sdk-path''
      in detect_command sort_slice encode (scan sdkPath (GetStringSlice detect_flags given ''exclude-path'')) sdkPath
           (GetString detect_flags given ''category'') (GetString detect_flags given ''format''))"

definition lint_run ::
  "((LintFinding \<Rightarrow> LintFinding \<Rightarrow> bool) \<Rightarrow> LintFinding list \<Rightarrow> LintFinding list) \<Rightarrow> (LintResult \<Rightarrow> string) \<Rightarrow>
   (string \<Rightarrow> string list \<Rightarrow> LintResult \<times> go_error option) \<Rightarrow> given \<Rightarrow> string \<times> unit go" where
  "lint_run sort_slice encode scan given =
     (let sdkPath = GetString lint_flags given ''sdk-path''
      in lint_command sort_slice encode (scan sdkPath (GetStringSlice lint_flags given ''exclude-path'')) sdkPath
           (GetString lint_flags given ''format'') (GetString lint_flags given ''kind'')
           (GetBool lint_flags given ''fail-on-findings''))"

section \<open>Typed values\<close>

definition well_typed :: "flag list \<Rightarrow> given \<Rightarrow> bool" where
  "well_typed flags given =
     list_all (\<lambda>f. case given (fl_name f) of None \<Rightarrow> True | Some v \<Rightarrow> type_of v = type_of (fl_default f)) flags"

definition value_of :: "given \<Rightarrow> string \<Rightarrow> flag_val \<Rightarrow> flag_val" where
  "value_of given name d = (case given name of Some v \<Rightarrow> v | None \<Rightarrow> d)"

named_theorems flag_tables

declare run_flags_def [flag_tables] extract_flags_def [flag_tables] prune_flags_def [flag_tables]
  detect_flags_def [flag_tables] lint_flags_def [flag_tables] version_flags_def [flag_tables]

lemma get_flag_typed:
  assumes "well_typed flags given" "find (\<lambda>f. fl_name f = name) flags = Some f" "type_of (fl_default f) = ty"
  shows "get_flag ty flags given name = Some (value_of given name (fl_default f))"
    and "type_of (value_of given name (fl_default f)) = ty"
proof -
  have "f \<in> set flags" "fl_name f = name" using assms(2) by (auto simp: find_Some_iff)
  then have "type_of (value_of given name (fl_default f)) = ty"
    using assms(1,3) by (auto simp: well_typed_def list_all_iff value_of_def split: option.splits)
  then show "get_flag ty flags given name = Some (value_of given name (fl_default f))"
      "type_of (value_of given name (fl_default f)) = ty"
    using assms(2) by (simp_all add: get_flag_def value_of_def Let_def)
qed

lemma type_of_values:
  "type_of v = TString \<longleftrightarrow> (\<exists>s. v = FString s)" "type_of v = TInt \<longleftrightarrow> (\<exists>n. v = FInt n)"
  "type_of v = TInt64 \<longleftrightarrow> (\<exists>n. v = FInt64 n)" "type_of v = TUint64 \<longleftrightarrow> (\<exists>n. v = FUint64 n)"
  "type_of v = TBool \<longleftrightarrow> (\<exists>b. v = FBool b)" "type_of v = TStrings \<longleftrightarrow> (\<exists>ss. v = FStrings ss)"
  by (cases v; simp)+

text \<open>What a getter returns for a flag that is declared with the getter's type.\<close>

lemma getters_typed:
  assumes "well_typed flags given" "map_option fl_default (find (\<lambda>f. fl_name f = name) flags) = Some d"
  shows "type_of d = TString \<Longrightarrow> FString (GetString flags given name) = value_of given name d"
    and "type_of d = TInt \<Longrightarrow> FInt (GetInt flags given name) = value_of given name d"
    and "type_of d = TInt64 \<Longrightarrow> FInt64 (GetInt64 flags given name) = value_of given name d"
    and "type_of d = TUint64 \<Longrightarrow> FUint64 (GetUint64 flags given name) = value_of given name d"
    and "type_of d = TBool \<Longrightarrow> FBool (GetBool flags given name) = value_of given name d"
    and "type_of d = TStrings \<Longrightarrow> FStrings (GetStringSlice flags given name) = value_of given name d"
proof -
  obtain f where f: "find (\<lambda>f. fl_name f = name) flags = Some f" "fl_default f = d" using assms(2) by auto
  note typed = get_flag_typed [OF assms(1) f(1), unfolded f(2)]
  show "type_of d = TString \<Longrightarrow> FString (GetString flags given name) = value_of given name d"
    "type_of d = TInt \<Longrightarrow> FInt (GetInt flags given name) = value_of given name d"
    "type_of d = TInt64 \<Longrightarrow> FInt64 (GetInt64 flags given name) = value_of given name d"
    "type_of d = TUint64 \<Longrightarrow> FUint64 (GetUint64 flags given name) = value_of given name d"
    "type_of d = TBool \<Longrightarrow> FBool (GetBool flags given name) = value_of given name d"
    "type_of d = TStrings \<Longrightarrow> FStrings (GetStringSlice flags given name) = value_of given name d"
    using typed
    by (fastforce simp: type_of_values GetString_def GetInt_def GetInt64_def GetUint64_def GetBool_def GetStringSlice_def)+
qed

lemma find_flag:
  "find P (opt name d # fs) = (if P (opt name d) then Some (opt name d) else find P fs)"
  "find P (req name d # fs) = (if P (req name d) then Some (req name d) else find P fs)"
  "fl_name (opt name d) = name" "fl_name (req name d) = name"
  "fl_default (opt name d) = d" "fl_default (req name d) = d"
  by (simp_all add: opt_def req_def)

text \<open>What a getter returns depends only on the flag of that name.\<close>

lemma get_flag_other: "name \<noteq> other \<Longrightarrow> get_flag ty flags (given(other := v)) name = get_flag ty flags given name"
  by (simp add: get_flag_def split: option.split)

lemma getters_other:
  assumes "name \<noteq> other"
  shows "GetString flags (given(other := v)) name = GetString flags given name"
    and "GetInt flags (given(other := v)) name = GetInt flags given name"
    and "GetInt64 flags (given(other := v)) name = GetInt64 flags given name"
    and "GetUint64 flags (given(other := v)) name = GetUint64 flags given name"
    and "GetBool flags (given(other := v)) name = GetBool flags given name"
    and "GetStringSlice flags (given(other := v)) name = GetStringSlice flags given name"
  by (simp_all add: GetString_def GetInt_def GetInt64_def GetUint64_def GetBool_def GetStringSlice_def get_flag_other [OF assms])

section \<open>Properties\<close>

text \<open>On values of the declared types \<open>run\<close>, \<open>extract\<close> and \<open>snapshot prune\<close> read exactly what was given, and the
  declared default for a flag that was not: every getter names a declared flag and has its type, so the errors
  that the code ignores do not occur. In particular, without flags one probe is run on the corpus
  \<open>fixtures\<close> and a divergence does not fail the run.\<close>

theorem command_flags_exact:
  "(well_typed run_flags given \<longrightarrow>
      FString (rf_corpus (run_reads given)) = value_of given ''corpus'' (FString ''fixtures'') \<and>
      FInt (rf_probes (run_reads given)) = value_of given ''probes'' (FInt 1) \<and>
      FBool (rf_fail_on_divergence (run_reads given)) = value_of given ''fail-on-divergence'' (FBool False) \<and>
      FString (rf_format (run_reads given)) = value_of given ''format'' (FString ''text'') \<and>
      FInt (rf_hot_key_min_txs (run_reads given)) = value_of given ''hot-key-min-txs'' (FInt 2)) \<and>
   (well_typed extract_flags given \<longrightarrow>
      FString (xf_source (extract_reads given)) = value_of given ''source'' (FString '''') \<and>
      FString (xf_out (extract_reads given)) = value_of given ''out'' (FString '''') \<and>
      FInt64 (xf_start (extract_reads given)) = value_of given ''start'' (FInt64 0) \<and>
      FInt64 (xf_end (extract_reads given)) = value_of given ''end'' (FInt64 0) \<and>
      FString (xf_chain_id (extract_reads given)) = value_of given ''chain-id'' (FString '''') \<and>
      FString (xf_bond_denom (extract_reads given)) = value_of given ''bond-denom'' (FString '''') \<and>
      FUint64 (xf_app_version (extract_reads given)) = value_of given ''app-version'' (FUint64 0)) \<and>
   (well_typed prune_flags given \<longrightarrow>
      FString (pf_snapshot_dir (prune_reads given)) = value_of given ''snapshot-dir'' (FString '''') \<and>
      FInt64 (pf_target_version (prune_reads given)) = value_of given ''target-version'' (FInt64 (-1)))"
  by (intro conjI impI; simp add: run_reads_def extract_reads_def prune_reads_def; rule getters_typed; (assumption | simp add: flag_tables find_flag))

text \<open>\<open>run --probes 3 --fail-on-divergence\<close>.\<close>

theorem command_flags_exact_witness:
  "run_reads [''probes'' \<mapsto> FInt 3, ''fail-on-divergence'' \<mapsto> FBool True] =
     \<lparr>rf_corpus = ''fixtures'', rf_probes = 3, rf_fail_on_divergence = True, rf_format = ''text'', rf_hot_key_min_txs = 2\<rparr>"
proof -
  let ?given = "[''probes'' \<mapsto> FInt 3, ''fail-on-divergence'' \<mapsto> FBool True]"
  have "well_typed run_flags ?given" by (simp add: well_typed_def run_flags_def opt_def)
  with command_flags_exact [of ?given] show ?thesis by (intro RunFlags.equality) (simp_all add: value_of_def)
qed

text \<open>The persistent flags \<open>--record-dir\<close> and \<open>--record-off\<close> of the root command change nothing: whatever they
  are set to, every command reads the same and does the same.\<close>

theorem record_flags_ignored:
  assumes "other \<in> fl_name ` set persistent_flags"
  shows "run_reads (given(other := v)) = run_reads given \<and>
    extract_reads (given(other := v)) = extract_reads given \<and>
    prune_reads (given(other := v)) = prune_reads given \<and>
    version_run json yaml info (given(other := v)) = version_run json yaml info given \<and>
    detect_run sort1 encode1 scan1 (given(other := v)) = detect_run sort1 encode1 scan1 given \<and>
    lint_run sort2 encode2 scan2 (given(other := v)) = lint_run sort2 encode2 scan2 given"
  using assms
  by (auto simp: persistent_flags_def opt_def run_reads_def extract_reads_def prune_reads_def version_run_def detect_run_def
      lint_run_def getters_other)

end
