(* ===== verification/Spec2Isabelle.thy ===== *)
theory Spec2Isabelle
  imports Canary_Msgs Canary_Module Descriptor Harness Tracker_Reflect Recorder Sdkhook Snapshot_Run Detect Lint Commands Pipeline
    Sdk_Adapter Canary_Wiring Canary_App Command_Line
begin

text \<open>
  A model of blockstm-sim, the simulator that runs each block of a corpus twice, sequentially (the
  oracle) and with parallel BlockSTM execution (the probe), and reports every difference, together with its
  two static analyses of keeper code.

  How the program works. The \<open>run\<close> command (\<open>run/command.go\<close>) loads the corpora of a directory
  (\<open>compare/corpus.go\<close>) and calls the harness (\<open>run/harness.go\<close>), which lets an executor initialise its
  applications and run each block. The fixture executor (\<open>run/executor.go\<close>) signs and builds the transactions
  of a block and hands its two applications to \<open>compare.Run\<close> (\<open>compare/compare.go\<close>), which calls
  \<open>FinalizeBlock\<close> on the oracle, then a hook, then on the probe, and compares the responses and what the
  observers collected: \<open>BlockObserver\<close> (\<open>compare/observer.go\<close>) holds the keys each transaction wrote and,
  through mutation trackers, the changes of keeper fields outside the KV store; the reflection tracker
  (\<open>tracker/\<close>) takes the snapshots of those fields; the block-context tracker records writes to fields such
  as the height; the sinks of conflicts (\<open>compare/conflict.go\<close>) and of non-deterministic calls
  (\<open>simharness/nondet.go\<close>) buffer what parallel code reports. The repeat executor compares several probes
  with each other, the snapshot executor replays blocks of a chain over copies of its database. The findings
  go to a reporter (\<open>report/\<close>) and the message types and write sets to the coverage trackers (\<open>coverage/\<close>).
  The canary module (\<open>x/simcanary/\<close>) brings messages that diverge on purpose, with a hand-written wire
  format. The commands \<open>extract\<close> and \<open>snapshot prune\<close> prepare snapshots. The commands \<open>detect\<close> and \<open>lint\<close>
  search Go code for calls that are not deterministic and for writes to keeper fields.

  The theories, in the order they build on each other.
  Go_Prelude: outcomes of a call (value, error, panic), indexing that panics, bytes, strings as byte
  sequences, 64-bit integers, decimal and hexadecimal printing, \<open>strings.Join\<close>, canonical sorting.
  Go_State: functions of a state that may fail or panic, and what every such function keeps.
  Proto_Wire, Canary_Msgs: \<open>x/simcanary/types/msgs.go\<close>; varints and tags, then Size, Marshal, MarshalTo and
  Unmarshal of the six messages. The locales \<open>wire_message\<close>, \<open>wire_codec\<close> and \<open>calm_switch\<close> carry the round
  trip and the absence of panics for any message and are interpreted on each of the six.
  Conflict: \<open>compare/conflict.go\<close>, the sink and the hot keys; the locale \<open>call_sink\<close> is the contract of a buffer
  that records and drains, interpreted on the conflict sink and, in Nondet, on the sink of calls.
  Block_Context: \<open>compare/block_context_tracker.go\<close>, refined to a specification over histories.
  Observer: \<open>compare/observer.go\<close>; type safety of the callbacks, write sets under interleavings,
  per-transaction and block-level capture; the locale \<open>write_set_provider\<close> is the contract of that interface.
  Sha256, Compare_Run: the hash, and \<open>compare/compare.go\<close> with \<open>compare/finding.go\<close>: what the verdict means,
  the order of the findings, errors, and what the printed events cannot tell apart.
  Coverage: \<open>coverage/\<close>. Corpus: fixture, fuzz and snapshot corpora; the locale \<open>corpus_store\<close> is
  interpreted on each. Report: the CLI, JSON and Markdown reporters; the locale \<open>collecting_reporter\<close> is
  interpreted on the latter two. Harness: \<open>RunHarness\<close> over any executor and reporter.
  Tracker_Reflect: \<open>tracker/\<close>, snapshots of Go values over a heap.
  Executors: building transactions and \<open>RunBlock\<close> of \<open>run/executor.go\<close>; an application is its responses with
  the events it causes. Executor_Init: \<open>Init\<close> and \<open>Close\<close> of that executor and of the repeat executor.
  Repeat_Run: \<open>run/repeat_executor.go\<close>, \<open>run/perturb_config.go\<close>. Snapshot_Run:
  \<open>run/snapshot_executor.go\<close>, \<open>run/prune.go\<close> over trees of files and system calls that may fail.
  Recorder: \<open>recorder/\<close>. Sdkhook: \<open>sdkhook/\<close>, \<open>instrument/\<close>, the registration slots.
  Canary_Module: keeper, handlers and builders of \<open>x/simcanary/\<close>, with the interleavings of a block's handlers
  as an inductive step relation, what they can reach, that they end, and that a differing one is detected.
  Descriptor: \<open>x/simcanary/types/file_simcanary_tx.go\<close>, the registered file descriptor as data, and the proto3
  encoding it prescribes as the reference for the marshallers of Canary_Msgs; the handlers of
  \<open>types/codec.go\<close>, reached from the wire; the coverage entries registered at start-up.
  Go_Ast: Go syntax trees, traversal, directory trees and packages for the two analyses. Detect: \<open>detect/\<close>,
  Lint: \<open>lint/\<close>; for both, the traversal finds exactly what a declarative description of a finding says.
  Commands: the loading of corpora, \<open>cmd/extract\<close>, \<open>cmd/snapshot\<close>, \<open>run/command.go\<close> and \<open>version/\<close>; what
  the commands write, remove, print and return. Pipeline: the fixture and the repeat executor behind the
  harness's interface, and what a run of the harness reports about their blocks.
  Sdk_Adapter: \<open>cmd/blockstm-sim/sdkimpl/\<close>, the build tags of \<open>simharness/\<close>, and what the registered slots make of
  the fixture executor. Canary_Wiring: the package variables of \<open>run/executor.go\<close>, the \<open>init\<close> of
  \<open>run/executor_canary.go\<close>, and a canary corpus in a build without it. Canary_App: \<open>x/simcanary/module.go\<close> over
  a heap of keepers, and the methods of the message types that do not touch the wire. Command_Line: the flags
  of \<open>cmd/blockstm-sim/main.go\<close> and of the commands, and what the commands read of them. This theory: what
  the exit code of a whole run says about the applications.

  Conventions. A Go struct is a record, a map that is ranged over an association list in the order of one
  iteration, a map that is only looked up a function. Methods that hold a mutex are atomic, so a concurrent
  run is a sequence of methods; the theorems quantify over all interleavings. \<open>int\<close> is an unbounded integer
  where the code only counts, and is kept at 64 bits where it can overflow (the wire format, block counts,
  sequence numbers). Code outside the repository is an argument of the definitions that use it: the
  applications and the memory they share (a type variable), files, system calls and their errors, the
  decoders and encoders of JSON, YAML and protobuf descriptors, the block store, the multistore,
  \<open>math/rand\<close>, the printing of floating-point ratios, \<open>%v\<close>, the Go parser, package loader and type checker,
  and \<open>sort.Slice\<close>, which is only assumed to sort.

  Bounds and fuel. The loop of Unmarshal is a \<open>partial_function\<close>, so that not returning is a value; Canary_Msgs
  shows that it returns on inputs without over-long lengths and that it need not on others. The snapshot of
  the tracker recurses on the code's own depth limit, maxDepth 8, which gives nine levels. All other loops
  are structural or have a measure. The height counter of the snapshot corpus does not wrap in the model,
  which is exact for ranges that end below the largest \<open>int64\<close>.

  Not modelled: cobra's parsing of flags and its check that required flags are given (Command_Line starts from the
  parsed values); how depinject calls \<open>ProvideModule\<close> and hands its outputs to their targets; what gRPC and the
  SDK do with the registered services and interfaces; the compile-time assertions of interfaces; the contents of
  SDK types that the adapter forwards; the run id of the recorder, which is random; the hint lines of the
  harness after the first.
\<close>

section \<open>What the exit code of a run means\<close>



end
